theory Spec2Isabelle
  imports Complex_Main "HOL-Library.Char_ord" "HOL-Library.List_Lexorder"
begin

section \<open>Shared conventions\<close>

text \<open>
  The sources are TypeScript. A JavaScript \<open>number\<close> that holds a byte count, a port, a
  sequence or acknowledgment number or a millisecond timestamp is modelled as an unbounded
  \<open>int\<close>: the values the program computes with are integers below 2^53 in magnitude, where
  doubles are exact. Numbers that come out of \<open>parseInt\<close> on a request header are not
  bounded in that way and are modelled as doubles (\<open>jsnum\<close>, in the security middleware).
  Quotients are rounded to the nearest double (\<open>double_quotient\<close>). Anomaly scores, the
  rates and thresholds they are compared with, durations and scale factors are exact
  rationals: a decimal constant such as 0.01 or 0.4 stands for the rational, not for the
  double next to it. A JavaScript string is a \<open>string\<close>; every \<open>char\<close> stands for one code
  unit below 256. \<open>Date.now()\<close> and \<open>Math.random()\<close> are parameters of the operations
  that read them. Console output is not modelled.
\<close>

subsection \<open>Number formatting in template literals\<close>

definition digit_char :: "nat \<Rightarrow> char" where
  "digit_char d = ''0123456789'' ! (d mod 10)"

fun show_nat :: "nat \<Rightarrow> string" where
  "show_nat n = (if n < 10 then [digit_char n] else show_nat (n div 10) @ [digit_char (n mod 10)])"

declare show_nat.simps [simp del]

definition show_int :: "int \<Rightarrow> string" where
  "show_int i = (if i < 0 then CHR ''-'' # show_nat (nat (- i)) else show_nat (nat i))"

subsection \<open>Division of numbers\<close>

text \<open>
  \<open>a / b\<close> on two integer-valued numbers is the double nearest to the exact quotient, ties
  to the even significand; the result is given as the rational it denotes. With \<open>e\<close> the
  binary exponent of the quotient (not below -1022, where the subnormal range starts),
  the doubles around the quotient are the multiples of \<open>2^(e - 52)\<close>. The divisor is never
  zero where the program divides, and a quotient of two integers below 2^1024 does not
  overflow.
\<close>

fun ilog2 :: "nat \<Rightarrow> nat" where
  "ilog2 n = (if n < 2 then 0 else Suc (ilog2 (n div 2)))"

declare ilog2.simps [simp del]

definition pow2 :: "int \<Rightarrow> rat" where
  "pow2 k = (if 0 \<le> k then 2 ^ nat k else 1 / 2 ^ nat (- k))"

definition round_half_even :: "rat \<Rightarrow> int" where
  "round_half_even y =
     (let f = \<lfloor>y\<rfloor>; r = y - of_int f
      in if r < 1 / 2 then f else if 1 / 2 < r then f + 1 else if even f then f else f + 1)"

definition double_quotient :: "int \<Rightarrow> int \<Rightarrow> rat" where
  "double_quotient a b =
     (if a = 0 then 0
      else
        (let x = \<bar>of_int a / of_int b\<bar>;
             d = int (ilog2 (nat \<bar>a\<bar>)) - int (ilog2 (nat \<bar>b\<bar>));
             e = max (if pow2 d \<le> x then d else d - 1) (- 1022);
             q = pow2 (e - 52);
             y = of_int (round_half_even (x / q)) * q
         in if (a < 0) = (b < 0) then y else - y))"

section \<open>Attack orchestrator: configuration (OptimisticACKAttacker)\<close>

datatype TransferType = Download | Streaming

record AttackConfig =
  targetHost :: string
  targetPort :: int
  attackDuration :: rat
  packetInterval :: rat
  ackAdvanceSize :: int
  windowScale :: rat
  enableTransfer :: bool
  transferType :: TransferType
  transferUrl :: "string option"
  streamId :: "string option"
  measureSpeed :: bool

datatype config_error = ConfigError string

text \<open>\<open>!s\<close> on an optional string: undefined and the empty string are both falsy.\<close>

definition falsy_str :: "string option \<Rightarrow> bool" where
  "falsy_str s = (case s of None \<Rightarrow> True | Some v \<Rightarrow> v = [])"

definition base_url :: "AttackConfig \<Rightarrow> string" where
  "base_url c = ''http://'' @ targetHost c @ '':'' @ show_int (targetPort c)"

text \<open>The defaulting block at the end of \<open>validateConfig\<close> (it mutates the config).\<close>

definition fill_transfer_defaults :: "AttackConfig \<Rightarrow> AttackConfig" where
  "fill_transfer_defaults c =
     (if enableTransfer c then
        (if transferType c = Download \<and> falsy_str (transferUrl c) then
           c\<lparr>transferUrl := Some (base_url c @ ''/download/xl.dat'')\<rparr>
         else if transferType c = Streaming then
           (let c1 = (if falsy_str (streamId c) then c\<lparr>streamId := Some ''demo-stream''\<rparr> else c)
            in c1\<lparr>transferUrl :=
                  Some (base_url c1 @ ''/stream/'' @ the (streamId c1) @ ''/playlist.m3u8'')\<rparr>)
         else c)
      else c)"

text \<open>\<open>validateConfig\<close>: each \<open>throw new Error(msg)\<close> is \<open>Inl (ConfigError msg)\<close>.\<close>

definition validateConfig :: "AttackConfig \<Rightarrow> config_error + AttackConfig" where
  "validateConfig c =
     (if targetHost c = [] then Inl (ConfigError ''Target host is required'')
      else if targetPort c \<le> 0 \<or> targetPort c > 65535 then
        Inl (ConfigError ''Target port must be between 1 and 65535'')
      else if attackDuration c \<le> 0 then Inl (ConfigError ''Attack duration must be positive'')
      else if packetInterval c \<le> 0 then Inl (ConfigError ''Packet interval must be positive'')
      else if ackAdvanceSize c \<le> 0 then Inl (ConfigError ''ACK advance size must be positive'')
      else Inr (fill_transfer_defaults c))"

text \<open>
  The constructor stores the config, resets the counters and calls \<open>validateConfig\<close>; an
  exception thrown there leaves no object behind. Only the fields the claims touch are
  kept. Where two classes of the source use one field name, the later record prefixes it
  (\<open>attackerConfig\<close>, \<open>defenseConfig\<close>), since record fields are global names.
\<close>

record Attacker =
  attackerConfig :: AttackConfig
  isAttackActive :: bool
  packetsPressed :: nat
  successfulAcks :: nat
  totalDataTransferred :: int
  transferActive :: bool

definition new_attacker :: "AttackConfig \<Rightarrow> config_error + Attacker" where
  "new_attacker c =
     (case validateConfig c of
        Inl e \<Rightarrow> Inl e
      | Inr c' \<Rightarrow> Inr \<lparr>attackerConfig = c', isAttackActive = False, packetsPressed = 0,
                       successfulAcks = 0, totalDataTransferred = 0, transferActive = False\<rparr>)"

definition demo_config :: "rat \<Rightarrow> AttackConfig" where
  "demo_config ws =
     \<lparr>targetHost = ''127.0.0.1'', targetPort = 3001, attackDuration = 60, packetInterval = 50,
      ackAdvanceSize = 8760, windowScale = ws, enableTransfer = True, transferType = Download,
      transferUrl = None, streamId = None, measureSpeed = True\<rparr>"

section \<open>Attack orchestrator: chunked download\<close>

text \<open>
  \<open>performChunkedDownload\<close> issues one range request per loop iteration through
  \<open>downloadChunk(url, start, end)\<close>, which sends the header \<open>Range: bytes=start-end\<close>.
  The network is the parameter \<open>fetch\<close>: \<open>fetch start end\<close> tells whether that request
  resolves; a rejection propagates out of the \<open>await\<close> and ends the loop. The result is
  the list of spans requested, in order, and whether the download ran to completion.
  The delays between chunks are not modelled.
\<close>

definition chunkSize_of :: "int \<Rightarrow> int" where
  "chunkSize_of a = max a 65536"

function chunk_loop ::
  "(int \<Rightarrow> int \<Rightarrow> bool) \<Rightarrow> int \<Rightarrow> int \<Rightarrow> int \<Rightarrow> (int \<times> int) list \<times> bool" where
  "chunk_loop fetch a totalSize currentOffset =
     (if currentOffset < totalSize then
        (if fetch currentOffset (min (currentOffset + chunkSize_of a - 1) (totalSize - 1)) then
           (case chunk_loop fetch a totalSize
                   (min (currentOffset + chunkSize_of a - 1) (totalSize - 1) + 1) of
              (rs, finished) \<Rightarrow>
                ((currentOffset, min (currentOffset + chunkSize_of a - 1) (totalSize - 1)) # rs,
                 finished))
         else ([(currentOffset, min (currentOffset + chunkSize_of a - 1) (totalSize - 1))], False))
      else ([], True))"
  by pat_completeness auto
termination
  by (relation "measure (\<lambda>(fetch, a, totalSize, cur). nat (totalSize - cur))")
     (auto simp add: chunkSize_of_def)

declare chunk_loop.simps [simp del]

definition performChunkedDownload ::
  "(int \<Rightarrow> int \<Rightarrow> bool) \<Rightarrow> AttackConfig \<Rightarrow> int \<Rightarrow> (int \<times> int) list \<times> bool" where
  "performChunkedDownload fetch cfg totalSize = chunk_loop fetch (ackAdvanceSize cfg) totalSize 0"

definition range_header :: "int \<Rightarrow> int \<Rightarrow> string" where
  "range_header start end' = ''bytes='' @ show_int start @ ''-'' @ show_int end'"

definition n_chunks :: "int \<Rightarrow> int \<Rightarrow> int \<Rightarrow> nat" where
  "n_chunks C S cur = nat ((S - cur + C - 1) div C)"

section \<open>Traffic analyzer\<close>

record TrafficPattern =
  timestamp :: int
  sourceIP :: string
  destinationIP :: string
  sourcePort :: int
  destinationPort :: int
  sequenceNumber :: int
  ackNumber :: int
  windowSize :: int
  flags :: "string list"
  dataLength :: int

record AttackSignature =
  rapidACKs :: bool
  abnormalWindowGrowth :: bool
  sequenceGaps :: bool
  suspiciousPattern :: bool

record TrafficAnalyzer =
  trafficHistory :: "TrafficPattern list"
  windowSizeHistory :: "string \<rightharpoonup> int list"
  ackFrequencyMap :: "string \<rightharpoonup> int list"

definition new_TrafficAnalyzer :: TrafficAnalyzer where
  "new_TrafficAnalyzer =
     \<lparr>trafficHistory = [], windowSizeHistory = Map.empty, ackFrequencyMap = Map.empty\<rparr>"

text \<open>\<open>xs.slice(-n)\<close>: the last \<open>n\<close> elements, the whole array when it is shorter.\<close>

definition slice_last :: "nat \<Rightarrow> 'a list \<Rightarrow> 'a list" where
  "slice_last n xs = drop (length xs - n) xs"

definition connectionKey :: "TrafficPattern \<Rightarrow> string" where
  "connectionKey p = sourceIP p @ '':'' @ show_int (sourcePort p)"

definition updateWindowSizeHistory :: "TrafficPattern \<Rightarrow> TrafficAnalyzer \<Rightarrow> TrafficAnalyzer" where
  "updateWindowSizeHistory p st =
     (let history = (case windowSizeHistory st (connectionKey p) of None \<Rightarrow> [] | Some h \<Rightarrow> h)
                    @ [windowSize p];
          history' = (if length history > 100 then drop (length history - 50) history else history)
      in st\<lparr>windowSizeHistory := (windowSizeHistory st)(connectionKey p \<mapsto> history')\<rparr>)"

definition updateACKFrequency :: "TrafficPattern \<Rightarrow> TrafficAnalyzer \<Rightarrow> TrafficAnalyzer" where
  "updateACKFrequency p st =
     (if ''ACK'' \<notin> set (flags p) then st
      else
        (let ackTimes = (case ackFrequencyMap st (connectionKey p) of None \<Rightarrow> [] | Some h \<Rightarrow> h)
                        @ [timestamp p];
             cutoffTime = timestamp p - 10000
         in st\<lparr>ackFrequencyMap :=
                 (ackFrequencyMap st)(connectionKey p \<mapsto> dropWhile (\<lambda>t. t < cutoffTime) ackTimes)\<rparr>))"

definition detectRapidACKs :: "TrafficAnalyzer \<Rightarrow> string \<Rightarrow> int \<Rightarrow> bool" where
  "detectRapidACKs st key now =
     (case ackFrequencyMap st key of
        None \<Rightarrow> False
      | Some ackTimes \<Rightarrow>
          if length ackTimes < 10 then False
          else length (filter (\<lambda>t. t > now - 5000) ackTimes) > 50)"

text \<open>
  The counting loop of \<open>detectAbnormalWindowGrowth\<close>: for \<open>i\<close> from 1, one more when
  \<open>recent[i] > recent[i-1] * 1.5\<close>.
\<close>

fun growthCount :: "int list \<Rightarrow> nat" where
  "growthCount (a # b # rest) =
     (if (of_int b :: rat) > of_int a * (3 / 2) then 1 else 0) + growthCount (b # rest)"
| "growthCount _ = 0"

definition detectAbnormalWindowGrowth :: "TrafficAnalyzer \<Rightarrow> string \<Rightarrow> bool" where
  "detectAbnormalWindowGrowth st key =
     (case windowSizeHistory st key of
        None \<Rightarrow> False
      | Some windowHistory \<Rightarrow>
          if length windowHistory < 5 then False
          else growthCount (slice_last 5 windowHistory) \<ge> 3)"

definition same_connection :: "TrafficPattern \<Rightarrow> TrafficPattern \<Rightarrow> bool" where
  "same_connection packet p = (sourceIP p = sourceIP packet \<and> sourcePort p = sourcePort packet)"

definition detectSequenceGaps :: "TrafficAnalyzer \<Rightarrow> TrafficPattern \<Rightarrow> bool" where
  "detectSequenceGaps st packet =
     (let recentPackets = slice_last 10 (filter (same_connection packet) (trafficHistory st))
      in if length recentPackets < 2 then False
         else \<bar>ackNumber packet - ackNumber (recentPackets ! (length recentPackets - 2))\<bar> > 1000000)"

definition detectSuspiciousPattern :: "TrafficAnalyzer \<Rightarrow> string \<Rightarrow> int \<Rightarrow> bool" where
  "detectSuspiciousPattern st key now =
     (detectRapidACKs st key now \<and> detectAbnormalWindowGrowth st key)"

definition detectAttackSignatures :: "TrafficAnalyzer \<Rightarrow> TrafficPattern \<Rightarrow> int \<Rightarrow> AttackSignature" where
  "detectAttackSignatures st packet now =
     \<lparr>rapidACKs = detectRapidACKs st (connectionKey packet) now,
      abnormalWindowGrowth = detectAbnormalWindowGrowth st (connectionKey packet),
      sequenceGaps = detectSequenceGaps st packet,
      suspiciousPattern = detectSuspiciousPattern st (connectionKey packet) now\<rparr>"

text \<open>\<open>analyzePacket\<close>; \<open>now\<close> is the \<open>Date.now()\<close> read by \<open>detectRapidACKs\<close>.\<close>

definition analyzePacket ::
  "TrafficPattern \<Rightarrow> int \<Rightarrow> TrafficAnalyzer \<Rightarrow> AttackSignature \<times> TrafficAnalyzer" where
  "analyzePacket packet now st =
     (let st1 = st\<lparr>trafficHistory := trafficHistory st @ [packet]\<rparr>;
          st2 = updateWindowSizeHistory packet st1;
          st3 = updateACKFrequency packet st2;
          st4 = (if length (trafficHistory st3) > 10000
                 then st3\<lparr>trafficHistory := slice_last 5000 (trafficHistory st3)\<rparr> else st3)
      in (detectAttackSignatures st4 packet now, st4))"

text \<open>Feeding a list of packets, each with the clock value at which it is analysed.\<close>

fun analyzeAll ::
  "(TrafficPattern \<times> int) list \<Rightarrow> TrafficAnalyzer \<Rightarrow> AttackSignature list \<times> TrafficAnalyzer" where
  "analyzeAll [] st = ([], st)"
| "analyzeAll ((p, now) # ps) st =
     (case analyzePacket p now st of
        (sig, st') \<Rightarrow> (case analyzeAll ps st' of (sigs, st'') \<Rightarrow> (sig # sigs, st'')))"

definition mk_packet :: "string \<Rightarrow> int \<Rightarrow> int \<Rightarrow> int \<Rightarrow> TrafficPattern" where
  "mk_packet src sp ack win =
     \<lparr>timestamp = 0, sourceIP = src, destinationIP = ''10.0.0.1'', sourcePort = sp,
      destinationPort = 3001, sequenceNumber = 1, ackNumber = ack, windowSize = win,
      flags = [''ACK''], dataLength = 0\<rparr>"

text \<open>
  The reading of the specification's sentence on window growth, for comparison with
  \<open>growthCount\<close>: among the steps between adjacent samples, three steps in a row each
  grew by more than 1.5 times.
\<close>

definition grew :: "int list \<Rightarrow> nat \<Rightarrow> bool" where
  "grew r i = ((of_int (r ! Suc i) :: rat) > of_int (r ! i) * (3 / 2))"

definition spec_three_consecutive_growth_steps :: "int list \<Rightarrow> bool" where
  "spec_three_consecutive_growth_steps r =
     (\<exists>i \<in> set [0..<length r - 3]. grew r i \<and> grew r (i + 1) \<and> grew r (i + 2))"

section \<open>Defense system\<close>

record DefenseConfig =
  ackValidationEnabled :: bool
  rateLimitingEnabled :: bool
  sequenceTrackingEnabled :: bool
  adaptiveWindowEnabled :: bool
  anomalyDetectionEnabled :: bool
  quarantineEnabled :: bool
  maxACKsPerSecond :: int
  maxWindowGrowthRate :: rat
  maxSequenceGap :: int
  suspiciousPatternThreshold :: rat
  quarantineDuration :: int

record ConnectionState =
  ip :: string
  port :: int
  expectedSeq :: int
  expectedAck :: int
  lastValidAck :: int
  connWindowSize :: int
  ackCount :: int
  lastACKTime :: int
  suspicious :: bool
  quarantined :: bool
  quarantineUntil :: int
  anomalyScore :: rat

datatype ActionType = Block | RateLimit | Quarantine | Alert | RejectPacket

datatype Severity = Low | Medium | High | Critical

record DefenseAction =
  actionType :: ActionType
  reason :: string
  severity :: Severity
  actionTimestamp :: int
  connectionId :: string

text \<open>
  The object state of \<open>DefenseSystem\<close>. \<open>emitted\<close> lists every
  \<open>emit('defenseAction', action)\<close> in order, for the listeners; \<open>releaseTimers\<close> lists
  the pending \<open>setTimeout\<close> releases as (due time, IP). The periodic
  \<open>cleanupExpiredStates\<close> sweep is not modelled.
\<close>

record DefenseSystem =
  defenseConfig :: DefenseConfig
  connectionStates :: "string \<rightharpoonup> ConnectionState"
  quarantinedIPs :: "string set"
  defenseActions :: "DefenseAction list"
  emitted :: "DefenseAction list"
  releaseTimers :: "(int \<times> string) list"

definition default_DefenseConfig :: DefenseConfig where
  "default_DefenseConfig =
     \<lparr>ackValidationEnabled = True, rateLimitingEnabled = True, sequenceTrackingEnabled = True,
      adaptiveWindowEnabled = True, anomalyDetectionEnabled = True, quarantineEnabled = True,
      maxACKsPerSecond = 100, maxWindowGrowthRate = 2, maxSequenceGap = 1048576,
      suspiciousPatternThreshold = 7 / 10, quarantineDuration = 300000\<rparr>"

definition new_DefenseSystem :: "DefenseConfig \<Rightarrow> DefenseSystem" where
  "new_DefenseSystem cfg =
     \<lparr>defenseConfig = cfg, connectionStates = Map.empty, quarantinedIPs = {},
      defenseActions = [], emitted = [], releaseTimers = []\<rparr>"

definition conn_id :: "string \<Rightarrow> int \<Rightarrow> string" where
  "conn_id i p = i @ '':'' @ show_int p"

definition createDefenseAction ::
  "ActionType \<Rightarrow> string \<Rightarrow> Severity \<Rightarrow> string \<Rightarrow> int \<Rightarrow> DefenseSystem
     \<Rightarrow> DefenseAction \<times> DefenseSystem" where
  "createDefenseAction ty rsn sev cid now ds =
     (let action = \<lparr>actionType = ty, reason = rsn, severity = sev, actionTimestamp = now,
                     connectionId = cid\<rparr>;
          log = defenseActions ds @ [action];
          log' = (if length log > 1000 then slice_last 500 log else log)
      in (action, ds\<lparr>defenseActions := log', emitted := emitted ds @ [action]\<rparr>))"

definition isQuarantined :: "DefenseSystem \<Rightarrow> string \<Rightarrow> bool" where
  "isQuarantined ds i = (i \<in> quarantinedIPs ds)"

definition fresh_state :: "string \<Rightarrow> int \<Rightarrow> int \<Rightarrow> ConnectionState" where
  "fresh_state i p now =
     \<lparr>ip = i, port = p, expectedSeq = 0, expectedAck = 0, lastValidAck = 0,
      connWindowSize = 0, ackCount = 0, lastACKTime = now, suspicious = False,
      quarantined = False, quarantineUntil = 0, anomalyScore = 0\<rparr>"

definition getOrCreateConnectionState :: "string \<Rightarrow> int \<Rightarrow> int \<Rightarrow> DefenseSystem \<Rightarrow> DefenseSystem" where
  "getOrCreateConnectionState i p now ds =
     (if connectionStates ds (conn_id i p) = None then
        ds\<lparr>connectionStates := (connectionStates ds)(conn_id i p \<mapsto> fresh_state i p now)\<rparr>
      else ds)"

text \<open>
  The anomaly score is an exact rational: the decay of \<open>updateConnectionState\<close> is 1/100
  and the increments given to \<open>updateAnomalyScore\<close> are 3/10, 1/5, 1/4, 2/5 and 1/2. The
  source adds and subtracts the doubles next to these constants and rounds every result,
  so a score that has gone through a decay or through an increment other than 1/4 or 1/2
  can differ from the rational in its last binary place, and with it the outcome of a
  later comparison that the rational meets exactly. Sums of quarters and halves are the
  same on both sides.
\<close>

definition updateConnectionState :: "ConnectionState \<Rightarrow> int \<Rightarrow> int \<Rightarrow> int \<Rightarrow> ConnectionState" where
  "updateConnectionState s seq ack win =
     s\<lparr>expectedSeq := seq, expectedAck := ack, lastValidAck := max (lastValidAck s) ack,
       connWindowSize := win, anomalyScore := max 0 (anomalyScore s - 1 / 100)\<rparr>"

definition updateAnomalyScore :: "ConnectionState \<Rightarrow> rat \<Rightarrow> ConnectionState" where
  "updateAnomalyScore s increment =
     (let s1 = s\<lparr>anomalyScore := min 1 (anomalyScore s + increment)\<rparr>
      in if anomalyScore s1 > 1 / 2 then s1\<lparr>suspicious := True\<rparr> else s1)"

definition validateACKNumber :: "DefenseConfig \<Rightarrow> ConnectionState \<Rightarrow> int \<Rightarrow> bool \<times> string" where
  "validateACKNumber cfg s ack =
     (let ackAdvance = ack - lastValidAck s;
          suspiciousAdvanceThreshold = maxSequenceGap cfg * 2
      in if ackAdvance > suspiciousAdvanceThreshold then
           (False, ''Highly suspicious ACK detected: advancing '' @ show_int ackAdvance
                   @ '' bytes beyond expected (threshold: '' @ show_int suspiciousAdvanceThreshold
                   @ '')'')
         else if ack < lastValidAck s - 1024 \<and> lastValidAck s > 1024 then
           (False, ''Significant ACK regression detected: '' @ show_int ack @ '' << ''
                   @ show_int (lastValidAck s))
         else (True, []))"

definition checkACKRateLimit ::
  "DefenseConfig \<Rightarrow> ConnectionState \<Rightarrow> int \<Rightarrow> (bool \<times> string) \<times> ConnectionState" where
  "checkACKRateLimit cfg s now =
     (let s1 = (if now - lastACKTime s > 1000 then s\<lparr>ackCount := 0, lastACKTime := now\<rparr> else s);
          s2 = s1\<lparr>ackCount := ackCount s1 + 1\<rparr>;
          effectiveLimit = maxACKsPerSecond cfg * 3
      in if ackCount s2 > effectiveLimit then
           ((False, ''Extreme ACK rate limit exceeded: '' @ show_int (ackCount s2)
                    @ '' ACKs/second (limit: '' @ show_int effectiveLimit @ '')''), s2)
         else ((True, []), s2))"

definition validateSequenceNumber :: "ConnectionState \<Rightarrow> int \<Rightarrow> bool \<times> string" where
  "validateSequenceNumber s seq =
     (if expectedSeq s > 0 \<and> \<bar>seq - expectedSeq s\<bar> > 65536 then
        (False, ''Sequence number deviation too large: '' @ show_int \<bar>seq - expectedSeq s\<bar>
                @ '' bytes'')
      else (True, []))"

text \<open>
  \<open>x.toFixed(2)\<close> for a double \<open>x\<close> below 10^21 in magnitude, given as the rational it
  denotes: the hundredth nearest to the exact value of \<open>x\<close>, the larger one on a tie.
\<close>

definition toFixed2 :: "rat \<Rightarrow> string" where
  "toFixed2 x =
     (let n = nat \<lfloor>\<bar>x\<bar> * 100 + 1 / 2\<rfloor>
      in (if x < 0 then ''-'' else []) @ show_nat (n div 100) @ ''.''
         @ [digit_char (n div 10), digit_char n])"

definition validateWindowSize :: "DefenseConfig \<Rightarrow> ConnectionState \<Rightarrow> int \<Rightarrow> bool \<times> string" where
  "validateWindowSize cfg s win =
     (if connWindowSize s > 0
         \<and> double_quotient win (connWindowSize s) > maxWindowGrowthRate cfg then
        (False, ''Abnormal window growth: ''
                @ toFixed2 (double_quotient win (connWindowSize s)) @ ''x increase'')
      else (True, []))"

text \<open>\<open>anomalies.join(', ')\<close>\<close>

fun join_comma :: "string list \<Rightarrow> string" where
  "join_comma [] = []"
| "join_comma [x] = x"
| "join_comma (x # y # ys) = x @ '', '' @ join_comma (y # ys)"

definition detectAnomalies :: "AttackSignature \<Rightarrow> bool \<times> string" where
  "detectAnomalies sig =
     (let anomalies =
            (if rapidACKs sig then [''rapid ACK pattern''] else [])
          @ (if abnormalWindowGrowth sig then [''abnormal window growth''] else [])
          @ (if sequenceGaps sig then [''large sequence gaps''] else [])
          @ (if suspiciousPattern sig then [''suspicious traffic pattern''] else [])
      in if length anomalies \<ge> 2 then
           (True, ''Multiple attack indicators: '' @ join_comma anomalies)
         else (False, []))"

definition quarantineIP :: "string \<Rightarrow> int \<Rightarrow> DefenseSystem \<Rightarrow> DefenseSystem" where
  "quarantineIP i now ds =
     (if \<not> quarantineEnabled (defenseConfig ds) then ds
      else ds\<lparr>quarantinedIPs := insert i (quarantinedIPs ds),
              connectionStates := (\<lambda>k. map_option
                 (\<lambda>s. if ip s = i
                      then s\<lparr>quarantined := True,
                             quarantineUntil := now + quarantineDuration (defenseConfig ds)\<rparr>
                      else s) (connectionStates ds k)),
              releaseTimers := releaseTimers ds
                 @ [(now + quarantineDuration (defenseConfig ds), i)]\<rparr>)"

definition removeFromQuarantine :: "string \<Rightarrow> DefenseSystem \<Rightarrow> DefenseSystem" where
  "removeFromQuarantine i ds =
     ds\<lparr>quarantinedIPs := quarantinedIPs ds - {i},
        connectionStates := (\<lambda>k. map_option
           (\<lambda>s. if ip s = i then s\<lparr>quarantined := False, quarantineUntil := 0, anomalyScore := 0\<rparr>
                else s) (connectionStates ds k))\<rparr>"

text \<open>
  \<open>runDefenseChecks\<close>. The source holds a reference \<open>state\<close> into the map; the model
  reads the entry under the key \<open>cid\<close> and writes every mutation back at once, so that
  \<open>quarantineIP\<close>, which walks the whole map, sees it. Each check is a step that either
  returns the verdict (\<open>Some\<close>) or lets the next check run (\<open>None\<close>).
\<close>

type_synonym verdict = "bool \<times> DefenseAction option"

definition the_state :: "DefenseSystem \<Rightarrow> string \<Rightarrow> ConnectionState" where
  "the_state ds cid = the (connectionStates ds cid)"

definition put_state :: "string \<Rightarrow> ConnectionState \<Rightarrow> DefenseSystem \<Rightarrow> DefenseSystem" where
  "put_state cid s ds = ds\<lparr>connectionStates := (connectionStates ds)(cid \<mapsto> s)\<rparr>"

definition reject ::
  "string \<Rightarrow> rat \<Rightarrow> ActionType \<Rightarrow> string \<Rightarrow> Severity \<Rightarrow> int \<Rightarrow> DefenseSystem
     \<Rightarrow> verdict option \<times> DefenseSystem" where
  "reject cid increment ty rsn sev now ds =
     (let s = the_state ds cid;
          ds1 = put_state cid (updateAnomalyScore s increment) ds;
          (a, ds2) = createDefenseAction ty rsn sev (conn_id (ip s) (port s)) now ds1
      in (Some (False, Some a), ds2))"

definition ackValidationCheck ::
  "string \<Rightarrow> int \<Rightarrow> string list \<Rightarrow> int \<Rightarrow> DefenseSystem \<Rightarrow> verdict option \<times> DefenseSystem" where
  "ackValidationCheck cid ack flgs now ds =
     (let s = the_state ds cid;
          isLikelyAttack = (suspicious s \<or> anomalyScore s > 1 / 2)
      in if ackValidationEnabled (defenseConfig ds) \<and> ''ACK'' \<in> set flgs \<and> isLikelyAttack then
           (case validateACKNumber (defenseConfig ds) s ack of
              (True, _) \<Rightarrow> (None, ds)
            | (False, rsn) \<Rightarrow> reject cid (3 / 10) RejectPacket rsn High now ds)
         else (None, ds))"

definition rateLimitCheck ::
  "string \<Rightarrow> string list \<Rightarrow> int \<Rightarrow> DefenseSystem \<Rightarrow> verdict option \<times> DefenseSystem" where
  "rateLimitCheck cid flgs now ds =
     (if rateLimitingEnabled (defenseConfig ds) \<and> ''ACK'' \<in> set flgs then
        (case checkACKRateLimit (defenseConfig ds) (the_state ds cid) now of
           ((True, _), s') \<Rightarrow> (None, put_state cid s' ds)
         | ((False, rsn), s') \<Rightarrow>
             reject cid (1 / 5) RateLimit rsn Medium now (put_state cid s' ds))
      else (None, ds))"

definition sequenceCheck ::
  "string \<Rightarrow> int \<Rightarrow> int \<Rightarrow> DefenseSystem \<Rightarrow> verdict option \<times> DefenseSystem" where
  "sequenceCheck cid seq now ds =
     (if sequenceTrackingEnabled (defenseConfig ds) then
        (case validateSequenceNumber (the_state ds cid) seq of
           (True, _) \<Rightarrow> (None, ds)
         | (False, rsn) \<Rightarrow> reject cid (1 / 4) RejectPacket rsn Medium now ds)
      else (None, ds))"

text \<open>The window check never returns a verdict: it raises the score and logs an alert.\<close>

definition windowCheck ::
  "string \<Rightarrow> int \<Rightarrow> int \<Rightarrow> DefenseSystem \<Rightarrow> verdict option \<times> DefenseSystem" where
  "windowCheck cid win now ds =
     (if adaptiveWindowEnabled (defenseConfig ds) then
        (case validateWindowSize (defenseConfig ds) (the_state ds cid) win of
           (True, _) \<Rightarrow> (None, ds)
         | (False, rsn) \<Rightarrow> (None, snd (reject cid (1 / 5) Alert rsn Medium now ds)))
      else (None, ds))"

definition anomalyCheck ::
  "string \<Rightarrow> AttackSignature \<Rightarrow> int \<Rightarrow> DefenseSystem \<Rightarrow> verdict option \<times> DefenseSystem" where
  "anomalyCheck cid sig now ds =
     (if anomalyDetectionEnabled (defenseConfig ds) then
        (case detectAnomalies sig of
           (False, _) \<Rightarrow> (None, ds)
         | (True, rsn) \<Rightarrow>
             (let s0 = the_state ds cid;
                  s = updateAnomalyScore s0 (2 / 5);
                  ds1 = put_state cid s ds
              in if anomalyScore s \<ge> suspiciousPatternThreshold (defenseConfig ds) then
                   (let ds2 = quarantineIP (ip s) now ds1;
                        (a, ds3) = createDefenseAction Quarantine rsn Critical
                                     (conn_id (ip s) (port s)) now ds2
                    in (Some (False, Some a), ds3))
                 else
                   (let (a, ds2) = createDefenseAction Block rsn High
                                     (conn_id (ip s) (port s)) now ds1
                    in (Some (False, Some a), ds2))))
      else (None, ds))"

definition and_then ::
  "verdict option \<times> DefenseSystem \<Rightarrow> (DefenseSystem \<Rightarrow> verdict option \<times> DefenseSystem)
     \<Rightarrow> verdict option \<times> DefenseSystem" where
  "and_then r next_check = (case r of (Some v, ds) \<Rightarrow> (Some v, ds) | (None, ds) \<Rightarrow> next_check ds)"

definition runDefenseChecks ::
  "string \<Rightarrow> int \<Rightarrow> int \<Rightarrow> int \<Rightarrow> string list \<Rightarrow> AttackSignature \<Rightarrow> int \<Rightarrow> DefenseSystem
     \<Rightarrow> verdict \<times> DefenseSystem" where
  "runDefenseChecks cid seq ack win flgs sig now ds =
     (case and_then (and_then (and_then (and_then
              (ackValidationCheck cid ack flgs now ds)
              (rateLimitCheck cid flgs now))
              (sequenceCheck cid seq now))
              (windowCheck cid win now))
              (anomalyCheck cid sig now) of
        (Some v, ds') \<Rightarrow> (v, ds')
      | (None, ds') \<Rightarrow> ((True, None), ds'))"

definition mock_signature :: AttackSignature where
  "mock_signature =
     \<lparr>rapidACKs = False, abnormalWindowGrowth = False, sequenceGaps = False,
      suspiciousPattern = False\<rparr>"

definition validateConnection ::
  "string \<Rightarrow> int \<Rightarrow> int \<Rightarrow> int \<Rightarrow> int \<Rightarrow> string list \<Rightarrow> int \<Rightarrow> DefenseSystem
     \<Rightarrow> verdict \<times> DefenseSystem" where
  "validateConnection i p seq ack win flgs now ds =
     (if isQuarantined ds i then
        (let (a, ds') = createDefenseAction Block ''IP is quarantined'' High (conn_id i p) now ds
         in ((False, Some a), ds'))
      else
        (let ds1 = getOrCreateConnectionState i p now ds;
             (v, ds2) = runDefenseChecks (conn_id i p) seq ack win flgs mock_signature now ds1
         in if fst v then
              ((v, put_state (conn_id i p)
                     (updateConnectionState (the_state ds2 (conn_id i p)) seq ack win) ds2))
            else (v, ds2)))"

definition markConnectionSuspicious :: "string \<Rightarrow> int \<Rightarrow> string \<Rightarrow> int \<Rightarrow> DefenseSystem \<Rightarrow> DefenseSystem" where
  "markConnectionSuspicious i p rsn now ds =
     (let ds1 = getOrCreateConnectionState i p now ds;
          s = the_state ds1 (conn_id i p);
          ds2 = put_state (conn_id i p)
                  (s\<lparr>suspicious := True, anomalyScore := min 1 (anomalyScore s + 1 / 2)\<rparr>) ds1;
          (a, ds3) = createDefenseAction Alert (''Connection marked suspicious: '' @ rsn) Medium
                       (conn_id i p) now ds2
      in ds3\<lparr>emitted := emitted ds3 @ [a]\<rparr>)"

text \<open>One call of a run: port, seq, ack, window size, flags and the clock.\<close>

record Call =
  c_port :: int
  c_seq :: int
  c_ack :: int
  c_window :: int
  c_flags :: "string list"
  c_now :: int

fun validateAll :: "string \<Rightarrow> Call list \<Rightarrow> DefenseSystem \<Rightarrow> verdict list \<times> DefenseSystem" where
  "validateAll i [] ds = ([], ds)"
| "validateAll i (c # cs) ds =
     (case validateConnection i (c_port c) (c_seq c) (c_ack c) (c_window c) (c_flags c) (c_now c) ds of
        (v, ds') \<Rightarrow> (case validateAll i cs ds' of (vs, ds'') \<Rightarrow> (v # vs, ds'')))"

definition is_quarantine_block :: "string \<Rightarrow> Call \<Rightarrow> verdict \<Rightarrow> bool" where
  "is_quarantine_block i c v =
     (v = (False, Some \<lparr>actionType = Block, reason = ''IP is quarantined'', severity = High,
                         actionTimestamp = c_now c, connectionId = conn_id i (c_port c)\<rparr>))"

section \<open>String operations of the runtime\<close>

definition newline :: char where
  "newline = CHR 0x0A"

text \<open>The white space of \<open>String.prototype.trim\<close> and \<open>parseInt\<close>, among code units below 256.\<close>

definition is_ws :: "char \<Rightarrow> bool" where
  "is_ws c = (c \<in> set [CHR 0x09, CHR 0x0A, CHR 0x0B, CHR 0x0C, CHR 0x0D, CHR 0x20, CHR 0xA0])"

definition trim :: "string \<Rightarrow> string" where
  "trim s = rev (dropWhile is_ws (rev (dropWhile is_ws s)))"

definition startsWith :: "string \<Rightarrow> string \<Rightarrow> bool" where
  "startsWith s pre = (take (length pre) s = pre)"

definition endsWith :: "string \<Rightarrow> string \<Rightarrow> bool" where
  "endsWith s suf = (length suf \<le> length s \<and> drop (length s - length suf) s = suf)"

fun includes_str :: "string \<Rightarrow> string \<Rightarrow> bool" where
  "includes_str [] sub = (sub = [])"
| "includes_str (x # xs) sub = (startsWith (x # xs) sub \<or> includes_str xs sub)"

text \<open>\<open>s.split(c)\<close> for a one-character separator: never empty, \<open>''.split(c) = ['']\<close>.\<close>

fun split_on :: "char \<Rightarrow> string \<Rightarrow> string list" where
  "split_on c [] = [[]]"
| "split_on c (x # xs) =
     (if x = c then [] # split_on c xs
      else (case split_on c xs of [] \<Rightarrow> [[x]] | l # ls \<Rightarrow> (x # l) # ls))"

text \<open>\<open>s.replace(/pat/, "")\<close> for a literal pattern: the first occurrence is removed.\<close>

fun remove_first :: "string \<Rightarrow> string \<Rightarrow> string" where
  "remove_first pat [] = []"
| "remove_first pat (x # xs) =
     (if startsWith (x # xs) pat then drop (length pat) (x # xs) else x # remove_first pat xs)"

section \<open>Connection analyzer\<close>

datatype ConnType = FileDownload | StreamRequest | Websocket

definition conn_type_name :: "ConnType \<Rightarrow> string" where
  "conn_type_name t =
     (case t of FileDownload \<Rightarrow> ''file_download'' | StreamRequest \<Rightarrow> ''stream_request''
      | Websocket \<Rightarrow> ''websocket'')"

record ConnectionData =
  cd_ip :: string
  cd_timestamp :: int
  cd_type :: ConnType
  resource :: "string option"
  userAgent :: "string option"
  bytesTransferred :: "int option"
  duration :: "int option"

datatype ActivityType = RapidRequests | LargeDownload | UnusualPattern

record SuspiciousActivity =
  sa_ip :: string
  sa_type :: ActivityType
  sa_timestamp :: int
  details :: string
  sa_severity :: Severity

text \<open>
  \<open>connections\<close> is a JavaScript \<open>Map\<close> walked in insertion order, so an association
  list; \<open>suspiciousActivity\<close> is \<open>metrics.suspiciousActivity\<close>. The other fields of
  \<open>metrics\<close> are recomputed from \<open>connections\<close> and \<open>activeConnections\<close> by \<open>updateMetrics\<close>
  and are kept as the functions below rather than stored.
\<close>

record ConnectionAnalyzer =
  connections :: "(string \<times> ConnectionData list) list"
  activeConnections :: "string set"
  suspiciousActivity :: "SuspiciousActivity list"

definition new_ConnectionAnalyzer :: ConnectionAnalyzer where
  "new_ConnectionAnalyzer = \<lparr>connections = [], activeConnections = {}, suspiciousActivity = []\<rparr>"

definition totalConnections :: "ConnectionAnalyzer \<Rightarrow> nat" where
  "totalConnections st = length (concat (map snd (connections st)))"

definition totalBytesTransferred :: "ConnectionAnalyzer \<Rightarrow> int" where
  "totalBytesTransferred st =
     sum_list (map (\<lambda>c. case bytesTransferred c of None \<Rightarrow> 0 | Some b \<Rightarrow> b)
                   (concat (map snd (connections st))))"

text \<open>
  \<open>generateConnectionId\<close>: with a connection, \<open>ip_timestamp_type\<close>; without one,
  \<open>Date.now()\<close>, an underscore and up to nine base-36 digits of \<open>Math.random()\<close>, here the
  parameter \<open>rnd\<close>.
\<close>

definition generateConnectionId_of :: "ConnectionData \<Rightarrow> string" where
  "generateConnectionId_of c =
     cd_ip c @ ''_'' @ show_int (cd_timestamp c) @ ''_'' @ conn_type_name (cd_type c)"

definition generateConnectionId_fresh :: "int \<Rightarrow> string \<Rightarrow> string" where
  "generateConnectionId_fresh now rnd = show_int now @ ''_'' @ rnd"

definition flagSuspiciousActivity ::
  "string \<Rightarrow> ActivityType \<Rightarrow> string \<Rightarrow> Severity \<Rightarrow> int \<Rightarrow> ConnectionAnalyzer \<Rightarrow> ConnectionAnalyzer" where
  "flagSuspiciousActivity i ty det sev now st =
     (let log = suspiciousActivity st
                @ [\<lparr>sa_ip = i, sa_type = ty, sa_timestamp = now, details = det, sa_severity = sev\<rparr>]
      in st\<lparr>suspiciousActivity := (if length log > 100 then tl log else log)\<rparr>)"

definition checkSuspiciousActivity ::
  "string \<Rightarrow> ConnectionData \<Rightarrow> int \<Rightarrow> ConnectionAnalyzer \<Rightarrow> ConnectionAnalyzer" where
  "checkSuspiciousActivity i newConnection now st =
     (let ipConnections = (case map_of (connections st) i of None \<Rightarrow> [] | Some cs \<Rightarrow> cs);
          recentConnections = filter (\<lambda>c. now - cd_timestamp c < 60000) ipConnections;
          st1 = (if length recentConnections \<ge> 10 then
                   flagSuspiciousActivity i RapidRequests
                     (show_nat (length recentConnections) @ '' requests in the last minute'')
                     High now st
                 else st);
          typeCount = length (filter (\<lambda>c. cd_type c = cd_type newConnection) recentConnections)
      in if typeCount > 5 \<and> cd_type newConnection = FileDownload then
           flagSuspiciousActivity i UnusualPattern
             (''Repeated '' @ conn_type_name (cd_type newConnection) @ '' requests'') Medium now st1
         else st1)"

text \<open>Pushing onto the per-IP history; a new IP goes to the end of the iteration order.\<close>

fun push_connection ::
  "string \<Rightarrow> ConnectionData \<Rightarrow> (string \<times> ConnectionData list) list
     \<Rightarrow> (string \<times> ConnectionData list) list" where
  "push_connection i c [] = [(i, [c])]"
| "push_connection i c ((k, cs) # rest) =
     (if k = i then (k, (if length (cs @ [c]) > 1000 then tl (cs @ [c]) else cs @ [c])) # rest
      else (k, cs) # push_connection i c rest)"

definition logConnection ::
  "string \<Rightarrow> ConnType \<Rightarrow> string option \<Rightarrow> string option \<Rightarrow> int \<Rightarrow> string \<Rightarrow> ConnectionAnalyzer
     \<Rightarrow> string \<times> ConnectionAnalyzer" where
  "logConnection i ty res ua now rnd st =
     (let cid = generateConnectionId_fresh now rnd;
          cdata = \<lparr>cd_ip = i, cd_timestamp = now, cd_type = ty, resource = res,
                             userAgent = ua, bytesTransferred = Some 0, duration = None\<rparr>;
          st1 = st\<lparr>connections := push_connection i cdata (connections st),
                   activeConnections := insert cid (activeConnections st)\<rparr>
      in (cid, checkSuspiciousActivity i cdata now st1))"

text \<open>
  \<open>connections.find(c => generateConnectionId(c) === cid)\<close> with the update of
  the entry found: the first matching entry of the list is changed by \<open>f\<close>.
\<close>

fun update_first_match :: "string \<Rightarrow> (ConnectionData \<Rightarrow> ConnectionData) \<Rightarrow> ConnectionData list
     \<Rightarrow> ConnectionData list option" where
  "update_first_match cid f [] = None"
| "update_first_match cid f (c # cs) =
     (if generateConnectionId_of c = cid then Some (f c # cs)
      else map_option ((#) c) (update_first_match cid f cs))"

text \<open>The loop over the map entries, stopping at the first IP that has a match.\<close>

fun update_first_entry ::
  "string \<Rightarrow> (ConnectionData \<Rightarrow> ConnectionData) \<Rightarrow> (string \<times> ConnectionData list) list
     \<Rightarrow> (string \<times> (string \<times> ConnectionData list) list) option" where
  "update_first_entry cid f [] = None"
| "update_first_entry cid f ((k, cs) # rest) =
     (case update_first_match cid f cs of
        Some cs' \<Rightarrow> Some (k, (k, cs') # rest)
      | None \<Rightarrow> map_option (\<lambda>(i, rest'). (i, (k, cs) # rest')) (update_first_entry cid f rest))"

definition formatBytes_analyzer :: "int \<Rightarrow> string" where
  "formatBytes_analyzer bytes =
     (if bytes \<ge> 1024 * 1024 * 1024 then
        toFixed2 (double_quotient bytes (1024 * 1024 * 1024)) @ '' GB''
      else if bytes \<ge> 1024 * 1024 then toFixed2 (double_quotient bytes (1024 * 1024)) @ '' MB''
      else if bytes \<ge> 1024 then toFixed2 (double_quotient bytes 1024) @ '' KB''
      else show_int bytes @ '' B'')"

definition updateConnectionBytes :: "string \<Rightarrow> int \<Rightarrow> int \<Rightarrow> ConnectionAnalyzer \<Rightarrow> ConnectionAnalyzer" where
  "updateConnectionBytes cid bytes now st =
     (case update_first_entry cid (\<lambda>c. c\<lparr>bytesTransferred := Some bytes\<rparr>)
             (connections st) of
        None \<Rightarrow> st
      | Some (i, conns') \<Rightarrow>
          (let st1 = st\<lparr>connections := conns'\<rparr>
           in if bytes > 100 * 1024 * 1024 then
                flagSuspiciousActivity i LargeDownload
                  (''Large download detected: '' @ formatBytes_analyzer bytes) Medium now st1
              else st1))"

definition closeConnection :: "string \<Rightarrow> int \<Rightarrow> ConnectionAnalyzer \<Rightarrow> ConnectionAnalyzer" where
  "closeConnection cid now st =
     (let st1 = st\<lparr>activeConnections := activeConnections st - {cid}\<rparr>
      in case update_first_entry cid
                (\<lambda>c. c\<lparr>duration := Some (now - cd_timestamp c)\<rparr>) (connections st1) of
           None \<Rightarrow> st1
         | Some (i, conns') \<Rightarrow> st1\<lparr>connections := conns'\<rparr>)"

section \<open>Streaming server: playlists; orchestrator: playlist parsing\<close>

text \<open>
  \<open>generateHLSPlaylist\<close>. The stream directory is the parameter: \<open>None\<close> when it does not
  exist, otherwise the names \<open>readdirSync\<close> returns. \<open>sort()\<close> without a comparator orders
  strings by code units, which is the lexicographic order on \<open>char list\<close>.
\<close>

definition playlist_header :: string where
  "playlist_header =
     ''#EXTM3U'' @ [newline] @ ''#EXT-X-VERSION:3'' @ [newline]
     @ ''#EXT-X-TARGETDURATION:10'' @ [newline] @ ''#EXT-X-MEDIA-SEQUENCE:0'' @ [newline]"

definition segment_entry :: "string \<Rightarrow> string" where
  "segment_entry segment = ''#EXTINF:10.0,'' @ [newline] @ segment @ [newline]"

definition generateHLSPlaylist :: "string list option \<Rightarrow> string" where
  "generateHLSPlaylist dir =
     (case dir of
        None \<Rightarrow> playlist_header @ ''#EXT-X-ENDLIST''
      | Some files \<Rightarrow>
          (let segments = sort (filter (\<lambda>file. endsWith file ''.ts'') files)
           in playlist_header @ concat (map segment_entry segments) @ ''#EXT-X-ENDLIST''))"

definition parsePlaylist :: "string \<Rightarrow> string list" where
  "parsePlaylist playlist =
     map trim (filter (\<lambda>line. trim line \<noteq> [] \<and> \<not> startsWith line ''#'')
                      (split_on newline playlist))"

section \<open>Security middleware\<close>

subsection \<open>Numbers parsed from headers\<close>

text \<open>
  A number parsed from a header is a double without a fractional part: an integer that a
  double holds (\<open>Num\<close>), \<open>NaN\<close>, or an infinity. \<open>to_number\<close> is the conversion of a
  mathematical integer to the nearest double, ties to the even significand: with \<open>k\<close> the
  number of bits beyond 53, the doubles around \<open>n\<close> are the multiples of \<open>2^k\<close>. Up to
  2^53 every integer is kept; from \<open>2^1024 - 2^970\<close> on the result is infinite.
\<close>

datatype jsnum = Num int | NaN | PosInf | NegInf

fun halvings :: "nat \<Rightarrow> nat" where
  "halvings n = (if n < 2 ^ 53 then 0 else Suc (halvings (n div 2)))"

declare halvings.simps [simp del]

definition round_nat :: "nat \<Rightarrow> nat" where
  "round_nat n =
     (let q = 2 ^ halvings n; m = n div q; r = n mod q
      in if 2 * r < q then m * q
         else if q < 2 * r then (m + 1) * q
         else if even m then m * q else (m + 1) * q)"

definition to_number :: "int \<Rightarrow> jsnum" where
  "to_number i =
     (let m = round_nat (nat \<bar>i\<bar>)
      in if 2 ^ 1024 \<le> m then (if i < 0 then NegInf else PosInf)
         else Num (if i < 0 then - int m else int m))"

text \<open>
  Arithmetic and comparisons follow IEEE 754: a sum is the exact sum rounded, every sum
  or difference with \<open>NaN\<close> is \<open>NaN\<close>, as is the sum of the two infinities, and every
  comparison with \<open>NaN\<close> is false. The two zeros are not told apart: the program only
  compares them, prints them and tests them for truth, where they agree.
\<close>

fun num_neg :: "jsnum \<Rightarrow> jsnum" where
  "num_neg (Num x) = Num (- x)"
| "num_neg NaN = NaN"
| "num_neg PosInf = NegInf"
| "num_neg NegInf = PosInf"

fun num_add :: "jsnum \<Rightarrow> jsnum \<Rightarrow> jsnum" where
  "num_add (Num x) (Num y) = to_number (x + y)"
| "num_add NaN b = NaN"
| "num_add a NaN = NaN"
| "num_add PosInf NegInf = NaN"
| "num_add NegInf PosInf = NaN"
| "num_add PosInf b = PosInf"
| "num_add a PosInf = PosInf"
| "num_add NegInf b = NegInf"
| "num_add a NegInf = NegInf"

definition num_sub :: "jsnum \<Rightarrow> jsnum \<Rightarrow> jsnum" where
  "num_sub a b = num_add a (num_neg b)"

fun num_less :: "jsnum \<Rightarrow> jsnum \<Rightarrow> bool" where
  "num_less (Num x) (Num y) = (x < y)"
| "num_less NaN b = False"
| "num_less a NaN = False"
| "num_less a NegInf = False"
| "num_less PosInf b = False"
| "num_less NegInf b = True"
| "num_less a PosInf = True"

text \<open>
  A number in a template literal. The decimal digits are what the source prints for an
  integer below 10^21 in magnitude; from there on it prints an exponent, which is not
  modelled: no such number is part of a response (see \<open>handleRangeRequest\<close>).
\<close>

definition show_num :: "jsnum \<Rightarrow> string" where
  "show_num a =
     (case a of Num x \<Rightarrow> show_int x | NaN \<Rightarrow> ''NaN'' | PosInf \<Rightarrow> ''Infinity''
      | NegInf \<Rightarrow> ''-Infinity'')"

text \<open>Truthiness of a number or \<open>null\<close> (\<open>None\<close>): \<open>null\<close>, \<open>NaN\<close> and 0 are falsy.\<close>

definition truthy_num :: "jsnum option \<Rightarrow> bool" where
  "truthy_num a =
     (case a of Some (Num x) \<Rightarrow> x \<noteq> 0 | Some PosInf \<Rightarrow> True | Some NegInf \<Rightarrow> True
      | _ \<Rightarrow> False)"

text \<open>
  \<open>parseInt(s, 10)\<close>: leading white space is skipped, then an optional sign, then the
  longest run of decimal digits; without a digit the result is \<open>NaN\<close>, otherwise the
  double nearest to the integer the digits denote.
\<close>

definition is_digit :: "char \<Rightarrow> bool" where
  "is_digit c = (c \<in> set ''0123456789'')"

definition digit_val :: "char \<Rightarrow> nat" where
  "digit_val c = of_char c - 48"

definition digits_value :: "string \<Rightarrow> nat" where
  "digits_value ds = foldl (\<lambda>acc c. 10 * acc + digit_val c) 0 ds"

definition parseInt :: "string \<Rightarrow> jsnum" where
  "parseInt s =
     (let t = dropWhile is_ws s;
          neg = (t \<noteq> [] \<and> hd t = CHR ''-'');
          u = (if t \<noteq> [] \<and> (hd t = CHR ''-'' \<or> hd t = CHR ''+'') then tl t else t);
          ds = takeWhile is_digit u
      in if ds = [] then NaN
         else to_number (if neg then - int (digits_value ds) else int (digits_value ds)))"

text \<open>
  \<open>parseInt(s)\<close> without a radix: as above, except that after the sign a prefix \<open>0x\<close> or
  \<open>0X\<close> selects radix 16 for the digits that follow it.
\<close>

definition is_hex_digit :: "char \<Rightarrow> bool" where
  "is_hex_digit c = (c \<in> set ''0123456789abcdefABCDEF'')"

definition hex_digit_val :: "char \<Rightarrow> nat" where
  "hex_digit_val c =
     (if c \<in> set ''abcdef'' then of_char c - 87
      else if c \<in> set ''ABCDEF'' then of_char c - 55
      else of_char c - 48)"

definition hex_digits_value :: "string \<Rightarrow> nat" where
  "hex_digits_value ds = foldl (\<lambda>acc c. 16 * acc + hex_digit_val c) 0 ds"

definition parseInt_no_radix :: "string \<Rightarrow> jsnum" where
  "parseInt_no_radix s =
     (let t = dropWhile is_ws s;
          neg = (t \<noteq> [] \<and> hd t = CHR ''-'');
          u = (if t \<noteq> [] \<and> (hd t = CHR ''-'' \<or> hd t = CHR ''+'') then tl t else t);
          hex = (take 2 u = ''0x'' \<or> take 2 u = ''0X'');
          ds = (if hex then takeWhile is_hex_digit (drop 2 u) else takeWhile is_digit u);
          v = (if hex then hex_digits_value ds else digits_value ds)
      in if ds = [] then NaN else to_number (if neg then - int v else int v))"

subsection \<open>Requests\<close>

text \<open>
  An Express request: the header map (names in lower case), the socket's remote address,
  \<open>req.ip\<close> and the \<open>:filename\<close> route parameter.
\<close>

record Request =
  headers :: "string \<rightharpoonup> string"
  remoteAddress :: "string option"
  req_ip :: "string option"
  param_filename :: string

text \<open>\<open>req.headers[name] || ''\<close>, and the truthiness of \<open>req.headers[name]\<close>.\<close>

definition header_or_empty :: "Request \<Rightarrow> string \<Rightarrow> string" where
  "header_or_empty req name = (case headers req name of None \<Rightarrow> [] | Some v \<Rightarrow> v)"

definition header_truthy :: "Request \<Rightarrow> string \<Rightarrow> bool" where
  "header_truthy req name = (header_or_empty req name \<noteq> [])"

definition nonempty_opt :: "string option \<Rightarrow> string option" where
  "nonempty_opt v = (case v of Some x \<Rightarrow> (if x = [] then None else Some x) | None \<Rightarrow> None)"

definition getClientIP :: "Request \<Rightarrow> string" where
  "getClientIP req =
     (case nonempty_opt (map_option (\<lambda>v. hd (split_on CHR '','' v)) (headers req ''x-forwarded-for'')) of
        Some a \<Rightarrow> a
      | None \<Rightarrow>
          (case nonempty_opt (remoteAddress req) of
             Some a \<Rightarrow> a
           | None \<Rightarrow> (case nonempty_opt (req_ip req) of Some a \<Rightarrow> a | None \<Rightarrow> ''127.0.0.1'')))"

subsection \<open>The middleware object\<close>

text \<open>
  \<open>SecurityConfig\<close>: the request-level policy and, under \<open>sc_defense\<close>, the fields handed
  to the \<open>DefenseSystem\<close> constructor. \<open>customRules\<close> is never read by the code modelled
  here and is left out. The timers that release a blocklist entry after 30 minutes and
  decrement a connection count after 2 seconds are not modelled.
\<close>

record SecurityConfig =
  enableSecurityHeaders :: bool
  enableConnectionThrottling :: bool
  maxConnectionsPerIP :: int
  blocklistEnabled :: bool
  sc_defense :: DefenseConfig

record SecurityMiddleware =
  securityConfig :: SecurityConfig
  connectionCounts :: "string \<rightharpoonup> int"
  blocklist :: "string set"
  lastCleanup :: int
  defenseSystem :: DefenseSystem

definition default_SecurityConfig :: SecurityConfig where
  "default_SecurityConfig =
     \<lparr>enableSecurityHeaders = True, enableConnectionThrottling = False, maxConnectionsPerIP = 500,
      blocklistEnabled = True,
      sc_defense =
        \<lparr>ackValidationEnabled = True, rateLimitingEnabled = False, sequenceTrackingEnabled = False,
         adaptiveWindowEnabled = False, anomalyDetectionEnabled = True, quarantineEnabled = True,
         maxACKsPerSecond = 1000, maxWindowGrowthRate = 10, maxSequenceGap = 10485760,
         suspiciousPatternThreshold = 9 / 10, quarantineDuration = 300000\<rparr>\<rparr>"

definition new_SecurityMiddleware :: "SecurityConfig \<Rightarrow> int \<Rightarrow> SecurityMiddleware" where
  "new_SecurityMiddleware cfg now =
     \<lparr>securityConfig = cfg, connectionCounts = Map.empty, blocklist = {}, lastCleanup = now,
      defenseSystem = new_DefenseSystem (sc_defense cfg)\<rparr>"

text \<open>
  The listener installed by \<open>setupDefenseEventHandlers\<close>, and its delivery: after a call
  into the defense system, the listener runs on every action emitted during the call.
\<close>

definition on_defenseAction :: "DefenseAction \<Rightarrow> SecurityMiddleware \<Rightarrow> SecurityMiddleware" where
  "on_defenseAction action mw =
     (if actionType action = Quarantine \<and> severity action = Critical then
        mw\<lparr>blocklist := insert (hd (split_on CHR '':'' (connectionId action))) (blocklist mw)\<rparr>
      else mw)"

definition with_defense ::
  "(DefenseSystem \<Rightarrow> DefenseSystem) \<Rightarrow> SecurityMiddleware \<Rightarrow> SecurityMiddleware" where
  "with_defense f mw =
     (let ds' = f (defenseSystem mw);
          fired = drop (length (emitted (defenseSystem mw))) (emitted ds')
      in fold on_defenseAction fired (mw\<lparr>defenseSystem := ds'\<rparr>))"

definition isBlocked :: "SecurityMiddleware \<Rightarrow> string \<Rightarrow> bool" where
  "isBlocked mw a = (a \<in> blocklist mw)"

definition legitimateAgents :: "string list" where
  "legitimateAgents =
     [''Mozilla/'', ''Chrome/'', ''Safari/'', ''Firefox/'', ''Edge/'', ''Opera/'', ''curl/'',
      ''wget/'', ''Node.js'', ''axios/'', ''okhttp/'', ''Python-urllib'', ''java/'',
      ''Go-http-client'', ''libcurl'', ''Postman'', ''Insomnia'']"

definition isLegitimateClient :: "string \<Rightarrow> bool" where
  "isLegitimateClient ua =
     (if list_ex (includes_str ua) legitimateAgents then True
      else if ua = [] \<or> trim ua = [] then True
      else False)"

definition maliciousAgents :: "string list" where
  "maliciousAgents =
     [''OptimisticACK-Attack-Tool'', ''OptimisticACK-HLS-Client'', ''exploit-framework'',
      ''attack-simulator'']"

definition suspiciousHeaders :: "string list" where
  "suspiciousHeaders = [''x-attack-type'', ''x-exploit'', ''x-malicious'', ''x-optimistic-ack'']"

definition isRapidFireRequest :: "string \<Rightarrow> bool" where
  "isRapidFireRequest a = False"

text \<open>The parts of a Range header: \<open>range.replace(/bytes=/, "").split("-")\<close>.\<close>

definition range_parts :: "string \<Rightarrow> string list" where
  "range_parts rangeHeader = split_on CHR ''-'' (remove_first ''bytes='' rangeHeader)"

text \<open>\<open>parts[1]\<close> when it is a non-empty string.\<close>

definition second_part :: "string list \<Rightarrow> string option" where
  "second_part parts = (case parts of _ # p1 # _ \<Rightarrow> (if p1 = [] then None else Some p1) | _ \<Rightarrow> None)"

definition isAbnormalRangeRequest :: "string \<Rightarrow> bool" where
  "isAbnormalRangeRequest rangeHeader =
     (let parts = range_parts rangeHeader;
          start = parseInt (hd parts);
          end' = map_option parseInt (second_part parts)
      in if truthy_num end' \<and> num_less (Num (100 * 1024 * 1024)) (num_sub (the end') start) then True
         else if num_less start (Num 0) \<or> (truthy_num end' \<and> num_less (the end') start) then True
         else False)"

text \<open>
  \<open>detectExplicitAttack\<close>: \<open>None\<close> is the source's \<open>null\<close> (allow), \<open>Some reason\<close> a
  detection. The only state it changes is the defense system, through
  \<open>markConnectionSuspicious\<close>. The client port is \<open>parseInt(header) || 0\<close>, with no radix:
  a missing header reads as the string \<open>undefined\<close> and an empty one as itself, both
  \<open>NaN\<close> and so port 0. The port of a connection state is an integer; a forwarded port of
  more than 308 digits, which the source parses to an infinity and keeps as the port, is
  outside the model and is read as 0 here.
\<close>

definition detectExplicitAttack ::
  "Request \<Rightarrow> int \<Rightarrow> SecurityMiddleware \<Rightarrow> string option \<times> SecurityMiddleware" where
  "detectExplicitAttack req now mw =
     (let ua = header_or_empty req ''user-agent''
      in if isLegitimateClient ua then (None, mw)
         else if headers req ''x-simulate-attack'' = Some ''optimistic-ack'' then
           (Some ''Explicit optimistic ACK attack simulation detected'', mw)
         else
           (case find (includes_str ua) maliciousAgents of
              Some maliciousAgent \<Rightarrow>
                (let clientPort =
                       (case parseInt_no_radix (header_or_empty req ''x-forwarded-port'') of
                          Num n \<Rightarrow> n | _ \<Rightarrow> 0)
                 in (Some (''Malicious user agent detected: '' @ maliciousAgent),
                     with_defense (markConnectionSuspicious (getClientIP req) clientPort
                                     (''Malicious user agent: '' @ maliciousAgent) now) mw))
            | None \<Rightarrow>
                (case find (header_truthy req) suspiciousHeaders of
                   Some header \<Rightarrow> (Some (''Suspicious header detected: '' @ header), mw)
                 | None \<Rightarrow>
                     if isRapidFireRequest (getClientIP req) then
                       (Some ''Rapid-fire request pattern detected (potential ACK flood)'', mw)
                     else if header_truthy req ''range''
                             \<and> isAbnormalRangeRequest (header_or_empty req ''range'') then
                       (Some ''Abnormal Range request pattern detected'', mw)
                     else (None, mw))))"

definition checkConnectionLimit :: "string \<Rightarrow> SecurityMiddleware \<Rightarrow> bool \<times> SecurityMiddleware" where
  "checkConnectionLimit a mw =
     (let currentConnections = (case connectionCounts mw a of None \<Rightarrow> 0 | Some n \<Rightarrow> n);
          limit = (if a = ''127.0.0.1'' \<or> a = ''::1'' \<or> a = ''localhost''
                   then maxConnectionsPerIP (securityConfig mw) * 10
                   else maxConnectionsPerIP (securityConfig mw))
      in if currentConnections \<ge> limit then (False, mw)
         else (True, mw\<lparr>connectionCounts := (connectionCounts mw)(a \<mapsto> currentConnections + 1)\<rparr>))"

definition performPeriodicCleanup :: "int \<Rightarrow> SecurityMiddleware \<Rightarrow> SecurityMiddleware" where
  "performPeriodicCleanup now mw =
     (if now - lastCleanup mw > 300000 then
        mw\<lparr>connectionCounts := (\<lambda>k. case connectionCounts mw k of
                                       Some n \<Rightarrow> (if n \<le> 0 then None else Some n)
                                     | None \<Rightarrow> None),
           lastCleanup := now\<rparr>
      else mw)"

section \<open>Streaming server: downloads\<close>

text \<open>
  What the client gets: a security rejection (status and message), 404, the head of a 206
  response (Content-Range, Content-Length, and the \<open>start\<close> and \<open>end\<close> of the file stream
  piped into the body), the head of a 200 response (Content-Length), or nothing at all:
  \<open>HandlerThrew\<close> is a handler that threw after \<open>writeHead\<close>. Nothing in the server
  catches the exception and no error middleware is installed, so Express's final handler
  takes it; it finds the head already prepared, cannot send a status of its own and
  destroys the socket with nothing written to it.
\<close>

datatype Response =
    SecurityViolation int string
  | NotFound
  | PartialContent string jsnum jsnum jsnum
  | FullContent int
  | HandlerThrew

text \<open>A middleware either responds (\<open>Some\<close>) or calls \<open>next()\<close> (\<open>None\<close>).\<close>

definition createRequestFilter ::
  "Request \<Rightarrow> int \<Rightarrow> SecurityMiddleware \<Rightarrow> Response option \<times> SecurityMiddleware" where
  "createRequestFilter req now mw0 =
     (let clientIP = getClientIP req;
          mw = performPeriodicCleanup now mw0
      in if blocklistEnabled (securityConfig mw) \<and> isBlocked mw clientIP then
           (Some (SecurityViolation 403 ''Access denied: IP blocked due to previous attack''), mw)
         else if enableConnectionThrottling (securityConfig mw)
                 \<and> \<not> isLegitimateClient (header_or_empty req ''user-agent'') then
           (case checkConnectionLimit clientIP mw of
              (False, mw') \<Rightarrow>
                (Some (SecurityViolation 429 ''Too many simultaneous connections from this IP''), mw')
            | (True, mw') \<Rightarrow> (None, mw'))
         else (None, mw))"

definition createDownloadProtection ::
  "Request \<Rightarrow> int \<Rightarrow> SecurityMiddleware \<Rightarrow> Response option \<times> SecurityMiddleware" where
  "createDownloadProtection req now mw =
     (if blocklistEnabled (securityConfig mw) \<and> isBlocked mw (getClientIP req) then
        (Some (SecurityViolation 403 ''Access denied: IP blocked due to previous attack''), mw)
      else
        (case detectExplicitAttack req now mw of
           (Some rsn, mw') \<Rightarrow> (Some (SecurityViolation 403 (''Attack blocked: '' @ rsn)), mw')
         | (None, mw') \<Rightarrow> (None, mw')))"

text \<open>
  The argument check of Node's \<open>fs.createReadStream(path, {start, end})\<close>, which throws
  when it fails: \<open>start\<close> has to be an integer from 0 to \<open>Number.MAX_SAFE_INTEGER\<close>; \<open>end\<close>
  is either \<open>Infinity\<close> or such an integer too, and then not below \<open>start\<close>.
\<close>

definition max_safe_integer :: int where
  "max_safe_integer = 9007199254740991"

definition createReadStream_accepts :: "jsnum \<Rightarrow> jsnum \<Rightarrow> bool" where
  "createReadStream_accepts start end' =
     (case start of
        Num s \<Rightarrow>
          0 \<le> s \<and> s \<le> max_safe_integer
          \<and> (case end' of
                PosInf \<Rightarrow> True
              | Num e \<Rightarrow> 0 \<le> e \<and> e \<le> max_safe_integer \<and> s \<le> e
              | _ \<Rightarrow> False)
      | _ \<Rightarrow> False)"

text \<open>
  \<open>handleRangeRequest\<close>: the head is built from the parsed parts as they are and handed to
  \<open>writeHead\<close>, then the stream is created. When \<open>createReadStream\<close> throws, the head is
  never sent.
\<close>

definition handleRangeRequest :: "int \<Rightarrow> string \<Rightarrow> Response" where
  "handleRangeRequest fileSize rangeHdr =
     (let parts = range_parts rangeHdr;
          start = parseInt (hd parts);
          end' = (case second_part parts of Some p1 \<Rightarrow> parseInt p1 | None \<Rightarrow> Num (fileSize - 1));
          chunksize = num_add (num_sub end' start) (Num 1);
          head = PartialContent
                   (''bytes '' @ show_num start @ ''-'' @ show_num end' @ ''/'' @ show_int fileSize)
                   chunksize start end'
      in if createReadStream_accepts start end' then head else HandlerThrew)"

text \<open>
  \<open>handleFileDownload\<close>; the files directory is the parameter \<open>files\<close>, from a file name to
  its size.
\<close>

definition handleFileDownload ::
  "(string \<rightharpoonup> int) \<Rightarrow> Request \<Rightarrow> int \<Rightarrow> string \<Rightarrow> ConnectionAnalyzer
     \<Rightarrow> Response \<times> ConnectionAnalyzer" where
  "handleFileDownload files req now rnd an =
     (let an' = snd (logConnection (case nonempty_opt (req_ip req) of Some a \<Rightarrow> a | None \<Rightarrow> ''unknown'')
                       FileDownload (Some (param_filename req)) None now rnd an)
      in case files (param_filename req) of
           None \<Rightarrow> (NotFound, an')
         | Some fileSize \<Rightarrow>
             (if header_truthy req ''range''
              then (handleRangeRequest fileSize (header_or_empty req ''range''), an')
              else (FullContent fileSize, an')))"

record StreamingServer =
  securityMiddleware :: "SecurityMiddleware option"
  connectionAnalyzer :: ConnectionAnalyzer

text \<open>
  \<open>GET /download/:filename\<close>. With defense enabled the request passes the global request
  filter, then the download protection, then the handler; without it the handler is
  mounted alone.
\<close>

definition download_route ::
  "(string \<rightharpoonup> int) \<Rightarrow> Request \<Rightarrow> int \<Rightarrow> string \<Rightarrow> StreamingServer \<Rightarrow> Response \<times> StreamingServer" where
  "download_route files req now rnd srv =
     (case securityMiddleware srv of
        None \<Rightarrow>
          (case handleFileDownload files req now rnd (connectionAnalyzer srv) of
             (r, an') \<Rightarrow> (r, srv\<lparr>connectionAnalyzer := an'\<rparr>))
      | Some mw0 \<Rightarrow>
          (case createRequestFilter req now mw0 of
             (Some r, mw1) \<Rightarrow> (r, srv\<lparr>securityMiddleware := Some mw1\<rparr>)
           | (None, mw1) \<Rightarrow>
               (case createDownloadProtection req now mw1 of
                  (Some r, mw2) \<Rightarrow> (r, srv\<lparr>securityMiddleware := Some mw2\<rparr>)
                | (None, mw2) \<Rightarrow>
                    (case handleFileDownload files req now rnd (connectionAnalyzer srv) of
                       (r, an') \<Rightarrow>
                         (r, srv\<lparr>securityMiddleware := Some mw2, connectionAnalyzer := an'\<rparr>)))))"

text \<open>The medium defense mode of \<open>getDefenseConfig\<close>, the server's default.\<close>

definition medium_SecurityConfig :: SecurityConfig where
  "medium_SecurityConfig =
     \<lparr>enableSecurityHeaders = True, enableConnectionThrottling = True, maxConnectionsPerIP = 100,
      blocklistEnabled = True,
      sc_defense =
        \<lparr>ackValidationEnabled = True, rateLimitingEnabled = False, sequenceTrackingEnabled = False,
         adaptiveWindowEnabled = False, anomalyDetectionEnabled = True, quarantineEnabled = True,
         maxACKsPerSecond = 1000, maxWindowGrowthRate = 10, maxSequenceGap = 10485760,
         suspiciousPatternThreshold = 9 / 10, quarantineDuration = 600000\<rparr>\<rparr>"

definition new_StreamingServer :: "bool \<Rightarrow> int \<Rightarrow> StreamingServer" where
  "new_StreamingServer enableDefense now =
     \<lparr>securityMiddleware =
        (if enableDefense then Some (new_SecurityMiddleware medium_SecurityConfig now) else None),
      connectionAnalyzer = new_ConnectionAnalyzer\<rparr>"

text \<open>Concrete states and calls for the worked examples.\<close>

definition demo_state :: ConnectionState where
  "demo_state =
     \<lparr>ip = ''10.0.0.9'', port = 5000, expectedSeq = 0, expectedAck = 0, lastValidAck = 5000,
      connWindowSize = 0, ackCount = 0, lastACKTime = 0, suspicious = True,
      quarantined = False, quarantineUntil = 0, anomalyScore = 1 / 2\<rparr>"

definition demo_ds :: DefenseSystem where
  "demo_ds = put_state (conn_id ''10.0.0.9'' 5000) demo_state (new_DefenseSystem default_DefenseConfig)"

definition demo_signature :: AttackSignature where
  "demo_signature =
     \<lparr>rapidACKs = True, abnormalWindowGrowth = False, sequenceGaps = True,
      suspiciousPattern = False\<rparr>"

definition demo_call :: "int \<Rightarrow> int \<Rightarrow> Call" where
  "demo_call seq now =
     \<lparr>c_port = 5000, c_seq = seq, c_ack = 0, c_window = 1000, c_flags = [], c_now = now\<rparr>"

definition demo_ds4 :: DefenseSystem where
  "demo_ds4 = snd (validateAll ''10.0.0.9''
      [demo_call 1 0, demo_call 100000 1, demo_call 100000 2, demo_call 100000 3]
      (new_DefenseSystem default_DefenseConfig))"

definition demo_entry :: ConnectionData where
  "demo_entry =
     \<lparr>cd_ip = ''10.0.0.7'', cd_timestamp = 1000, cd_type = FileDownload,
      resource = Some ''xl.dat'', userAgent = None, bytesTransferred = Some 0, duration = None\<rparr>"

definition demo_logged :: "string \<times> ConnectionAnalyzer" where
  "demo_logged =
     logConnection ''10.0.0.7'' FileDownload (Some ''xl.dat'') None 1000 ''k3j9x2a1b''
       new_ConnectionAnalyzer"

definition good_segment_name :: "string \<Rightarrow> bool" where
  "good_segment_name f = (newline \<notin> set f \<and> \<not> startsWith f ''#'' \<and> trim f = f)"

definition demo_attack_headers :: "string \<Rightarrow> string \<rightharpoonup> string" where
  "demo_attack_headers ua =
     [''user-agent'' \<mapsto> ua, ''x-simulate-attack'' \<mapsto> ''optimistic-ack'',
      ''x-attack-type'' \<mapsto> ''optimistic-ack'', ''range'' \<mapsto> ''bytes=0-999999999999'']"

definition demo_request :: "string \<Rightarrow> Request" where
  "demo_request ua =
     \<lparr>headers = demo_attack_headers ua, remoteAddress = Some ''10.0.0.9'', req_ip = Some ''10.0.0.9'',
      param_filename = ''xl.dat''\<rparr>"

text \<open>A files directory with one file of 1000 bytes, and a browser's range request for it.\<close>

definition demo_files :: "string \<rightharpoonup> int" where
  "demo_files = [''xl.dat'' \<mapsto> 1000]"

definition demo_range_request :: "string \<Rightarrow> Request" where
  "demo_range_request rangeHdr =
     \<lparr>headers = [''user-agent'' \<mapsto> ''Mozilla/5.0 (X11; Linux x86_64)'', ''range'' \<mapsto> rangeHdr],
      remoteAddress = Some ''10.0.0.9'', req_ip = Some ''10.0.0.9'', param_filename = ''xl.dat''\<rparr>"

section \<open>Theorems\<close>

subsection \<open>C4: eager configuration validation\<close>

text \<open>
  C4 (as stated, refuted): a configuration whose \<open>windowScale\<close> is 5, outside [1,4], with
  every other field valid, is accepted: the constructor returns an attacker object.
\<close>

theorem C4_windowScale_not_checked:
  "new_attacker (demo_config 5) =
     Inr \<lparr>attackerConfig =
            (demo_config 5)\<lparr>transferUrl := Some ''http://127.0.0.1:3001/download/xl.dat''\<rparr>,
          isAttackActive = False, packetsPressed = 0, successfulAcks = 0,
          totalDataTransferred = 0, transferActive = False\<rparr>"
  by (simp add: new_attacker_def validateConfig_def demo_config_def fill_transfer_defaults_def
      falsy_str_def base_url_def show_int_def show_nat.simps digit_char_def)

text \<open>
  C4 (amended): construction raises on the first violation, in this order, among: empty
  host, port outside 1..65535, non-positive attackDuration, non-positive packetInterval,
  non-positive ackAdvanceSize; it succeeds exactly when none of the five is violated, and
  the value of \<open>windowScale\<close> never changes whether it succeeds.
\<close>

theorem C4_validation_order:
  "(targetHost c = [] \<longrightarrow> new_attacker c = Inl (ConfigError ''Target host is required''))
   \<and> (targetHost c \<noteq> [] \<and> (targetPort c < 1 \<or> 65535 < targetPort c) \<longrightarrow>
        new_attacker c = Inl (ConfigError ''Target port must be between 1 and 65535''))
   \<and> (targetHost c \<noteq> [] \<and> 1 \<le> targetPort c \<and> targetPort c \<le> 65535 \<and> attackDuration c \<le> 0 \<longrightarrow>
        new_attacker c = Inl (ConfigError ''Attack duration must be positive''))
   \<and> (targetHost c \<noteq> [] \<and> 1 \<le> targetPort c \<and> targetPort c \<le> 65535 \<and> 0 < attackDuration c
        \<and> packetInterval c \<le> 0 \<longrightarrow>
        new_attacker c = Inl (ConfigError ''Packet interval must be positive''))
   \<and> (targetHost c \<noteq> [] \<and> 1 \<le> targetPort c \<and> targetPort c \<le> 65535 \<and> 0 < attackDuration c
        \<and> 0 < packetInterval c \<and> ackAdvanceSize c \<le> 0 \<longrightarrow>
        new_attacker c = Inl (ConfigError ''ACK advance size must be positive''))
   \<and> ((\<exists>a. new_attacker c = Inr a) \<longleftrightarrow>
        targetHost c \<noteq> [] \<and> 1 \<le> targetPort c \<and> targetPort c \<le> 65535 \<and> 0 < attackDuration c
        \<and> 0 < packetInterval c \<and> 0 < ackAdvanceSize c)
   \<and> isl (new_attacker (c\<lparr>windowScale := w\<rparr>)) = isl (new_attacker c)"
  by (auto simp add: new_attacker_def validateConfig_def)

theorem C4_validation_order_witness:
  "new_attacker ((demo_config 2)\<lparr>targetPort := 70000\<rparr>)
     = Inl (ConfigError ''Target port must be between 1 and 65535'')
   \<and> new_attacker ((demo_config 2)\<lparr>targetHost := []\<rparr>) = Inl (ConfigError ''Target host is required'')
   \<and> new_attacker ((demo_config 2)\<lparr>attackDuration := 0\<rparr>)
     = Inl (ConfigError ''Attack duration must be positive'')
   \<and> new_attacker ((demo_config 2)\<lparr>packetInterval := - 1\<rparr>)
     = Inl (ConfigError ''Packet interval must be positive'')
   \<and> new_attacker ((demo_config 2)\<lparr>ackAdvanceSize := 0\<rparr>)
     = Inl (ConfigError ''ACK advance size must be positive'')
   \<and> (\<exists>a. new_attacker (demo_config 0) = Inr a)"
  using C4_validation_order [of "(demo_config 2)\<lparr>targetPort := 70000\<rparr>" 2]
    C4_validation_order [of "(demo_config 2)\<lparr>targetHost := []\<rparr>" 2]
    C4_validation_order [of "(demo_config 2)\<lparr>attackDuration := 0\<rparr>" 2]
    C4_validation_order [of "(demo_config 2)\<lparr>packetInterval := - 1\<rparr>" 2]
    C4_validation_order [of "(demo_config 2)\<lparr>ackAdvanceSize := 0\<rparr>" 2]
    C4_validation_order [of "demo_config 0" 2]
  by (simp add: demo_config_def)

subsection \<open>C7: the chunked downloader tiles the file\<close>

lemma n_chunks_done: "0 < C \<Longrightarrow> S \<le> cur \<Longrightarrow> n_chunks C S cur = 0"
proof -
  assume C: "0 < C" and le: "S \<le> cur"
  have "\<not> C \<le> S - cur + C - 1" using le by simp
  then have "\<not> 0 < (S - cur + C - 1) div C" using C by (simp add: pos_imp_zdiv_pos_iff)
  then show ?thesis by (simp add: n_chunks_def)
qed

lemma n_chunks_step: "0 < C \<Longrightarrow> cur < S \<Longrightarrow> n_chunks C S cur = Suc (n_chunks C S (cur + C))"
proof -
  assume C: "0 < C" and lt: "cur < S"
  define y where "y = S - cur - 1"
  have y0: "0 \<le> y" using lt by (simp add: y_def)
  have e1: "S - cur + C - 1 = y + C" by (simp add: y_def)
  have e2: "S - (cur + C) + C - 1 = y" by (simp add: y_def)
  have "(y + C) div C = y div C + 1" using C by simp
  moreover have "0 \<le> y div C" using y0 C by (simp add: pos_imp_zdiv_nonneg_iff)
  ultimately show ?thesis unfolding n_chunks_def e1 e2 by (simp add: nat_add_distrib)
qed

text \<open>When every request resolves, the loop issues the spans of this closed form.\<close>

lemma chunk_loop_closed:
  "\<forall>s e. fetch s e \<Longrightarrow> chunk_loop fetch a S cur =
     (map (\<lambda>i. (cur + int i * chunkSize_of a,
                 min (cur + int i * chunkSize_of a + chunkSize_of a - 1) (S - 1)))
        [0..<n_chunks (chunkSize_of a) S cur], True)"
proof (induction fetch a S cur rule: chunk_loop.induct)
  case (1 fetch a S cur)
  let ?C = "chunkSize_of a"
  let ?e = "min (cur + ?C - 1) (S - 1)"
  have Cpos: "0 < ?C" by (simp add: chunkSize_of_def)
  have f: "fetch cur ?e" using "1.prems" by blast
  show ?case
  proof (cases "cur < S")
    case False
    then show ?thesis using Cpos
      by (simp add: chunk_loop.simps [of fetch a S cur] n_chunks_done)
  next
    case lt: True
    note IH = "1.IH" [OF lt f "1.prems"]
    have step: "chunk_loop fetch a S cur = ((cur, ?e) # fst (chunk_loop fetch a S (?e + 1)),
        snd (chunk_loop fetch a S (?e + 1)))"
      using lt f by (simp add: chunk_loop.simps [of fetch a S cur] split: prod.split)
    show ?thesis
    proof (cases "cur + ?C < S")
      case True
      have e: "?e = cur + ?C - 1" using True by simp
      have e1: "?e + 1 = cur + ?C" using True by simp
      show ?thesis
        unfolding step IH unfolding e1 n_chunks_step [OF Cpos lt] e
        by (simp add: map_upt_Suc e del: upt_Suc) (simp add: algebra_simps)
    next
      case False
      have e: "?e = S - 1" using False by simp
      have e1: "?e + 1 = S" using False by simp
      have n0: "n_chunks ?C S S = 0" using Cpos by (simp add: n_chunks_done)
      have n1: "n_chunks ?C S cur = Suc 0"
        using n_chunks_step [OF Cpos lt] n_chunks_done [OF Cpos, of S "cur + ?C"] False
        by simp
      show ?thesis
        unfolding step IH unfolding e1 n1 by (simp add: e n0)
    qed
  qed
qed

lemma div_bounds:
  fixes S C :: int
  assumes "0 < C"
  shows "(S - 1) div C * C \<le> S - 1" and "S - 1 < ((S - 1) div C + 1) * C"
proof -
  have eq: "(S - 1) div C * C + (S - 1) mod C = S - 1" by (rule div_mult_mod_eq)
  have lo: "0 \<le> (S - 1) mod C" using assms by (rule pos_mod_sign)
  have hi: "(S - 1) mod C < C" using assms by (rule pos_mod_bound)
  show "(S - 1) div C * C \<le> S - 1" using eq lo by linarith
  have "((S - 1) div C + 1) * C = (S - 1) div C * C + C" by (simp add: algebra_simps)
  then show "S - 1 < ((S - 1) div C + 1) * C" using eq hi by linarith
qed

lemma ceil_div:
  fixes S C :: int
  assumes "0 < C"
  shows "\<lceil>(of_int S :: rat) / of_int C\<rceil> = (S - 1) div C + 1"
proof (rule ceiling_unique)
  let ?m = "(S - 1) div C"
  have Cr: "(0::rat) < of_int C" using assms by simp
  have "?m * C < S" using div_bounds(1) [OF assms, of S] by linarith
  then have "(of_int (?m * C) :: rat) < of_int S" by (simp only: of_int_less_iff)
  then have "(of_int ?m :: rat) * of_int C < of_int S" by simp
  then show "(of_int (?m + 1) :: rat) - 1 < of_int S / of_int C"
    using Cr by (simp add: pos_less_divide_eq)
  have "S \<le> (?m + 1) * C" using div_bounds(2) [OF assms, of S] by linarith
  then have "(of_int S :: rat) \<le> of_int ((?m + 1) * C)" by (simp only: of_int_le_iff)
  then have "(of_int S :: rat) \<le> of_int (?m + 1) * of_int C" by simp
  then show "(of_int S :: rat) / of_int C \<le> of_int (?m + 1)"
    using Cr by (simp add: pos_divide_le_eq)
qed

text \<open>
  C7: for a file of \<open>S > 0\<close> bytes and \<open>C = max(ackAdvanceSize, 65536)\<close>, when every range
  request resolves, the downloader runs to completion and issues exactly \<open>ceil(S / C)\<close>
  requests; the first span starts at 0, each next span starts one byte after the previous
  end, every span but the last has length \<open>C\<close>, and the last span ends at \<open>S - 1\<close>.
\<close>

theorem C7_chunk_tiling:
  assumes S: "0 < S" and ok: "\<forall>s e. fetch s e"
  shows "let C = max (ackAdvanceSize cfg) 65536;
             r = performChunkedDownload fetch cfg S;
             spans = fst r
         in snd r
          \<and> int (length spans) = \<lceil>(of_int S :: rat) / of_int C\<rceil>
          \<and> spans \<noteq> [] \<and> fst (hd spans) = 0 \<and> snd (last spans) = S - 1
          \<and> (\<forall>i. Suc i < length spans \<longrightarrow>
                 fst (spans ! Suc i) = snd (spans ! i) + 1
               \<and> snd (spans ! i) - fst (spans ! i) + 1 = C)
          \<and> (\<forall>p \<in> set spans. 0 \<le> fst p \<and> fst p \<le> snd p \<and> snd p - fst p + 1 \<le> C
                \<and> snd p \<le> S - 1)"
proof -
  define C where "C = chunkSize_of (ackAdvanceSize cfg)"
  define m where "m = (S - 1) div C"
  define f where "f = (\<lambda>i. (0 + int i * C, min (0 + int i * C + C - 1) (S - 1)))"
  have Cpos: "0 < C" by (simp add: C_def chunkSize_of_def)
  have Cmax: "max (ackAdvanceSize cfg) 65536 = C" by (simp add: C_def chunkSize_of_def)
  have m0: "0 \<le> m" using S Cpos by (simp add: m_def pos_imp_zdiv_nonneg_iff)
  have mlo: "m * C \<le> S - 1" unfolding m_def by (rule div_bounds(1) [OF Cpos])
  have mhi: "S - 1 < (m + 1) * C" unfolding m_def by (rule div_bounds(2) [OF Cpos])
  have "S - 0 + C - 1 = (S - 1) + C" by simp
  moreover have "((S - 1) + C) div C = (S - 1) div C + 1" using Cpos by (simp only: div_add_self2)
  ultimately have "(S - 0 + C - 1) div C = m + 1" by (simp only: m_def)
  then have n: "n_chunks C S 0 = Suc (nat m)"
    using m0 by (simp add: n_chunks_def nat_add_distrib)
  have cl: "performChunkedDownload fetch cfg S = (map f [0..<Suc (nat m)], True)"
    unfolding performChunkedDownload_def chunk_loop_closed [OF ok] f_def C_def [symmetric] n ..
  have fi: "f i = (int i * C, int i * C + C - 1)" if "i < nat m" for i
  proof -
    have "int i + 1 \<le> m" using that by linarith
    then have "(int i + 1) * C \<le> m * C" using Cpos by (simp only: mult_right_mono less_imp_le)
    then have "int i * C + C - 1 \<le> S - 1" using mlo by (simp add: algebra_simps)
    then show ?thesis by (simp add: f_def)
  qed
  have fm: "f (nat m) = (m * C, S - 1)"
    using mhi m0 by (simp add: f_def algebra_simps)
  have len: "int (length (map f [0..<Suc (nat m)])) = \<lceil>(of_int S :: rat) / of_int C\<rceil>"
    using m0 by (simp add: ceil_div [OF Cpos] m_def)
  have hd0: "fst (hd (map f [0..<Suc (nat m)])) = 0"
    by (simp add: upt_conv_Cons f_def del: upt_Suc)
  have last1: "snd (last (map f [0..<Suc (nat m)])) = S - 1"
    by (simp add: fm)
  have chain: "fst (map f [0..<Suc (nat m)] ! Suc i) = snd (map f [0..<Suc (nat m)] ! i) + 1
      \<and> snd (map f [0..<Suc (nat m)] ! i) - fst (map f [0..<Suc (nat m)] ! i) + 1 = C"
    if "Suc i < length (map f [0..<Suc (nat m)])" for i
  proof -
    have i: "i < nat m" using that by simp
    have "fst (f (Suc i)) = int i * C + C" by (simp add: f_def algebra_simps)
    then show ?thesis using that i
      by (simp add: nth_map_upt fi nth_append del: upt_Suc)
  qed
  have each: "0 \<le> fst p \<and> fst p \<le> snd p \<and> snd p - fst p + 1 \<le> C \<and> snd p \<le> S - 1"
    if "p \<in> set (map f [0..<Suc (nat m)])" for p
  proof -
    from that obtain i where i': "i < Suc (nat m)" and p: "p = f i"
      by (auto simp del: upt_Suc)
    have i: "i \<le> nat m" using i' by simp
    have "int i * C \<le> m * C" using i m0 Cpos by (simp add: mult_right_mono)
    then have "int i * C \<le> S - 1" using mlo by linarith
    moreover have "0 \<le> int i * C" using Cpos by simp
    ultimately show ?thesis using Cpos by (auto simp add: p f_def min_def)
  qed
  have ne: "map f [0..<Suc (nat m)] \<noteq> []" by simp
  show ?thesis
    unfolding Let_def Cmax cl fst_conv snd_conv
    using len ne hd0 last1 chain each by blast
qed

theorem C7_chunk_tiling_witness:
  "(0::int) < 200000 \<and> (\<forall>s e. (\<lambda>(_::int) (_::int). True) s e)
   \<and> snd (performChunkedDownload (\<lambda>_ _. True) (demo_config 2) 200000)
   \<and> length (fst (performChunkedDownload (\<lambda>_ _. True) (demo_config 2) 200000)) = 4
   \<and> snd (last (fst (performChunkedDownload (\<lambda>_ _. True) (demo_config 2) 200000))) = 199999"
proof -
  have a: "ackAdvanceSize (demo_config 2) = 8760" by (simp add: demo_config_def)
  have c: "\<lceil>(3125 :: rat) / 1024\<rceil> = 4" by (rule ceiling_unique) simp_all
  show ?thesis
    using C7_chunk_tiling [of 200000 "\<lambda>_ _. True" "demo_config 2"]
    unfolding Let_def a by (simp add: c)
qed

subsection \<open>C5: the sequence-gap signature bit\<close>

lemma slice_last_snoc_index:
  assumes "xs \<noteq> []"
  shows "slice_last 10 (xs @ [p]) ! (length (slice_last 10 (xs @ [p])) - 2) = last xs"
proof -
  let ?zs = "xs @ [p]"
  let ?l = "length ?zs"
  have l2: "2 \<le> ?l" using assms by (cases xs) simp_all
  have "slice_last 10 ?zs ! (length (slice_last 10 ?zs) - 2) = ?zs ! ((?l - 10) + (?l - (?l - 10) - 2))"
    unfolding slice_last_def by (simp only: length_drop nth_drop diff_le_self)
  also have "(?l - 10) + (?l - (?l - 10) - 2) = ?l - 2" using l2 by arith
  also have "?zs ! (?l - 2) = xs ! (length xs - 1)" using assms
    by (simp add: nth_append)
  also have "\<dots> = last xs" using assms by (simp add: last_conv_nth)
  finally show ?thesis .
qed

lemma slice_last_snoc_short:
  "(length (slice_last 10 (xs @ [p])) < 2) = (xs = [])"
  by (cases xs) (auto simp add: slice_last_def)

lemma detectSequenceGaps_snoc:
  assumes "trafficHistory st = pre @ [p]"
  shows "detectSequenceGaps st p =
     (filter (same_connection p) pre \<noteq> []
      \<and> \<bar>ackNumber p - ackNumber (last (filter (same_connection p) pre))\<bar> > 1000000)"
proof -
  have f: "filter (same_connection p) (trafficHistory st) = filter (same_connection p) pre @ [p]"
    by (simp add: assms same_connection_def)
  show ?thesis
    unfolding detectSequenceGaps_def f Let_def
    by (auto simp add: slice_last_snoc_short slice_last_snoc_index)
qed

lemma analyzePacket_history:
  "trafficHistory (snd (analyzePacket p now st)) =
     (if length (trafficHistory st) < 10000 then trafficHistory st
      else drop (length (trafficHistory st) - 4999) (trafficHistory st)) @ [p]"
  by (simp add: analyzePacket_def Let_def updateWindowSizeHistory_def updateACKFrequency_def
      slice_last_def Suc_diff_le)

text \<open>
  C5 (amended): the \<open>sequenceGaps\<close> bit returned for a packet is true exactly when the
  history on record after trimming holds an earlier packet of the same source IP and port
  and the absolute difference between the packet's ack number and the ack number of the
  latest such packet exceeds 1,000,000; it is false otherwise. As long as fewer than
  10,000 packets were on record before, nothing is trimmed and the earlier packets on
  record are all the packets fed before.
\<close>

theorem C5_sequence_gap_threshold:
  "sequenceGaps (fst (analyzePacket p now st)) =
     (let onRecord = butlast (trafficHistory (snd (analyzePacket p now st)));
          prior = filter (same_connection p) onRecord
      in prior \<noteq> [] \<and> \<bar>ackNumber p - ackNumber (last prior)\<bar> > 1000000)
   \<and> (length (trafficHistory st) < 10000 \<longrightarrow>
        butlast (trafficHistory (snd (analyzePacket p now st))) = trafficHistory st)"
proof -
  obtain pre where pre: "trafficHistory (snd (analyzePacket p now st)) = pre @ [p]"
    using analyzePacket_history by blast
  have "sequenceGaps (fst (analyzePacket p now st)) = detectSequenceGaps (snd (analyzePacket p now st)) p"
    by (simp add: analyzePacket_def Let_def detectAttackSignatures_def)
  then have A: "sequenceGaps (fst (analyzePacket p now st)) =
     (let onRecord = butlast (trafficHistory (snd (analyzePacket p now st)));
          prior = filter (same_connection p) onRecord
      in prior \<noteq> [] \<and> \<bar>ackNumber p - ackNumber (last prior)\<bar> > 1000000)"
    unfolding pre Let_def butlast_snoc using detectSequenceGaps_snoc [OF pre] by simp
  have B: "length (trafficHistory st) < 10000 \<longrightarrow>
        butlast (trafficHistory (snd (analyzePacket p now st))) = trafficHistory st"
    by (simp add: analyzePacket_history)
  show ?thesis using A B by (rule conjI)
qed


lemma demo_key: "connectionKey (mk_packet ''10.0.0.5'' 4000 a w) = ''10.0.0.5:4000''"
  by (simp add: connectionKey_def mk_packet_def show_int_def show_nat.simps digit_char_def)

lemma demo_first_packet:
  "snd (analyzePacket (mk_packet ''10.0.0.5'' 4000 0 1000) 0 new_TrafficAnalyzer) =
   \<lparr>trafficHistory = [mk_packet ''10.0.0.5'' 4000 0 1000],
    windowSizeHistory = [''10.0.0.5:4000'' \<mapsto> [1000]],
    ackFrequencyMap = [''10.0.0.5:4000'' \<mapsto> [0]]\<rparr>"
  by (simp add: analyzePacket_def Let_def updateWindowSizeHistory_def updateACKFrequency_def
      demo_key new_TrafficAnalyzer_def slice_last_def) (simp add: mk_packet_def)

lemma analyzePacket_sequenceGaps:
  "sequenceGaps (fst (analyzePacket p now st)) = detectSequenceGaps (snd (analyzePacket p now st)) p"
  by (simp add: analyzePacket_def Let_def detectAttackSignatures_def)

lemma demo_same: "same_connection (mk_packet ''10.0.0.5'' 4000 a w) (mk_packet ''10.0.0.5'' 4000 b v)"
  by (simp add: same_connection_def mk_packet_def)

lemma demo_ack: "ackNumber (mk_packet src sp a w) = a"
  by (simp add: mk_packet_def)

text \<open>
  C5 (as stated, refuted): two packets of one connection whose ack numbers differ by
  1,000,001, which is at most 1,048,576, set the bit.
\<close>

theorem C5_decimal_megabyte_counterexample:
  "sequenceGaps (fst (analyzePacket (mk_packet ''10.0.0.5'' 4000 1000001 1000) 0
      (snd (analyzePacket (mk_packet ''10.0.0.5'' 4000 0 1000) 0 new_TrafficAnalyzer))))
   \<and> \<bar>1000001 - 0\<bar> \<le> (1048576 :: int)"
proof -
  let ?q = "mk_packet ''10.0.0.5'' 4000 0 1000"
  let ?p = "mk_packet ''10.0.0.5'' 4000 1000001 1000"
  let ?st = "snd (analyzePacket ?q 0 new_TrafficAnalyzer)"
  have h: "trafficHistory ?st = [?q]" unfolding demo_first_packet by simp
  have h2: "trafficHistory (snd (analyzePacket ?p 0 ?st)) = [?q] @ [?p]"
    using analyzePacket_history [of ?p 0 ?st] unfolding h by simp
  have "sequenceGaps (fst (analyzePacket ?p 0 ?st))"
    unfolding analyzePacket_sequenceGaps detectSequenceGaps_snoc [OF h2]
    by (simp add: demo_same demo_ack)
  then show ?thesis by simp
qed

theorem C5_sequence_gap_threshold_witness:
  "length (trafficHistory (snd (analyzePacket (mk_packet ''10.0.0.5'' 4000 0 1000) 0 new_TrafficAnalyzer))) < 10000
   \<and> \<not> sequenceGaps (fst (analyzePacket (mk_packet ''10.0.0.5'' 4000 1000000 1000) 0
      (snd (analyzePacket (mk_packet ''10.0.0.5'' 4000 0 1000) 0 new_TrafficAnalyzer))))"
proof -
  let ?q = "mk_packet ''10.0.0.5'' 4000 0 1000"
  let ?p = "mk_packet ''10.0.0.5'' 4000 1000000 1000"
  let ?st = "snd (analyzePacket ?q 0 new_TrafficAnalyzer)"
  have h: "trafficHistory ?st = [?q]" unfolding demo_first_packet by simp
  have len: "length (trafficHistory ?st) < 10000" unfolding h by simp
  note main = C5_sequence_gap_threshold [of ?p 0 ?st]
  from main len have b: "butlast (trafficHistory (snd (analyzePacket ?p 0 ?st))) = [?q]"
    unfolding h by blast
  from main have "sequenceGaps (fst (analyzePacket ?p 0 ?st)) =
      (filter (same_connection ?p) [?q] \<noteq> []
       \<and> \<bar>ackNumber ?p - ackNumber (last (filter (same_connection ?p) [?q]))\<bar> > 1000000)"
    unfolding b Let_def by (rule conjunct1)
  then have "\<not> sequenceGaps (fst (analyzePacket ?p 0 ?st))"
    by (simp add: demo_same demo_ack)
  with len show ?thesis by (rule conjI)
qed


subsection \<open>C9: the window-growth signature bit\<close>

lemma growthCount5:
  "growthCount [a, b, c, d, e] = length (filter (grew [a, b, c, d, e]) [0..<4])"
proof -
  have u: "[0..<4] = [0, 1, 2, 3]" by (simp add: upt_conv_Cons)
  show ?thesis unfolding u by (simp add: grew_def)
qed

lemma slice_last5_length: "5 \<le> length h \<Longrightarrow> length (slice_last 5 h) = 5"
  by (simp add: slice_last_def)

lemma growthCount_slice:
  assumes "5 \<le> length h"
  shows "growthCount (slice_last 5 h) = length (filter (grew (slice_last 5 h)) [0..<4])"
proof -
  have "length (slice_last 5 h) = 5" using assms by (rule slice_last5_length)
  then obtain a b c d e where "slice_last 5 h = [a, b, c, d, e]"
    by (auto simp add: length_Suc_conv eval_nat_numeral)
  then show ?thesis by (simp only: growthCount5)
qed

lemma slice_last_drop:
  "5 \<le> n \<Longrightarrow> n \<le> length h \<Longrightarrow> slice_last 5 (drop (length h - n) h) = slice_last 5 h"
  by (simp add: slice_last_def)

text \<open>
  C9 (amended): the \<open>abnormalWindowGrowth\<close> bit returned for a packet is true exactly when
  the connection has at least 5 recorded window sizes (the packet's included) and, among
  the 4 steps between adjacent samples of the last 5, at least 3 (adjacent to each other
  or not) grew by more than 1.5 times.
\<close>

theorem C9_growth_count:
  "abnormalWindowGrowth (fst (analyzePacket p now st)) =
     (let h = (case windowSizeHistory st (connectionKey p) of None \<Rightarrow> [] | Some h \<Rightarrow> h)
              @ [windowSize p];
          r = slice_last 5 h
      in 5 \<le> length h \<and> 3 \<le> length (filter (grew r) [0..<4]))"
proof -
  define h where "h = (case windowSizeHistory st (connectionKey p) of None \<Rightarrow> [] | Some h \<Rightarrow> h)
              @ [windowSize p]"
  define h' where "h' = (if length h > 100 then drop (length h - 50) h else h)"
  have w: "windowSizeHistory (snd (analyzePacket p now st)) (connectionKey p) = Some h'"
    by (simp add: analyzePacket_def Let_def updateWindowSizeHistory_def updateACKFrequency_def
        h_def h'_def)
  have len: "(length h' < 5) = (length h < 5)" by (simp add: h'_def)
  have sl: "slice_last 5 h' = slice_last 5 h"
    by (simp add: h'_def slice_last_drop)
  have "abnormalWindowGrowth (fst (analyzePacket p now st)) =
        detectAbnormalWindowGrowth (snd (analyzePacket p now st)) (connectionKey p)"
    by (simp add: analyzePacket_def Let_def detectAttackSignatures_def)
  also have "\<dots> = (5 \<le> length h \<and> 3 \<le> growthCount (slice_last 5 h))"
    unfolding detectAbnormalWindowGrowth_def w using len sl by auto
  also have "\<dots> = (5 \<le> length h \<and> 3 \<le> length (filter (grew (slice_last 5 h)) [0..<4]))"
    using growthCount_slice by auto
  finally show ?thesis unfolding h_def Let_def .
qed


lemma analyzePacket_growth:
  "abnormalWindowGrowth (fst (analyzePacket p now st)) =
     detectAbnormalWindowGrowth (snd (analyzePacket p now st)) (connectionKey p)"
  by (simp add: analyzePacket_def Let_def detectAttackSignatures_def)

lemma analyzePacket_window_first:
  "windowSizeHistory st (connectionKey p) = None \<Longrightarrow>
   windowSizeHistory (snd (analyzePacket p now st)) (connectionKey p) = Some [windowSize p]"
  by (simp add: analyzePacket_def Let_def updateWindowSizeHistory_def updateACKFrequency_def)

lemma analyzePacket_window_next:
  "windowSizeHistory st (connectionKey p) = Some h \<Longrightarrow> length h < 100 \<Longrightarrow>
   windowSizeHistory (snd (analyzePacket p now st)) (connectionKey p) = Some (h @ [windowSize p])"
  by (simp add: analyzePacket_def Let_def updateWindowSizeHistory_def updateACKFrequency_def)

lemma analyzeAll_snd_Cons:
  "snd (analyzeAll ((p, now) # ps) st) = snd (analyzeAll ps (snd (analyzePacket p now st)))"
  by (simp split: prod.splits)

lemma demo_window: "windowSize (mk_packet src sp a w) = w"
  by (simp add: mk_packet_def)

theorem C9_growth_count_witness:
  "abnormalWindowGrowth (fst (analyzePacket (mk_packet ''10.0.0.5'' 4000 1 1600) 0
      (new_TrafficAnalyzer\<lparr>windowSizeHistory := [''10.0.0.5:4000'' \<mapsto> [100, 200, 400, 800]]\<rparr>)))
   \<and> \<not> abnormalWindowGrowth (fst (analyzePacket (mk_packet ''10.0.0.5'' 4000 1 1600) 0
      (new_TrafficAnalyzer\<lparr>windowSizeHistory := [''10.0.0.5:4000'' \<mapsto> [100, 200, 400]]\<rparr>)))"
proof -
  let ?p = "mk_packet ''10.0.0.5'' 4000 1 1600"
  let ?st = "new_TrafficAnalyzer\<lparr>windowSizeHistory := [''10.0.0.5:4000'' \<mapsto> [100, 200, 400, 800]]\<rparr>"
  let ?st' = "new_TrafficAnalyzer\<lparr>windowSizeHistory := [''10.0.0.5:4000'' \<mapsto> [100, 200, 400]]\<rparr>"
  have u: "[0..<4] = [0, 1, 2, 3]" by (simp add: upt_conv_Cons)
  have A: "abnormalWindowGrowth (fst (analyzePacket ?p 0 ?st))"
    unfolding C9_growth_count [of ?p 0 ?st] demo_key Let_def u
    by (simp add: demo_window slice_last_def grew_def)
  have B: "\<not> abnormalWindowGrowth (fst (analyzePacket ?p 0 ?st'))"
    unfolding C9_growth_count [of ?p 0 ?st'] demo_key Let_def
    by (simp add: demo_window)
  from A B show ?thesis by (rule conjI)
qed

text \<open>
  C9 (as stated, refuted): the window sizes 100, 200, 400, 400, 800 have growth steps
  1, 2 and 4 but not 3, so no three consecutive steps grew, and the bit is set.
\<close>

theorem C9_nonconsecutive_counterexample:
  "abnormalWindowGrowth (fst (analyzePacket (mk_packet ''10.0.0.5'' 4000 1 800) 0
      (snd (analyzeAll
        [(mk_packet ''10.0.0.5'' 4000 1 100, 0), (mk_packet ''10.0.0.5'' 4000 1 200, 0),
         (mk_packet ''10.0.0.5'' 4000 1 400, 0), (mk_packet ''10.0.0.5'' 4000 1 400, 0)]
        new_TrafficAnalyzer))))
   \<and> \<not> spec_three_consecutive_growth_steps [100, 200, 400, 400, 800]"
proof -
  let ?k = "''10.0.0.5:4000''"
  let ?pk = "mk_packet ''10.0.0.5'' 4000 1"
  let ?s1 = "snd (analyzePacket (?pk 100) 0 new_TrafficAnalyzer)"
  let ?s2 = "snd (analyzePacket (?pk 200) 0 ?s1)"
  let ?s3 = "snd (analyzePacket (?pk 400) 0 ?s2)"
  let ?s4 = "snd (analyzePacket (?pk 400) 0 ?s3)"
  let ?s5 = "snd (analyzePacket (?pk 800) 0 ?s4)"
  have w0: "windowSizeHistory new_TrafficAnalyzer (connectionKey (?pk 100)) = None"
    by (simp add: new_TrafficAnalyzer_def)
  have w1: "windowSizeHistory ?s1 ?k = Some [100]"
    using analyzePacket_window_first [OF w0, of 0] by (simp only: demo_key demo_window)
  have w2: "windowSizeHistory ?s2 ?k = Some [100, 200]"
    using analyzePacket_window_next [of ?s1 "?pk 200" "[100]" 0] w1
    by (simp add: demo_key demo_window)
  have w3: "windowSizeHistory ?s3 ?k = Some [100, 200, 400]"
    using analyzePacket_window_next [of ?s2 "?pk 400" "[100, 200]" 0] w2
    by (simp add: demo_key demo_window)
  have w4: "windowSizeHistory ?s4 ?k = Some [100, 200, 400, 400]"
    using analyzePacket_window_next [of ?s3 "?pk 400" "[100, 200, 400]" 0] w3
    by (simp add: demo_key demo_window)
  have w5: "windowSizeHistory ?s5 ?k = Some [100, 200, 400, 400, 800]"
    using analyzePacket_window_next [of ?s4 "?pk 800" "[100, 200, 400, 400]" 0] w4
    by (simp add: demo_key demo_window)
  have run: "snd (analyzeAll [(?pk 100, 0), (?pk 200, 0), (?pk 400, 0), (?pk 400, 0)]
      new_TrafficAnalyzer) = ?s4"
    unfolding analyzeAll_snd_Cons by (simp only: analyzeAll.simps snd_conv)
  have bit: "abnormalWindowGrowth (fst (analyzePacket (?pk 800) 0 ?s4))"
    unfolding analyzePacket_growth demo_key detectAbnormalWindowGrowth_def w5
    by (simp add: slice_last_def)
  have u: "[0..<2] = [0, 1]" by (simp add: upt_conv_Cons)
  have "\<not> spec_three_consecutive_growth_steps [100, 200, 400, 400, 800]"
    by (simp add: spec_three_consecutive_growth_steps_def grew_def u)
  with bit show ?thesis unfolding run by (rule conjI)
qed



subsection \<open>C2 and C1: the defense system\<close>

lemma and_then_Some [simp]: "and_then (Some v, d) f = (Some v, d)"
  by (simp add: and_then_def)

lemma and_then_None [simp]: "and_then (None, d) f = f d"
  by (simp add: and_then_def)

lemma createDefenseAction_fst:
  "fst (createDefenseAction ty rsn sev cid now ds) =
     \<lparr>actionType = ty, reason = rsn, severity = sev, actionTimestamp = now, connectionId = cid\<rparr>"
  by (simp add: createDefenseAction_def Let_def)

lemma createDefenseAction_quarantined [simp]:
  "quarantinedIPs (snd (createDefenseAction ty rsn sev cid now ds)) = quarantinedIPs ds"
  by (simp add: createDefenseAction_def Let_def)

lemma createDefenseAction_states [simp]:
  "connectionStates (snd (createDefenseAction ty rsn sev cid now ds)) = connectionStates ds"
  by (simp add: createDefenseAction_def Let_def)

lemma createDefenseAction_config [simp]:
  "defenseConfig (snd (createDefenseAction ty rsn sev cid now ds)) = defenseConfig ds"
  by (simp add: createDefenseAction_def Let_def)

lemma reject_fst:
  "fst (reject cid inc ty rsn sev now ds) =
     Some (False, Some \<lparr>actionType = ty, reason = rsn, severity = sev, actionTimestamp = now,
        connectionId = conn_id (ip (the_state ds cid)) (port (the_state ds cid))\<rparr>)"
  by (simp add: reject_def Let_def split_def createDefenseAction_fst)

lemma reject_quarantined [simp]:
  "quarantinedIPs (snd (reject cid inc ty rsn sev now ds)) = quarantinedIPs ds"
  by (simp add: reject_def Let_def split_def put_state_def)

lemma reject_config [simp]:
  "defenseConfig (snd (reject cid inc ty rsn sev now ds)) = defenseConfig ds"
  by (simp add: reject_def Let_def split_def put_state_def)

lemma reject_states:
  "connectionStates (snd (reject cid inc ty rsn sev now ds)) =
     (connectionStates ds)(cid \<mapsto> updateAnomalyScore (the_state ds cid) inc)"
  by (simp add: reject_def Let_def split_def put_state_def)

lemma getOrCreate_existing:
  "connectionStates ds (conn_id i p) = Some s \<Longrightarrow> getOrCreateConnectionState i p now ds = ds"
  by (simp add: getOrCreateConnectionState_def)

lemma validateACKNumber_over:
  "validateACKNumber cfg s (lastValidAck s + 2 * maxSequenceGap cfg + 1) =
     (False, ''Highly suspicious ACK detected: advancing '' @ show_int (2 * maxSequenceGap cfg + 1)
             @ '' bytes beyond expected (threshold: '' @ show_int (2 * maxSequenceGap cfg) @ '')'')"
  by (simp add: validateACKNumber_def Let_def mult.commute)

lemma validateACKNumber_at:
  "0 \<le> maxSequenceGap cfg \<Longrightarrow>
   validateACKNumber cfg s (lastValidAck s + 2 * maxSequenceGap cfg) = (True, [])"
  by (simp add: validateACKNumber_def Let_def)

lemma validateACKNumber_regression:
  "0 \<le> maxSequenceGap cfg \<Longrightarrow> ack < lastValidAck s - 1024 \<Longrightarrow> 1024 < lastValidAck s \<Longrightarrow>
   validateACKNumber cfg s ack =
     (False, ''Significant ACK regression detected: '' @ show_int ack @ '' << ''
             @ show_int (lastValidAck s))"
  by (simp add: validateACKNumber_def Let_def)

lemma validateConnection_ack_rejected:
  assumes st: "connectionStates ds (conn_id i p) = Some s"
    and likely: "suspicious s \<or> anomalyScore s > 1 / 2"
    and en: "ackValidationEnabled (defenseConfig ds)"
    and flag: "''ACK'' \<in> set flgs"
    and nq: "\<not> isQuarantined ds i"
    and bad: "validateACKNumber (defenseConfig ds) s ack = (False, rsn)"
  shows "fst (validateConnection i p seq ack win flgs now ds) =
     (False, Some \<lparr>actionType = RejectPacket, reason = rsn, severity = High,
                   actionTimestamp = now, connectionId = conn_id (ip s) (port s)\<rparr>)"
proof -
  have ts: "the_state ds (conn_id i p) = s" by (simp add: the_state_def st)
  have chk: "ackValidationCheck (conn_id i p) ack flgs now ds =
      reject (conn_id i p) (3 / 10) RejectPacket rsn High now ds"
    using likely en flag bad by (simp add: ackValidationCheck_def Let_def ts)
  obtain v ds' where r: "reject (conn_id i p) (3 / 10) RejectPacket rsn High now ds = (Some v, ds')"
    and v: "v = (False, Some \<lparr>actionType = RejectPacket, reason = rsn, severity = High,
                   actionTimestamp = now, connectionId = conn_id (ip s) (port s)\<rparr>)"
    using reject_fst [of "conn_id i p" "3 / 10" RejectPacket rsn High now ds]
    by (cases "reject (conn_id i p) (3 / 10) RejectPacket rsn High now ds") (simp add: ts)
  have run: "runDefenseChecks (conn_id i p) seq ack win flgs mock_signature now ds = (v, ds')"
    by (simp add: runDefenseChecks_def chk r)
  show ?thesis
    using nq by (simp add: validateConnection_def getOrCreate_existing [OF st] run v Let_def)
qed

text \<open>
  C2: on a suspicious connection with ACK validation enabled, an ACK-flagged packet from
  an IP that is not quarantined, and \<open>G = maxSequenceGap\<close> (a byte count, so \<open>0 \<le> G\<close>):
  an ack of \<open>lastValidAck + 2G + 1\<close> is rejected by \<open>validateConnection\<close> with the reason
  "Highly suspicious ACK detected: ..."; an ack of \<open>lastValidAck + 2G\<close> passes the ACK
  validation check; an ack below \<open>lastValidAck - 1024\<close> while \<open>lastValidAck > 1024\<close> is
  rejected as an ACK regression.
\<close>

theorem C2_ack_validation_boundary:
  assumes st: "connectionStates ds (conn_id i p) = Some s"
    and susp: "suspicious s"
    and en: "ackValidationEnabled (defenseConfig ds)"
    and flag: "''ACK'' \<in> set flgs"
    and nq: "\<not> isQuarantined ds i"
    and G: "0 \<le> maxSequenceGap (defenseConfig ds)"
  shows "(let G = maxSequenceGap (defenseConfig ds) in
      fst (validateConnection i p seq (lastValidAck s + 2 * G + 1) win flgs now ds) =
        (False, Some \<lparr>actionType = RejectPacket,
           reason = ''Highly suspicious ACK detected: advancing '' @ show_int (2 * G + 1)
                    @ '' bytes beyond expected (threshold: '' @ show_int (2 * G) @ '')'',
           severity = High, actionTimestamp = now, connectionId = conn_id (ip s) (port s)\<rparr>)
    \<and> validateACKNumber (defenseConfig ds) s (lastValidAck s + 2 * G) = (True, [])
    \<and> ackValidationCheck (conn_id i p) (lastValidAck s + 2 * G) flgs now ds = (None, ds)
    \<and> (ack < lastValidAck s - 1024 \<and> lastValidAck s > 1024 \<longrightarrow>
        fst (validateConnection i p seq ack win flgs now ds) =
          (False, Some \<lparr>actionType = RejectPacket,
             reason = ''Significant ACK regression detected: '' @ show_int ack @ '' << ''
                      @ show_int (lastValidAck s),
             severity = High, actionTimestamp = now, connectionId = conn_id (ip s) (port s)\<rparr>)))"
proof -
  let ?G = "maxSequenceGap (defenseConfig ds)"
  have likely: "suspicious s \<or> anomalyScore s > 1 / 2" using susp by simp
  have a: "fst (validateConnection i p seq (lastValidAck s + 2 * ?G + 1) win flgs now ds) =
        (False, Some \<lparr>actionType = RejectPacket,
           reason = ''Highly suspicious ACK detected: advancing '' @ show_int (2 * ?G + 1)
                    @ '' bytes beyond expected (threshold: '' @ show_int (2 * ?G) @ '')'',
           severity = High, actionTimestamp = now, connectionId = conn_id (ip s) (port s)\<rparr>)"
    by (rule validateConnection_ack_rejected [OF st likely en flag nq validateACKNumber_over])
  have b: "validateACKNumber (defenseConfig ds) s (lastValidAck s + 2 * ?G) = (True, [])"
    by (rule validateACKNumber_at [OF G])
  have ts: "the_state ds (conn_id i p) = s" by (simp add: the_state_def st)
  have b': "ackValidationCheck (conn_id i p) (lastValidAck s + 2 * ?G) flgs now ds = (None, ds)"
    by (simp add: ackValidationCheck_def Let_def ts b)
  have c: "fst (validateConnection i p seq ack win flgs now ds) =
          (False, Some \<lparr>actionType = RejectPacket,
             reason = ''Significant ACK regression detected: '' @ show_int ack @ '' << ''
                      @ show_int (lastValidAck s),
             severity = High, actionTimestamp = now, connectionId = conn_id (ip s) (port s)\<rparr>)"
    if "ack < lastValidAck s - 1024" "lastValidAck s > 1024"
    by (rule validateConnection_ack_rejected [OF st likely en flag nq
          validateACKNumber_regression [OF G that]])
  show ?thesis unfolding Let_def using a b b' c by blast
qed

lemma demo_ds_state: "connectionStates demo_ds (conn_id ''10.0.0.9'' 5000) = Some demo_state"
  by (simp add: demo_ds_def put_state_def)

theorem C2_ack_validation_boundary_witness:
  "fst (validateConnection ''10.0.0.9'' 5000 1 2102153 1000 [''ACK''] 0 demo_ds) =
        (False, Some \<lparr>actionType = RejectPacket,
           reason = ''Highly suspicious ACK detected: advancing 2097153 bytes beyond expected (threshold: 2097152)'',
           severity = High, actionTimestamp = 0, connectionId = ''10.0.0.9:5000''\<rparr>)
   \<and> validateACKNumber (defenseConfig demo_ds) demo_state 2102152 = (True, [])
   \<and> fst (validateConnection ''10.0.0.9'' 5000 1 3000 1000 [''ACK''] 0 demo_ds) =
        (False, Some \<lparr>actionType = RejectPacket,
           reason = ''Significant ACK regression detected: 3000 << 5000'',
           severity = High, actionTimestamp = 0, connectionId = ''10.0.0.9:5000''\<rparr>)"
proof -
  have cfg: "defenseConfig demo_ds = default_DefenseConfig"
    by (simp add: demo_ds_def put_state_def new_DefenseSystem_def)
  have h1: "suspicious demo_state" by (simp add: demo_state_def)
  have h2: "ackValidationEnabled (defenseConfig demo_ds)" by (simp add: cfg default_DefenseConfig_def)
  have h3: "''ACK'' \<in> set [''ACK'']" by simp
  have h4: "\<not> isQuarantined demo_ds ''10.0.0.9''"
    by (simp add: isQuarantined_def demo_ds_def put_state_def new_DefenseSystem_def)
  have h5: "0 \<le> maxSequenceGap (defenseConfig demo_ds)" by (simp add: cfg default_DefenseConfig_def)
  have G: "maxSequenceGap (defenseConfig demo_ds) = 1048576" by (simp add: cfg default_DefenseConfig_def)
  have l: "lastValidAck demo_state = 5000" "ip demo_state = ''10.0.0.9''" "port demo_state = 5000"
    by (simp_all add: demo_state_def)
  have sh: "show_int 2097153 = ''2097153''" "show_int 2097152 = ''2097152''"
    "show_int 3000 = ''3000''" "show_int 5000 = ''5000''"
    by (simp_all add: show_int_def show_nat.simps digit_char_def)
  have cid: "conn_id ''10.0.0.9'' 5000 = ''10.0.0.9:5000''" by (simp add: conn_id_def sh)
  show ?thesis
    using C2_ack_validation_boundary [OF demo_ds_state h1 h2 h3 h4 h5,
        where ack = 3000 and seq = 1 and win = 1000 and now = 0]
    unfolding Let_def G l by (simp add: sh cid)
qed

lemma put_state_quarantined [simp]: "quarantinedIPs (put_state cid s ds) = quarantinedIPs ds"
  by (simp add: put_state_def)

lemma getOrCreate_quarantined [simp]:
  "quarantinedIPs (getOrCreateConnectionState i p now ds) = quarantinedIPs ds"
  by (simp add: getOrCreateConnectionState_def)

lemma ackValidationCheck_quarantined:
  "quarantinedIPs (snd (ackValidationCheck cid ack flgs now ds)) = quarantinedIPs ds"
  by (simp add: ackValidationCheck_def Let_def split: prod.splits bool.splits)

lemma rateLimitCheck_quarantined:
  "quarantinedIPs (snd (rateLimitCheck cid flgs now ds)) = quarantinedIPs ds"
  by (simp add: rateLimitCheck_def split: prod.splits bool.splits)

lemma sequenceCheck_quarantined:
  "quarantinedIPs (snd (sequenceCheck cid seq now ds)) = quarantinedIPs ds"
  by (simp add: sequenceCheck_def split: prod.splits bool.splits)

lemma windowCheck_quarantined:
  "quarantinedIPs (snd (windowCheck cid win now ds)) = quarantinedIPs ds"
  by (simp add: windowCheck_def split: prod.splits bool.splits)

lemma detectAnomalies_mock: "detectAnomalies mock_signature = (False, [])"
  by (simp add: detectAnomalies_def mock_signature_def)

lemma anomalyCheck_mock: "anomalyCheck cid mock_signature now ds = (None, ds)"
  by (simp add: anomalyCheck_def detectAnomalies_mock)

lemma and_then_quarantined:
  assumes "quarantinedIPs (snd r) = Q" and "\<And>d. quarantinedIPs (snd (f d)) = quarantinedIPs d"
  shows "quarantinedIPs (snd (and_then r f)) = Q"
  using assms by (cases r) (auto simp add: and_then_def split: option.splits)

lemma runDefenseChecks_mock_quarantined:
  "quarantinedIPs (snd (runDefenseChecks cid seq ack win flgs mock_signature now ds)) = quarantinedIPs ds"
proof -
  let ?r = "and_then (and_then (and_then (and_then
              (ackValidationCheck cid ack flgs now ds)
              (rateLimitCheck cid flgs now))
              (sequenceCheck cid seq now))
              (windowCheck cid win now))
              (anomalyCheck cid mock_signature now)"
  have "quarantinedIPs (snd ?r) = quarantinedIPs ds"
    by (intro and_then_quarantined ackValidationCheck_quarantined rateLimitCheck_quarantined
        sequenceCheck_quarantined windowCheck_quarantined) (simp add: anomalyCheck_mock)
  then show ?thesis
    by (cases ?r) (auto simp add: runDefenseChecks_def split: option.splits)
qed

lemma validateConnection_quarantined:
  "quarantinedIPs (snd (validateConnection i p seq ack win flgs now ds)) = quarantinedIPs ds"
proof (cases "isQuarantined ds i")
  case True
  then show ?thesis by (simp add: validateConnection_def split_def Let_def)
next
  case False
  have "quarantinedIPs (snd (runDefenseChecks (conn_id i p) seq ack win flgs mock_signature now
          (getOrCreateConnectionState i p now ds))) = quarantinedIPs ds"
    by (simp add: runDefenseChecks_mock_quarantined)
  then show ?thesis using False
    by (simp add: validateConnection_def Let_def split_def)
qed

lemma validateConnection_blocked:
  "i \<in> quarantinedIPs ds \<Longrightarrow>
   fst (validateConnection i p seq ack win flgs now ds) =
     (False, Some \<lparr>actionType = Block, reason = ''IP is quarantined'', severity = High,
                   actionTimestamp = now, connectionId = conn_id i p\<rparr>)"
  by (simp add: validateConnection_def isQuarantined_def split_def createDefenseAction_fst)

lemma validateAll_blocked:
  "i \<in> quarantinedIPs ds \<Longrightarrow>
   list_all2 (is_quarantine_block i) cs (fst (validateAll i cs ds))
   \<and> quarantinedIPs (snd (validateAll i cs ds)) = quarantinedIPs ds"
proof (induction cs arbitrary: ds)
  case Nil
  then show ?case by simp
next
  case (Cons c cs)
  let ?r = "validateConnection i (c_port c) (c_seq c) (c_ack c) (c_window c) (c_flags c) (c_now c) ds"
  have q: "quarantinedIPs (snd ?r) = quarantinedIPs ds" by (rule validateConnection_quarantined)
  then have "i \<in> quarantinedIPs (snd ?r)" using Cons.prems by simp
  from Cons.IH [OF this] q validateConnection_blocked [OF Cons.prems]
  show ?case by (simp add: split_def is_quarantine_block_def)
qed

lemma validateAll_quarantined:
  "quarantinedIPs (snd (validateAll i cs ds)) = quarantinedIPs ds"
  by (induction cs arbitrary: ds) (simp_all add: split_def validateConnection_quarantined)

lemma updateAnomalyScore_fields:
  "anomalyScore (updateAnomalyScore s inc) = min 1 (anomalyScore s + inc)"
  "ip (updateAnomalyScore s inc) = ip s"
  "port (updateAnomalyScore s inc) = port s"
  "expectedSeq (updateAnomalyScore s inc) = expectedSeq s"
  by (simp_all add: updateAnomalyScore_def Let_def)

lemma anomalyCheck_quarantines:
  assumes st: "connectionStates ds cid = Some s"
    and en: "anomalyDetectionEnabled (defenseConfig ds)"
    and qe: "quarantineEnabled (defenseConfig ds)"
    and an: "detectAnomalies sig = (True, rsn)"
    and thr: "suspiciousPatternThreshold (defenseConfig ds) \<le> min 1 (anomalyScore s + 2 / 5)"
  shows "fst (anomalyCheck cid sig now ds) =
      Some (False, Some \<lparr>actionType = Quarantine, reason = rsn, severity = Critical,
                          actionTimestamp = now, connectionId = conn_id (ip s) (port s)\<rparr>)
    \<and> ip s \<in> quarantinedIPs (snd (anomalyCheck cid sig now ds))"
proof -
  have ts: "the_state ds cid = s" by (simp add: the_state_def st)
  show ?thesis
    using en qe thr
    by (simp add: anomalyCheck_def an ts updateAnomalyScore_fields Let_def split_def
        createDefenseAction_fst quarantineIP_def put_state_def)
qed

lemma detectAnomalies_iff:
  "fst (detectAnomalies sig) =
     (2 \<le> length (filter id [rapidACKs sig, abnormalWindowGrowth sig, sequenceGaps sig,
                              suspiciousPattern sig]))"
  by (simp add: detectAnomalies_def Let_def)

text \<open>
  C1 (amended): \<open>validateConnection\<close> runs the anomaly check on a hard-coded all-false
  signature, so no sequence of \<open>validateConnection\<close> calls changes the quarantine set,
  whatever the anomaly score. While an IP is in the quarantine set, every
  \<open>validateConnection\<close> call from it is rejected with a block action of reason
  "IP is quarantined", whatever the port, seq, ack, window size and flags. The IP enters
  the set when the anomaly check of \<open>runDefenseChecks\<close> is given a signature with at least
  two indicators, with anomaly detection and quarantine enabled, and the increment of 0.4
  brings the score to the threshold or above.
\<close>

theorem C1_quarantine_transition:
  "quarantinedIPs (snd (validateAll i cs ds)) = quarantinedIPs ds
   \<and> (i \<in> quarantinedIPs ds \<longrightarrow> list_all2 (is_quarantine_block i) cs (fst (validateAll i cs ds)))
   \<and> (connectionStates ds cid = Some s
        \<and> anomalyDetectionEnabled (defenseConfig ds) \<and> quarantineEnabled (defenseConfig ds)
        \<and> 2 \<le> length (filter id [rapidACKs sig, abnormalWindowGrowth sig, sequenceGaps sig,
                                  suspiciousPattern sig])
        \<and> suspiciousPatternThreshold (defenseConfig ds) \<le> min 1 (anomalyScore s + 2 / 5)
      \<longrightarrow> fst (anomalyCheck cid sig now ds) =
            Some (False, Some \<lparr>actionType = Quarantine, reason = snd (detectAnomalies sig),
                                severity = Critical, actionTimestamp = now,
                                connectionId = conn_id (ip s) (port s)\<rparr>)
          \<and> ip s \<in> quarantinedIPs (snd (anomalyCheck cid sig now ds)))"
proof (intro conjI impI)
  show "quarantinedIPs (snd (validateAll i cs ds)) = quarantinedIPs ds"
    by (rule validateAll_quarantined)
next
  assume "i \<in> quarantinedIPs ds"
  then show "list_all2 (is_quarantine_block i) cs (fst (validateAll i cs ds))"
    using validateAll_blocked by blast
next
  assume a: "connectionStates ds cid = Some s
        \<and> anomalyDetectionEnabled (defenseConfig ds) \<and> quarantineEnabled (defenseConfig ds)
        \<and> 2 \<le> length (filter id [rapidACKs sig, abnormalWindowGrowth sig, sequenceGaps sig,
                                  suspiciousPattern sig])
        \<and> suspiciousPatternThreshold (defenseConfig ds) \<le> min 1 (anomalyScore s + 2 / 5)"
  then have "fst (detectAnomalies sig)" by (simp only: detectAnomalies_iff)
  then have an: "detectAnomalies sig = (True, snd (detectAnomalies sig))"
    by (cases "detectAnomalies sig") simp
  from a have st: "connectionStates ds cid = Some s"
    and en: "anomalyDetectionEnabled (defenseConfig ds)"
    and qe: "quarantineEnabled (defenseConfig ds)"
    and thr: "suspiciousPatternThreshold (defenseConfig ds) \<le> min 1 (anomalyScore s + 2 / 5)"
    by blast+
  note r = anomalyCheck_quarantines [OF st en qe an thr, of now]
  from r show "fst (anomalyCheck cid sig now ds) =
            Some (False, Some \<lparr>actionType = Quarantine, reason = snd (detectAnomalies sig),
                                severity = Critical, actionTimestamp = now,
                                connectionId = conn_id (ip s) (port s)\<rparr>)" by (rule conjunct1)
  from r show "ip s \<in> quarantinedIPs (snd (anomalyCheck cid sig now ds))" by (rule conjunct2)
qed

theorem C1_quarantine_transition_witness:
  "''10.0.0.9'' \<in> quarantinedIPs (snd (anomalyCheck (conn_id ''10.0.0.9'' 5000) demo_signature 0 demo_ds))
   \<and> list_all2 (is_quarantine_block ''10.0.0.9'') [demo_call 1 1, demo_call 100000 2]
        (fst (validateAll ''10.0.0.9'' [demo_call 1 1, demo_call 100000 2]
           (snd (anomalyCheck (conn_id ''10.0.0.9'' 5000) demo_signature 0 demo_ds))))"
proof -
  let ?cid = "conn_id ''10.0.0.9'' 5000"
  let ?dsq = "snd (anomalyCheck ?cid demo_signature 0 demo_ds)"
  have cfg: "defenseConfig demo_ds = default_DefenseConfig"
    by (simp add: demo_ds_def put_state_def new_DefenseSystem_def)
  have h: "connectionStates demo_ds ?cid = Some demo_state
        \<and> anomalyDetectionEnabled (defenseConfig demo_ds) \<and> quarantineEnabled (defenseConfig demo_ds)
        \<and> 2 \<le> length (filter id [rapidACKs demo_signature, abnormalWindowGrowth demo_signature,
                                  sequenceGaps demo_signature, suspiciousPattern demo_signature])
        \<and> suspiciousPatternThreshold (defenseConfig demo_ds) \<le> min 1 (anomalyScore demo_state + 2 / 5)"
    by (simp add: demo_ds_state cfg default_DefenseConfig_def demo_signature_def demo_state_def)
  have q: "''10.0.0.9'' \<in> quarantinedIPs ?dsq"
    using C1_quarantine_transition [of "''10.0.0.9''" "[]" demo_ds ?cid demo_state demo_signature 0] h
    by (simp add: demo_state_def)
  have "list_all2 (is_quarantine_block ''10.0.0.9'') [demo_call 1 1, demo_call 100000 2]
        (fst (validateAll ''10.0.0.9'' [demo_call 1 1, demo_call 100000 2] ?dsq))"
    using C1_quarantine_transition [of "''10.0.0.9''" "[demo_call 1 1, demo_call 100000 2]" ?dsq
        ?cid demo_state demo_signature 0] q
    by blast
  with q show ?thesis by (rule conjI)
qed

lemma put_state_config [simp]: "defenseConfig (put_state cid s ds) = defenseConfig ds"
  by (simp add: put_state_def)

lemma getOrCreate_config [simp]:
  "defenseConfig (getOrCreateConnectionState i p now ds) = defenseConfig ds"
  by (simp add: getOrCreateConnectionState_def)

lemma validateConnection_first_allowed:
  assumes none: "connectionStates ds (conn_id i p) = None"
    and nq: "\<not> isQuarantined ds i"
    and noack: "''ACK'' \<notin> set flgs"
  shows "connectionStates (snd (validateConnection i p seq ack win flgs now ds)) (conn_id i p)
           = Some (updateConnectionState (fresh_state i p now) seq ack win)
       \<and> defenseConfig (snd (validateConnection i p seq ack win flgs now ds)) = defenseConfig ds"
proof -
  let ?cid = "conn_id i p"
  let ?ds1 = "getOrCreateConnectionState i p now ds"
  have st1: "connectionStates ?ds1 ?cid = Some (fresh_state i p now)"
    using none by (simp add: getOrCreateConnectionState_def)
  have ts: "the_state ?ds1 ?cid = fresh_state i p now" by (simp add: the_state_def st1)
  have c1: "ackValidationCheck ?cid ack flgs now ?ds1 = (None, ?ds1)"
    using noack by (simp add: ackValidationCheck_def Let_def)
  have c2: "rateLimitCheck ?cid flgs now ?ds1 = (None, ?ds1)"
    using noack by (simp add: rateLimitCheck_def)
  have c3: "sequenceCheck ?cid seq now ?ds1 = (None, ?ds1)"
    by (simp add: sequenceCheck_def validateSequenceNumber_def ts fresh_state_def)
  have c4: "windowCheck ?cid win now ?ds1 = (None, ?ds1)"
    by (simp add: windowCheck_def validateWindowSize_def ts fresh_state_def)
  have run: "runDefenseChecks ?cid seq ack win flgs mock_signature now ?ds1 = ((True, None), ?ds1)"
    by (simp add: runDefenseChecks_def c1 c2 c3 c4 anomalyCheck_mock)
  show ?thesis
    using nq by (simp add: validateConnection_def Let_def run ts put_state_def)
qed

lemma validateConnection_seq_rejected:
  assumes st: "connectionStates ds (conn_id i p) = Some s"
    and nq: "\<not> isQuarantined ds i"
    and noack: "''ACK'' \<notin> set flgs"
    and en: "sequenceTrackingEnabled (defenseConfig ds)"
    and bad: "expectedSeq s > 0" "\<bar>seq - expectedSeq s\<bar> > 65536"
  shows "fst (validateConnection i p seq ack win flgs now ds) =
           (False, Some \<lparr>actionType = RejectPacket,
              reason = ''Sequence number deviation too large: ''
                       @ show_int \<bar>seq - expectedSeq s\<bar> @ '' bytes'',
              severity = Medium, actionTimestamp = now, connectionId = conn_id (ip s) (port s)\<rparr>)
       \<and> connectionStates (snd (validateConnection i p seq ack win flgs now ds)) (conn_id i p)
           = Some (updateAnomalyScore s (1 / 4))
       \<and> defenseConfig (snd (validateConnection i p seq ack win flgs now ds)) = defenseConfig ds"
proof -
  let ?cid = "conn_id i p"
  let ?rsn = "''Sequence number deviation too large: '' @ show_int \<bar>seq - expectedSeq s\<bar> @ '' bytes''"
  let ?rej = "reject ?cid (1 / 4) RejectPacket ?rsn Medium now ds"
  have ts: "the_state ds ?cid = s" by (simp add: the_state_def st)
  have c1: "ackValidationCheck ?cid ack flgs now ds = (None, ds)"
    using noack by (simp add: ackValidationCheck_def Let_def)
  have c2: "rateLimitCheck ?cid flgs now ds = (None, ds)"
    using noack by (simp add: rateLimitCheck_def)
  have c3: "sequenceCheck ?cid seq now ds = ?rej"
    using en bad by (simp add: sequenceCheck_def validateSequenceNumber_def ts)
  obtain v ds' where r: "?rej = (Some v, ds')"
    and v: "v = (False, Some \<lparr>actionType = RejectPacket, reason = ?rsn, severity = Medium,
                   actionTimestamp = now, connectionId = conn_id (ip s) (port s)\<rparr>)"
    using reject_fst [of ?cid "1 / 4" RejectPacket ?rsn Medium now ds]
    by (cases ?rej) (simp add: ts)
  have ds': "ds' = snd ?rej" unfolding r by simp
  have run: "runDefenseChecks ?cid seq ack win flgs mock_signature now ds = (v, ds')"
    by (simp only: runDefenseChecks_def c1 c2 c3 r and_then_None and_then_Some prod.case
        option.case)
  have res: "validateConnection i p seq ack win flgs now ds = (v, ds')"
    using nq by (simp add: validateConnection_def getOrCreate_existing [OF st] run v Let_def)
  have "connectionStates ds' ?cid = Some (updateAnomalyScore s (1 / 4))"
    unfolding ds' reject_states by (simp add: ts)
  moreover have "defenseConfig ds' = defenseConfig ds" unfolding ds' by simp
  ultimately show ?thesis by (simp add: res v)
qed

text \<open>
  C1 (as stated, refuted): with the default configuration (threshold 0.7), one accepted
  packet and three packets rejected for their sequence number (0.25 each) bring the score
  to 0.75; the IP is not in the quarantine set, and the next call is not rejected as
  quarantined.
\<close>

theorem C1_score_without_quarantine:
  "suspiciousPatternThreshold (defenseConfig demo_ds4)
     \<le> anomalyScore (the_state demo_ds4 (conn_id ''10.0.0.9'' 5000))
   \<and> ''10.0.0.9'' \<notin> quarantinedIPs demo_ds4
   \<and> fst (validateConnection ''10.0.0.9'' 5000 100000 0 1000 [] 4 demo_ds4) \<noteq>
       (False, Some \<lparr>actionType = Block, reason = ''IP is quarantined'', severity = High,
                     actionTimestamp = 4, connectionId = conn_id ''10.0.0.9'' 5000\<rparr>)"
proof -
  let ?i = "''10.0.0.9''"
  let ?cid = "conn_id ?i 5000"
  let ?ds0 = "new_DefenseSystem default_DefenseConfig"
  let ?ds1 = "snd (validateConnection ?i 5000 1 0 1000 [] 0 ?ds0)"
  let ?ds2 = "snd (validateConnection ?i 5000 100000 0 1000 [] 1 ?ds1)"
  let ?ds3 = "snd (validateConnection ?i 5000 100000 0 1000 [] 2 ?ds2)"
  let ?ds4 = "snd (validateConnection ?i 5000 100000 0 1000 [] 3 ?ds3)"
  let ?s1 = "updateConnectionState (fresh_state ?i 5000 0) 1 0 1000"
  let ?s2 = "updateAnomalyScore ?s1 (1 / 4)"
  let ?s3 = "updateAnomalyScore ?s2 (1 / 4)"
  let ?s4 = "updateAnomalyScore ?s3 (1 / 4)"
  have run: "demo_ds4 = ?ds4"
    by (simp add: demo_ds4_def demo_call_def split_def)
  have q: "quarantinedIPs ?ds0 = {}" by (simp add: new_DefenseSystem_def)
  have q1: "\<not> isQuarantined ?ds0 ?i" by (simp add: isQuarantined_def q)
  have q2: "\<not> isQuarantined ?ds1 ?i" by (simp add: isQuarantined_def validateConnection_quarantined q)
  have q3: "\<not> isQuarantined ?ds2 ?i" by (simp add: isQuarantined_def validateConnection_quarantined q)
  have q4: "\<not> isQuarantined ?ds3 ?i" by (simp add: isQuarantined_def validateConnection_quarantined q)
  have q5: "\<not> isQuarantined ?ds4 ?i" by (simp add: isQuarantined_def validateConnection_quarantined q)
  have cfg0: "defenseConfig ?ds0 = default_DefenseConfig" by (simp add: new_DefenseSystem_def)
  have en: "sequenceTrackingEnabled default_DefenseConfig" by (simp add: default_DefenseConfig_def)
  have thr: "suspiciousPatternThreshold default_DefenseConfig = 7 / 10"
    by (simp add: default_DefenseConfig_def)
  have e1: "expectedSeq ?s1 = 1" by (simp add: updateConnectionState_def)
  have bad: "0 < (1::int)" "\<bar>100000 - (1::int)\<bar> > 65536" by simp_all
  have none: "connectionStates ?ds0 ?cid = None" by (simp add: new_DefenseSystem_def)
  have noack: "''ACK'' \<notin> set []" by simp
  note a1 = validateConnection_first_allowed [OF none q1 noack, of 1 0 1000 0]
  have st1: "connectionStates ?ds1 ?cid = Some ?s1" and cfg1: "defenseConfig ?ds1 = default_DefenseConfig"
    using a1 cfg0 by simp_all
  note a2 = validateConnection_seq_rejected [OF st1 q2 noack, of 100000 0 1000 1]
  have st2: "connectionStates ?ds2 ?cid = Some ?s2" and cfg2: "defenseConfig ?ds2 = default_DefenseConfig"
    using a2 cfg1 en e1 by simp_all
  have e2: "expectedSeq ?s2 = 1" using e1 by (simp add: updateAnomalyScore_fields)
  note a3 = validateConnection_seq_rejected [OF st2 q3 noack, of 100000 0 1000 2]
  have st3: "connectionStates ?ds3 ?cid = Some ?s3" and cfg3: "defenseConfig ?ds3 = default_DefenseConfig"
    using a3 cfg2 en e2 by simp_all
  have e3: "expectedSeq ?s3 = 1" using e2 by (simp add: updateAnomalyScore_fields)
  note a4 = validateConnection_seq_rejected [OF st3 q4 noack, of 100000 0 1000 3]
  have st4: "connectionStates ?ds4 ?cid = Some ?s4" and cfg4: "defenseConfig ?ds4 = default_DefenseConfig"
    using a4 cfg3 en e3 by simp_all
  have e4: "expectedSeq ?s4 = 1" using e3 by (simp add: updateAnomalyScore_fields)
  note a5 = validateConnection_seq_rejected [OF st4 q5 noack, of 100000 0 1000 4]
  have score: "anomalyScore ?s4 = 3 / 4"
    by (simp add: updateAnomalyScore_fields updateConnectionState_def fresh_state_def)
  have A: "suspiciousPatternThreshold (defenseConfig ?ds4) \<le> anomalyScore (the_state ?ds4 ?cid)"
    by (simp add: cfg4 the_state_def st4 score thr)
  have B: "?i \<notin> quarantinedIPs ?ds4" using q5 by (simp add: isQuarantined_def)
  have C: "fst (validateConnection ?i 5000 100000 0 1000 [] 4 ?ds4) \<noteq>
       (False, Some \<lparr>actionType = Block, reason = ''IP is quarantined'', severity = High,
                     actionTimestamp = 4, connectionId = ?cid\<rparr>)"
    using a5 cfg4 en e4 by simp
  show ?thesis unfolding run using A B C by blast
qed


subsection \<open>C6: connection identifiers of the connection analyzer\<close>

lemma show_nat_no_underscore: "CHR ''_'' \<notin> set (show_nat n)"
proof (induction n rule: show_nat.induct)
  case (1 n)
  have d: "CHR ''_'' \<noteq> digit_char k" for k
  proof -
    have "k mod 10 < length ''0123456789''" by simp
    then have "digit_char k \<in> set ''0123456789''" unfolding digit_char_def by (rule nth_mem)
    then show ?thesis by auto
  qed
  show ?case
  proof (cases "n < 10")
    case True
    then show ?thesis using d by (simp add: show_nat.simps [of n])
  next
    case False
    then show ?thesis using d "1.IH" by (simp add: show_nat.simps [of n])
  qed
qed

lemma show_int_no_underscore: "CHR ''_'' \<notin> set (show_int k)"
  by (simp add: show_int_def show_nat_no_underscore)

lemma count_fresh_id:
  "CHR ''_'' \<notin> set rnd \<Longrightarrow> count_list (generateConnectionId_fresh now rnd) CHR ''_'' = 1"
  using show_int_no_underscore [of now]
  by (simp add: generateConnectionId_fresh_def count_list_0_iff)

lemma count_entry_id: "2 \<le> count_list (generateConnectionId_of c) CHR ''_''"
  by (simp add: generateConnectionId_of_def)

lemma fresh_id_differs:
  "CHR ''_'' \<notin> set rnd \<Longrightarrow> generateConnectionId_of c \<noteq> generateConnectionId_fresh now rnd"
  using count_fresh_id [of rnd now] count_entry_id [of c] by auto

lemma update_first_match_fresh:
  "CHR ''_'' \<notin> set rnd \<Longrightarrow> update_first_match (generateConnectionId_fresh now rnd) f cs = None"
  by (induction cs) (simp_all add: fresh_id_differs)

lemma update_first_entry_fresh:
  "CHR ''_'' \<notin> set rnd \<Longrightarrow> update_first_entry (generateConnectionId_fresh now rnd) f conns = None"
  by (induction conns) (auto simp add: update_first_match_fresh)

text \<open>
  Whatever the analyzer holds, an identifier of the form \<open>logConnection\<close> returns matches
  no entry: \<open>updateConnectionBytes\<close> changes nothing and \<open>closeConnection\<close> records no
  duration.
\<close>

lemma updateConnectionBytes_fresh_id:
  "CHR ''_'' \<notin> set rnd \<Longrightarrow>
   updateConnectionBytes (generateConnectionId_fresh now rnd) bytes t st = st"
  by (simp add: updateConnectionBytes_def update_first_entry_fresh)

lemma closeConnection_fresh_id:
  "CHR ''_'' \<notin> set rnd \<Longrightarrow>
   connections (closeConnection (generateConnectionId_fresh now rnd) t st) = connections st"
  by (simp add: closeConnection_def Let_def update_first_entry_fresh)

lemma logConnection_id:
  "fst (logConnection i ty res ua now rnd st) = generateConnectionId_fresh now rnd"
  by (simp add: logConnection_def Let_def)

lemma demo_logged_eval:
  "demo_logged = (''1000_k3j9x2a1b'',
      \<lparr>connections = [(''10.0.0.7'', [demo_entry])], activeConnections = {''1000_k3j9x2a1b''},
       suspiciousActivity = []\<rparr>)"
  by (simp add: demo_logged_def logConnection_def Let_def generateConnectionId_fresh_def
      new_ConnectionAnalyzer_def checkSuspiciousActivity_def demo_entry_def show_int_def
      show_nat.simps digit_char_def)

text \<open>
  C6 (the code misses what the claim states): \<open>logConnection\<close> returns an identifier
  made of the clock and a random suffix, while \<open>updateConnectionBytes\<close> and
  \<open>closeConnection\<close> look for an entry whose \<open>ip_timestamp_type\<close> string equals the
  identifier. For the connection logged below the returned identifier finds nothing: a
  download of 200,000,000 bytes is not recorded and not flagged, and closing records no
  duration.
\<close>

theorem C6_update_misses_logged_connection:
  "fst demo_logged = ''1000_k3j9x2a1b''
   \<and> connections (snd demo_logged) = [(''10.0.0.7'', [demo_entry])]
   \<and> bytesTransferred demo_entry = Some 0 \<and> duration demo_entry = None
   \<and> (104857600 :: int) < 200000000
   \<and> updateConnectionBytes (fst demo_logged) 200000000 2000 (snd demo_logged) = snd demo_logged
   \<and> suspiciousActivity (updateConnectionBytes (fst demo_logged) 200000000 2000 (snd demo_logged)) = []
   \<and> connections (closeConnection (fst demo_logged) 3000 (snd demo_logged))
       = [(''10.0.0.7'', [demo_entry])]"
proof -
  have id: "generateConnectionId_of demo_entry = ''10.0.0.7_1000_file_download''"
    by (simp add: generateConnectionId_of_def demo_entry_def conn_type_name_def show_int_def
        show_nat.simps digit_char_def)
  have m: "update_first_entry ''1000_k3j9x2a1b'' f [(''10.0.0.7'', [demo_entry])] = None" for f
    by (simp add: id)
  show ?thesis
    unfolding demo_logged_eval
    by (simp add: updateConnectionBytes_def closeConnection_def m id Let_def)
       (simp add: demo_entry_def)
qed


subsection \<open>C8: playlist generation and parsing\<close>

lemma split_on_nonempty: "split_on c xs \<noteq> []"
  by (induction xs) (auto split: list.splits)

lemma split_on_append: "split_on c (xs @ c # ys) = split_on c xs @ split_on c ys"
proof (induction xs)
  case Nil
  then show ?case by simp
next
  case (Cons x xs)
  obtain l ls where s: "split_on c xs = l # ls"
    using split_on_nonempty [of c xs] by (cases "split_on c xs") auto
  show ?case using Cons by (simp add: s)
qed

lemma split_on_no_sep: "c \<notin> set xs \<Longrightarrow> split_on c xs = [xs]"
  by (induction xs) auto

lemma split_entry:
  assumes "newline \<notin> set s"
  shows "split_on newline (segment_entry s @ rest) = [''#EXTINF:10.0,'', s] @ split_on newline rest"
proof -
  have h: "newline \<notin> set ''#EXTINF:10.0,''" by (simp add: newline_def)
  have "segment_entry s @ rest = ''#EXTINF:10.0,'' @ newline # (s @ newline # rest)"
    by (simp add: segment_entry_def)
  then show ?thesis
    by (simp only: split_on_append split_on_no_sep [OF h] split_on_no_sep [OF assms]) simp
qed

lemma split_entries:
  assumes "\<forall>s \<in> set segs. newline \<notin> set s"
  shows "split_on newline (concat (map segment_entry segs) @ rest) =
         concat (map (\<lambda>s. [''#EXTINF:10.0,'', s]) segs) @ split_on newline rest"
  using assms
proof (induction segs)
  case Nil
  then show ?case by simp
next
  case (Cons s segs)
  have "split_on newline (concat (map segment_entry (s # segs)) @ rest) =
        split_on newline (segment_entry s @ (concat (map segment_entry segs) @ rest))"
    by simp
  also have "\<dots> = [''#EXTINF:10.0,'', s] @ split_on newline (concat (map segment_entry segs) @ rest)"
  proof (rule split_entry)
    show "newline \<notin> set s" using Cons.prems by simp
  qed
  finally show ?case using Cons by simp
qed

lemma split_header:
  "split_on newline (playlist_header @ rest) =
     [''#EXTM3U'', ''#EXT-X-VERSION:3'', ''#EXT-X-TARGETDURATION:10'', ''#EXT-X-MEDIA-SEQUENCE:0'']
     @ split_on newline rest"
proof -
  have h: "newline \<notin> set ''#EXTM3U''" "newline \<notin> set ''#EXT-X-VERSION:3''"
    "newline \<notin> set ''#EXT-X-TARGETDURATION:10''" "newline \<notin> set ''#EXT-X-MEDIA-SEQUENCE:0''"
    by (simp_all add: newline_def)
  have "playlist_header @ rest = ''#EXTM3U'' @ newline # (''#EXT-X-VERSION:3'' @ newline #
      (''#EXT-X-TARGETDURATION:10'' @ newline # (''#EXT-X-MEDIA-SEQUENCE:0'' @ newline # rest)))"
    by (simp add: playlist_header_def)
  then show ?thesis
    by (simp only: split_on_append h [THEN split_on_no_sep]) simp
qed

lemma split_endlist: "split_on newline ''#EXT-X-ENDLIST'' = [''#EXT-X-ENDLIST'']"
  by (rule split_on_no_sep) (simp add: newline_def)

lemma keep_names:
  assumes "\<forall>s \<in> set segs. s \<noteq> [] \<and> \<not> startsWith s ''#'' \<and> trim s = s"
  shows "map trim (filter (\<lambda>line. trim line \<noteq> [] \<and> \<not> startsWith line ''#'')
            (concat (map (\<lambda>s. [''#EXTINF:10.0,'', s]) segs))) = segs"
  using assms by (induction segs) (simp_all add: startsWith_def)

lemma endsWith_nonempty: "endsWith f ''.ts'' \<Longrightarrow> f \<noteq> []"
  by (auto simp add: endsWith_def)

text \<open>
  C8 (amended): for every stream directory whose \<open>.ts\<close> file names contain no line
  break, do not start with \<open>#\<close> and have no leading or trailing white space, the playlist is
  the four header lines, then for each \<open>.ts\<close> name in sorted order the line
  \<open>#EXTINF:10.0,\<close> followed by the name, then \<open>#EXT-X-ENDLIST\<close>; and the orchestrator's
  parser recovers exactly the sorted names. For a directory that does not exist the
  playlist is the four header lines and \<open>#EXT-X-ENDLIST\<close>, and parses to the empty list.
\<close>

theorem C8_playlist_round_trip:
  "(\<forall>f \<in> set files. endsWith f ''.ts'' \<longrightarrow> good_segment_name f) \<longrightarrow>
     (let segs = sort (filter (\<lambda>f. endsWith f ''.ts'') files);
          pl = generateHLSPlaylist (Some files)
      in split_on newline pl =
           [''#EXTM3U'', ''#EXT-X-VERSION:3'', ''#EXT-X-TARGETDURATION:10'',
            ''#EXT-X-MEDIA-SEQUENCE:0'']
           @ concat (map (\<lambda>s. [''#EXTINF:10.0,'', s]) segs) @ [''#EXT-X-ENDLIST'']
         \<and> parsePlaylist pl = segs)
   \<and> split_on newline (generateHLSPlaylist None) =
        [''#EXTM3U'', ''#EXT-X-VERSION:3'', ''#EXT-X-TARGETDURATION:10'',
         ''#EXT-X-MEDIA-SEQUENCE:0'', ''#EXT-X-ENDLIST'']
   \<and> parsePlaylist (generateHLSPlaylist None) = []"
proof (intro conjI impI)
  assume good: "\<forall>f \<in> set files. endsWith f ''.ts'' \<longrightarrow> good_segment_name f"
  define segs where "segs = sort (filter (\<lambda>f. endsWith f ''.ts'') files)"
  have mem: "s \<in> set segs \<Longrightarrow> s \<in> set files \<and> endsWith s ''.ts''" for s
    by (auto simp add: segs_def)
  have nl: "\<forall>s \<in> set segs. newline \<notin> set s"
    using good mem by (auto simp add: good_segment_name_def)
  have keep: "\<forall>s \<in> set segs. s \<noteq> [] \<and> \<not> startsWith s ''#'' \<and> trim s = s"
    using good mem endsWith_nonempty by (auto simp add: good_segment_name_def)
  have pl: "generateHLSPlaylist (Some files) =
      playlist_header @ (concat (map segment_entry segs) @ ''#EXT-X-ENDLIST'')"
    by (simp add: generateHLSPlaylist_def segs_def)
  have lines: "split_on newline (generateHLSPlaylist (Some files)) =
       [''#EXTM3U'', ''#EXT-X-VERSION:3'', ''#EXT-X-TARGETDURATION:10'',
        ''#EXT-X-MEDIA-SEQUENCE:0'']
       @ concat (map (\<lambda>s. [''#EXTINF:10.0,'', s]) segs) @ [''#EXT-X-ENDLIST'']"
    unfolding pl split_header split_entries [OF nl] split_endlist ..
  have parse: "parsePlaylist (generateHLSPlaylist (Some files)) = segs"
    unfolding parsePlaylist_def lines using keep_names [OF keep]
    by (simp add: startsWith_def)
  show "let segs = sort (filter (\<lambda>f. endsWith f ''.ts'') files);
          pl = generateHLSPlaylist (Some files)
      in split_on newline pl =
           [''#EXTM3U'', ''#EXT-X-VERSION:3'', ''#EXT-X-TARGETDURATION:10'',
            ''#EXT-X-MEDIA-SEQUENCE:0'']
           @ concat (map (\<lambda>s. [''#EXTINF:10.0,'', s]) segs) @ [''#EXT-X-ENDLIST'']
         \<and> parsePlaylist pl = segs"
    unfolding Let_def segs_def [symmetric] using lines parse by (rule conjI)
next
  have pl: "generateHLSPlaylist None = playlist_header @ ''#EXT-X-ENDLIST''"
    by (simp add: generateHLSPlaylist_def)
  show lines: "split_on newline (generateHLSPlaylist None) =
        [''#EXTM3U'', ''#EXT-X-VERSION:3'', ''#EXT-X-TARGETDURATION:10'',
         ''#EXT-X-MEDIA-SEQUENCE:0'', ''#EXT-X-ENDLIST'']"
    unfolding pl split_header split_endlist by simp
  show "parsePlaylist (generateHLSPlaylist None) = []"
    unfolding parsePlaylist_def lines by (simp add: startsWith_def)
qed

lemma good_demo_names:
  "good_segment_name ''segment000.ts''" "good_segment_name ''segment001.ts''"
  "good_segment_name ''segment002.ts''"
  by (simp_all add: good_segment_name_def newline_def startsWith_def trim_def is_ws_def)

lemma demo_sorted:
  "sort (filter (\<lambda>f. endsWith f ''.ts'')
       [''segment002.ts'', ''playlist.m3u8'', ''segment000.ts'', ''segment001.ts''])
   = [''segment000.ts'', ''segment001.ts'', ''segment002.ts'']"
  by (simp add: endsWith_def)

theorem C8_playlist_round_trip_witness:
  "parsePlaylist (generateHLSPlaylist
      (Some [''segment002.ts'', ''playlist.m3u8'', ''segment000.ts'', ''segment001.ts'']))
   = [''segment000.ts'', ''segment001.ts'', ''segment002.ts'']
   \<and> split_on newline (generateHLSPlaylist
      (Some [''segment002.ts'', ''playlist.m3u8'', ''segment000.ts'', ''segment001.ts'']))
   = [''#EXTM3U'', ''#EXT-X-VERSION:3'', ''#EXT-X-TARGETDURATION:10'', ''#EXT-X-MEDIA-SEQUENCE:0'',
      ''#EXTINF:10.0,'', ''segment000.ts'', ''#EXTINF:10.0,'', ''segment001.ts'',
      ''#EXTINF:10.0,'', ''segment002.ts'', ''#EXT-X-ENDLIST'']"
proof -
  let ?files = "[''segment002.ts'', ''playlist.m3u8'', ''segment000.ts'', ''segment001.ts'']"
  have ne: "\<not> endsWith ''playlist.m3u8'' ''.ts''" by (simp add: endsWith_def)
  have h: "\<forall>f \<in> set ?files. endsWith f ''.ts'' \<longrightarrow> good_segment_name f"
    using good_demo_names ne by simp
  from C8_playlist_round_trip [of ?files] h show ?thesis
    unfolding Let_def demo_sorted by simp
qed

text \<open>
  C8 (as stated, refuted): a directory holding the file \<open>#intro.ts\<close> yields a playlist from
  which the parser recovers nothing, since it skips every line that starts with \<open>#\<close>.
\<close>

theorem C8_hash_name_counterexample:
  "endsWith ''#intro.ts'' ''.ts''
   \<and> parsePlaylist (generateHLSPlaylist (Some [''#intro.ts''])) = []"
proof -
  have e: "endsWith ''#intro.ts'' ''.ts''" by (simp add: endsWith_def)
  have s: "sort (filter (\<lambda>f. endsWith f ''.ts'') [''#intro.ts'']) = [''#intro.ts'']"
    by (simp add: endsWith_def)
  have nl: "\<forall>s \<in> set [''#intro.ts'']. newline \<notin> set s" by (simp add: newline_def)
  have pl: "generateHLSPlaylist (Some [''#intro.ts'']) =
      playlist_header @ (concat (map segment_entry [''#intro.ts'']) @ ''#EXT-X-ENDLIST'')"
    unfolding generateHLSPlaylist_def option.case Let_def s by simp
  have lines: "split_on newline (generateHLSPlaylist (Some [''#intro.ts''])) =
       [''#EXTM3U'', ''#EXT-X-VERSION:3'', ''#EXT-X-TARGETDURATION:10'',
        ''#EXT-X-MEDIA-SEQUENCE:0'']
       @ concat (map (\<lambda>s. [''#EXTINF:10.0,'', s]) [''#intro.ts'']) @ [''#EXT-X-ENDLIST'']"
    unfolding pl split_header split_entries [OF nl] split_endlist ..
  have "parsePlaylist (generateHLSPlaylist (Some [''#intro.ts''])) = []"
    unfolding parsePlaylist_def lines by (simp add: startsWith_def)
  with e show ?thesis by (rule conjI)
qed


subsection \<open>C3: the whitelist comes first\<close>

lemma isLegitimateClient_iff:
  "isLegitimateClient ua = ((\<exists>m \<in> set legitimateAgents. includes_str ua m) \<or> trim ua = [])"
  by (auto simp add: isLegitimateClient_def list_ex_iff trim_def)

lemma Mozilla_legitimate: "includes_str ua ''Mozilla/'' \<Longrightarrow> isLegitimateClient ua"
  by (auto simp add: isLegitimateClient_iff legitimateAgents_def)

text \<open>
  C3: when the user agent contains \<open>Mozilla/\<close>, or any other whitelisted marker, or is
  empty or blank, \<open>detectExplicitAttack\<close> returns \<open>null\<close> and changes nothing, whatever the
  other headers of the request are.
\<close>

theorem C3_whitelist_precedence:
  "(includes_str ua ''Mozilla/'' \<or> (\<exists>m \<in> set legitimateAgents. includes_str ua m)
      \<or> ua = [] \<or> trim ua = [])
   \<and> header_or_empty req ''user-agent'' = ua
   \<longrightarrow> detectExplicitAttack req now mw = (None, mw)"
proof
  assume a: "(includes_str ua ''Mozilla/'' \<or> (\<exists>m \<in> set legitimateAgents. includes_str ua m)
      \<or> ua = [] \<or> trim ua = [])
   \<and> header_or_empty req ''user-agent'' = ua"
  then have "isLegitimateClient ua"
    using Mozilla_legitimate by (auto simp add: isLegitimateClient_iff trim_def)
  with a show "detectExplicitAttack req now mw = (None, mw)"
    by (simp add: detectExplicitAttack_def)
qed

theorem C3_whitelist_precedence_witness:
  "detectExplicitAttack (demo_request ''Mozilla/5.0 OptimisticACK-Attack-Tool/1.0'') 0
      (new_SecurityMiddleware default_SecurityConfig 0)
   = (None, new_SecurityMiddleware default_SecurityConfig 0)
   \<and> headers (demo_request ''Mozilla/5.0 OptimisticACK-Attack-Tool/1.0'') ''x-simulate-attack''
       = Some ''optimistic-ack''"
proof -
  let ?ua = "''Mozilla/5.0 OptimisticACK-Attack-Tool/1.0''"
  have i: "includes_str ?ua ''Mozilla/''" by (simp add: startsWith_def)
  have h: "header_or_empty (demo_request ?ua) ''user-agent'' = ?ua"
    by (simp add: header_or_empty_def demo_request_def demo_attack_headers_def)
  have x: "headers (demo_request ?ua) ''x-simulate-attack'' = Some ''optimistic-ack''"
    by (simp add: demo_request_def demo_attack_headers_def)
  from C3_whitelist_precedence [of ?ua "demo_request ?ua" 0
      "new_SecurityMiddleware default_SecurityConfig 0"] i h x
  show ?thesis by blast
qed

text \<open>Without a whitelisted marker the same headers are rejected by the first rule.\<close>

lemma attack_tool_not_legitimate: "\<not> isLegitimateClient ''OptimisticACK-Attack-Tool/1.0''"
  by (simp add: isLegitimateClient_def legitimateAgents_def startsWith_def trim_def is_ws_def)

lemma attack_tool_rejected:
  "fst (detectExplicitAttack (demo_request ''OptimisticACK-Attack-Tool/1.0'') 0 mw)
     = Some ''Explicit optimistic ACK attack simulation detected''"
proof -
  have h: "header_or_empty (demo_request ''OptimisticACK-Attack-Tool/1.0'') ''user-agent''
      = ''OptimisticACK-Attack-Tool/1.0''"
    by (simp add: header_or_empty_def demo_request_def demo_attack_headers_def)
  have x: "headers (demo_request ''OptimisticACK-Attack-Tool/1.0'') ''x-simulate-attack''
      = Some ''optimistic-ack''"
    by (simp add: demo_request_def demo_attack_headers_def)
  show ?thesis
    unfolding detectExplicitAttack_def Let_def h using attack_tool_not_legitimate x by simp
qed

subsection \<open>C10: range requests are not validated\<close>

lemma digit_cases: "i < (10::nat) \<Longrightarrow> i = 0 \<or> i = 1 \<or> i = 2 \<or> i = 3 \<or> i = 4 \<or> i = 5 \<or> i = 6 \<or> i = 7 \<or> i = 8 \<or> i = 9"
  by arith

lemma digit_char_props:
  "is_digit (digit_char k)" "digit_val (digit_char k) = k mod 10" "\<not> is_ws (digit_char k)"
  "digit_char k \<noteq> CHR ''-''" "digit_char k \<noteq> CHR ''+''"
proof -
  have "k mod 10 < 10" by simp
  then have c: "k mod 10 = 0 \<or> k mod 10 = 1 \<or> k mod 10 = 2 \<or> k mod 10 = 3 \<or> k mod 10 = 4
      \<or> k mod 10 = 5 \<or> k mod 10 = 6 \<or> k mod 10 = 7 \<or> k mod 10 = 8 \<or> k mod 10 = 9"
    by (rule digit_cases)
  show "is_digit (digit_char k)" using c unfolding digit_char_def is_digit_def
    by (elim disjE) simp_all
  show "digit_val (digit_char k) = k mod 10" using c unfolding digit_char_def digit_val_def
    by (elim disjE) simp_all
  show "\<not> is_ws (digit_char k)" using c unfolding digit_char_def is_ws_def
    by (elim disjE) simp_all
  show "digit_char k \<noteq> CHR ''-''" using c unfolding digit_char_def
    by (elim disjE) simp_all
  show "digit_char k \<noteq> CHR ''+''" using c unfolding digit_char_def
    by (elim disjE) simp_all
qed

lemma show_nat_digits: "\<forall>c \<in> set (show_nat n). is_digit c"
proof (induction n rule: show_nat.induct)
  case (1 n)
  show ?case
  proof (cases "n < 10")
    case True
    then show ?thesis by (simp add: show_nat.simps [of n] digit_char_props)
  next
    case False
    then show ?thesis using "1.IH" by (simp add: show_nat.simps [of n] digit_char_props)
  qed
qed

lemma show_nat_nonempty: "show_nat n \<noteq> []"
  by (simp add: show_nat.simps [of n])

lemma show_nat_hd_digit: "\<exists>k. hd (show_nat n) = digit_char k"
proof (induction n rule: show_nat.induct)
  case (1 n)
  show ?case
  proof (cases "n < 10")
    case True
    then show ?thesis by (auto simp add: show_nat.simps [of n])
  next
    case False
    then show ?thesis using "1.IH" show_nat_nonempty [of "n div 10"]
      by (simp add: show_nat.simps [of n])
  qed
qed

lemma digits_value_show_nat: "digits_value (show_nat n) = n"
proof (induction n rule: show_nat.induct)
  case (1 n)
  show ?case
  proof (cases "n < 10")
    case True
    then show ?thesis by (simp add: show_nat.simps [of n] digits_value_def digit_char_props)
  next
    case False
    then have "digits_value (show_nat (n div 10)) = n div 10" using "1.IH" by simp
    then show ?thesis using False
      by (simp add: show_nat.simps [of n] digits_value_def digit_char_props)
  qed
qed

lemma parseInt_show_nat: "parseInt (show_nat n) = to_number (int n)"
proof -
  obtain k where k: "hd (show_nat n) = digit_char k" using show_nat_hd_digit by blast
  have ne: "show_nat n \<noteq> []" by (rule show_nat_nonempty)
  have dw: "dropWhile is_ws (show_nat n) = show_nat n"
    using ne k digit_char_props(3) [of k] by (cases "show_nat n") simp_all
  have tw: "takeWhile is_digit (show_nat n) = show_nat n"
    using show_nat_digits by (simp add: takeWhile_eq_all_conv)
  show ?thesis
    unfolding parseInt_def Let_def dw
    using ne k digit_char_props(4,5) [of k] by (simp add: tw digits_value_show_nat)
qed

text \<open>Rounding to a double keeps the integers up to 2^53 and takes no larger one below it.\<close>

lemma halvings_small: "n < 2 ^ 53 \<Longrightarrow> halvings n = 0"
  by (simp add: halvings.simps)

lemma round_nat_small: "n < 2 ^ 53 \<Longrightarrow> round_nat n = n"
  by (simp add: round_nat_def halvings_small)

lemma halvings_bounds:
  "2 ^ 53 \<le> n \<Longrightarrow> 0 < halvings n \<and> 2 ^ 52 \<le> n div 2 ^ halvings n"
proof (induction n rule: halvings.induct)
  case (1 n)
  show ?case
  proof (cases "n div 2 < 2 ^ 53")
    case True
    then have h: "halvings n = Suc 0"
      using "1.prems" by (simp add: halvings.simps [of n] halvings_small)
    have "2 ^ 52 \<le> n div 2" using "1.prems" by simp
    then show ?thesis using h by simp
  next
    case False
    then have ih: "0 < halvings (n div 2) \<and> 2 ^ 52 \<le> (n div 2) div 2 ^ halvings (n div 2)"
      using "1.IH" "1.prems" by simp
    have h: "halvings n = Suc (halvings (n div 2))"
      using "1.prems" by (simp add: halvings.simps [of n])
    have "n div 2 ^ halvings n = (n div 2) div 2 ^ halvings (n div 2)"
      unfolding h by (simp add: div_mult2_eq)
    then show ?thesis using ih h by simp
  qed
qed

lemma round_nat_cases:
  "round_nat n = (n div 2 ^ halvings n) * 2 ^ halvings n
   \<or> round_nat n = (n div 2 ^ halvings n + 1) * 2 ^ halvings n"
  by (simp add: round_nat_def Let_def)

lemma round_nat_large: "2 ^ 53 \<le> n \<Longrightarrow> 2 ^ 53 \<le> round_nat n"
proof -
  assume n: "2 ^ 53 \<le> n"
  let ?k = "halvings n"
  let ?q = "(2::nat) ^ ?k"
  let ?m = "n div ?q"
  from halvings_bounds [OF n] have k: "0 < ?k" and m: "2 ^ 52 \<le> ?m" by simp_all
  have q2: "2 \<le> ?q" using k by (cases ?k) simp_all
  have "(2::nat) ^ 53 = 2 ^ 52 * 2" by simp
  also have "\<dots> \<le> ?m * ?q" using m q2 by (rule mult_le_mono)
  finally have a: "2 ^ 53 \<le> ?m * ?q" .
  have b: "?m * ?q \<le> (?m + 1) * ?q" by simp
  show ?thesis using round_nat_cases [of n] a b by auto
qed

lemma round_nat_upper: "round_nat n \<le> 2 * n"
proof (cases "n < 2 ^ 53")
  case True
  then show ?thesis by (simp add: round_nat_small)
next
  case False
  then have n: "2 ^ 53 \<le> n" by simp
  let ?q = "(2::nat) ^ halvings n"
  let ?m = "n div ?q"
  from halvings_bounds [OF n] have m: "2 ^ 52 \<le> ?m" by simp
  then have m1: "1 \<le> ?m" by simp
  have le: "?m * ?q \<le> n" by (rule div_times_less_eq_dividend)
  have "1 * ?q \<le> ?m * ?q" using m1 by (rule mult_le_mono1)
  then have "?q \<le> ?m * ?q" by simp
  then have q: "?q \<le> n" using le by (rule order_trans)
  have e: "(?m + 1) * ?q = ?m * ?q + ?q" by (simp add: algebra_simps)
  have "?m * ?q + ?q \<le> n + n" using le q by (rule add_mono)
  then have b: "(?m + 1) * ?q \<le> 2 * n" unfolding e by simp
  have "?m * ?q \<le> n + n" using le by (rule trans_le_add1)
  then have a: "?m * ?q \<le> 2 * n" by simp
  show ?thesis using round_nat_cases [of n] a b by auto
qed

lemma round_nat_two_53: "round_nat (2 ^ 53) = 2 ^ 53"
proof -
  have "halvings ((2::nat) ^ 53 div 2) = 0" by (rule halvings_small) simp
  then have h: "halvings (2 ^ 53) = Suc 0"
    unfolding halvings.simps [of "2 ^ 53"] by simp
  show ?thesis unfolding round_nat_def h by simp
qed

lemma to_number_exact: "\<bar>i\<bar> \<le> 2 ^ 53 \<Longrightarrow> to_number i = Num i"
proof -
  assume i: "\<bar>i\<bar> \<le> 2 ^ 53"
  let ?n = "nat \<bar>i\<bar>"
  have n: "?n \<le> 2 ^ 53" using i by (simp add: nat_le_iff)
  have r: "round_nat ?n = ?n"
  proof (cases "?n < 2 ^ 53")
    case True
    then show ?thesis by (rule round_nat_small)
  next
    case False
    then have "?n = 2 ^ 53" using n by simp
    then show ?thesis by (simp only: round_nat_two_53)
  qed
  have "(2::nat) ^ 53 < 2 ^ 1024" by (rule power_strict_increasing) simp_all
  then have fin: "\<not> 2 ^ 1024 \<le> ?n" using n by simp
  show ?thesis unfolding to_number_def Let_def r using fin by (simp split: if_splits)
qed

lemma to_number_unsafe:
  assumes "max_safe_integer < int n"
  shows "to_number (int n) = PosInf \<or> (\<exists>m. to_number (int n) = Num m \<and> max_safe_integer < m)"
proof -
  have n: "2 ^ 53 \<le> n" using assms by (simp add: max_safe_integer_def)
  have "2 ^ 53 \<le> round_nat n" by (rule round_nat_large [OF n])
  then have "max_safe_integer < int (round_nat n)" by (simp add: max_safe_integer_def)
  then show ?thesis by (simp add: to_number_def Let_def)
qed

lemma to_number_unsafe_finite:
  assumes "max_safe_integer < int n" and "n < 2 ^ 1023"
  shows "\<exists>m. to_number (int n) = Num m \<and> max_safe_integer < m"
proof -
  have "round_nat n \<le> 2 * n" by (rule round_nat_upper)
  also have "\<dots> < 2 * 2 ^ 1023" using assms(2) by simp
  also have "\<dots> = (2::nat) ^ 1024" by simp
  finally have "\<not> 2 ^ 1024 \<le> round_nat n" by simp
  then have "to_number (int n) \<noteq> PosInf" by (simp add: to_number_def Let_def)
  then show ?thesis using to_number_unsafe [OF assms(1)] by simp
qed


lemma show_nat_no_dash: "CHR ''-'' \<notin> set (show_nat n)"
proof
  assume "CHR ''-'' \<in> set (show_nat n)"
  then have "is_digit CHR ''-''" using show_nat_digits by blast
  then show False by (simp add: is_digit_def)
qed

lemma remove_first_bytes: "remove_first ''bytes='' (''bytes='' @ rest) = rest"
  by (simp add: startsWith_def)

lemma range_parts_two:
  "CHR ''-'' \<notin> set x \<Longrightarrow> range_parts (''bytes='' @ x @ ''-'' @ show_nat b) = [x, show_nat b]"
proof -
  assume x: "CHR ''-'' \<notin> set x"
  have "range_parts (''bytes='' @ x @ ''-'' @ show_nat b) = split_on CHR ''-'' (x @ CHR ''-'' # show_nat b)"
    unfolding range_parts_def remove_first_bytes by simp
  then show ?thesis
    by (simp only: split_on_append split_on_no_sep [OF x] split_on_no_sep [OF show_nat_no_dash]) simp
qed

lemma handleRangeRequest_two_parts:
  assumes "CHR ''-'' \<notin> set x"
  shows "handleRangeRequest fileSize (''bytes='' @ x @ ''-'' @ show_nat b) =
     (if createReadStream_accepts (parseInt x) (to_number (int b)) then
        PartialContent
          (''bytes '' @ show_num (parseInt x) @ ''-'' @ show_num (to_number (int b)) @ ''/''
           @ show_int fileSize)
          (num_add (num_sub (to_number (int b)) (parseInt x)) (Num 1))
          (parseInt x) (to_number (int b))
      else HandlerThrew)"
  unfolding handleRangeRequest_def range_parts_two [OF assms]
  by (simp add: Let_def second_part_def show_nat_nonempty parseInt_show_nat)

lemma range_header_nat:
  "range_header (int a) (int b) = ''bytes='' @ show_nat a @ ''-'' @ show_nat b"
  by (simp add: range_header_def show_int_def)

lemma createReadStream_rejects_start:
  "start = NaN \<or> start = PosInf \<or> start = NegInf \<or> (\<exists>m. start = Num m \<and> max_safe_integer < m)
   \<Longrightarrow> \<not> createReadStream_accepts start end'"
  by (auto simp add: createReadStream_accepts_def)

lemma createReadStream_rejects_end:
  "max_safe_integer < m \<Longrightarrow> \<not> createReadStream_accepts start (Num m)"
  by (simp add: createReadStream_accepts_def split: jsnum.splits)

lemma handleRangeRequest_safe:
  assumes ab: "a \<le> b" and b: "int b \<le> max_safe_integer"
  shows "handleRangeRequest fileSize (range_header (int a) (int b)) =
     PartialContent (''bytes '' @ show_nat a @ ''-'' @ show_nat b @ ''/'' @ show_int fileSize)
       (Num (int b - int a + 1)) (Num (int a)) (Num (int b))"
proof -
  have bb: "\<bar>int b\<bar> \<le> 2 ^ 53" using b by (simp add: max_safe_integer_def)
  have aa: "\<bar>int a\<bar> \<le> 2 ^ 53" using ab b by (simp add: max_safe_integer_def)
  have ta: "to_number (int a) = Num (int a)" by (rule to_number_exact [OF aa])
  have tb: "to_number (int b) = Num (int b)" by (rule to_number_exact [OF bb])
  have d: "\<bar>int b - int a\<bar> \<le> 2 ^ 53" using ab b by (simp add: max_safe_integer_def)
  have d1: "\<bar>int b - int a + 1\<bar> \<le> 2 ^ 53" using ab b by (simp add: max_safe_integer_def)
  have sub: "num_sub (Num (int b)) (Num (int a)) = Num (int b - int a)"
    using to_number_exact [OF d] by (simp add: num_sub_def)
  have chunk: "num_add (num_sub (Num (int b)) (Num (int a))) (Num 1) = Num (int b - int a + 1)"
    unfolding sub using to_number_exact [OF d1] by simp
  have acc: "createReadStream_accepts (Num (int a)) (Num (int b))"
    using ab b by (simp add: createReadStream_accepts_def)
  show ?thesis
    unfolding range_header_nat handleRangeRequest_two_parts [OF show_nat_no_dash]
      parseInt_show_nat ta tb chunk
    using acc by (simp add: show_num_def show_int_def)
qed

lemma handleRangeRequest_unsafe_start:
  assumes "max_safe_integer < int a"
  shows "handleRangeRequest fileSize (range_header (int a) (int b)) = HandlerThrew"
proof -
  have "\<not> createReadStream_accepts (to_number (int a)) (to_number (int b))"
    using to_number_unsafe [OF assms] by (intro createReadStream_rejects_start) blast
  then show ?thesis
    unfolding range_header_nat handleRangeRequest_two_parts [OF show_nat_no_dash]
      parseInt_show_nat
    by simp
qed

lemma handleRangeRequest_unsafe_end:
  assumes "max_safe_integer < int b" and "b < 2 ^ 1023"
  shows "handleRangeRequest fileSize (range_header (int a) (int b)) = HandlerThrew"
proof -
  obtain m where m: "to_number (int b) = Num m" "max_safe_integer < m"
    using to_number_unsafe_finite [OF assms] by blast
  have "\<not> createReadStream_accepts (to_number (int a)) (to_number (int b))"
    unfolding m(1) by (rule createReadStream_rejects_end [OF m(2)])
  then show ?thesis
    unfolding range_header_nat handleRangeRequest_two_parts [OF show_nat_no_dash]
      parseInt_show_nat
    by simp
qed

lemma handleRangeRequest_reversed:
  assumes "b < a"
  shows "handleRangeRequest fileSize (range_header (int a) (int b)) = HandlerThrew"
proof (cases "max_safe_integer < int a")
  case True
  then show ?thesis by (rule handleRangeRequest_unsafe_start)
next
  case False
  then have aa: "\<bar>int a\<bar> \<le> 2 ^ 53" by (simp add: max_safe_integer_def)
  have bb: "\<bar>int b\<bar> \<le> 2 ^ 53" using assms aa by simp
  have ta: "to_number (int a) = Num (int a)" by (rule to_number_exact [OF aa])
  have tb: "to_number (int b) = Num (int b)" by (rule to_number_exact [OF bb])
  have "\<not> createReadStream_accepts (Num (int a)) (Num (int b))"
    using assms by (simp add: createReadStream_accepts_def)
  then show ?thesis
    unfolding range_header_nat handleRangeRequest_two_parts [OF show_nat_no_dash]
      parseInt_show_nat ta tb
    by simp
qed

lemma handleRangeRequest_NaN:
  assumes nan: "parseInt x = NaN" and x: "CHR ''-'' \<notin> set x"
  shows "handleRangeRequest fileSize (''bytes='' @ x @ ''-'' @ show_nat b) = HandlerThrew"
proof -
  have "\<not> createReadStream_accepts NaN (to_number (int b))"
    by (rule createReadStream_rejects_start) simp
  then show ?thesis
    unfolding handleRangeRequest_two_parts [OF x] nan by simp
qed


lemma performPeriodicCleanup_fields [simp]:
  "blocklist (performPeriodicCleanup now mw) = blocklist mw"
  "securityConfig (performPeriodicCleanup now mw) = securityConfig mw"
  by (simp_all add: performPeriodicCleanup_def)

lemma createRequestFilter_legitimate:
  assumes "isLegitimateClient (header_or_empty req ''user-agent'')"
    and "blocklistEnabled (securityConfig mw) \<longrightarrow> \<not> isBlocked mw (getClientIP req)"
  shows "createRequestFilter req now mw = (None, performPeriodicCleanup now mw)"
  using assms by (simp add: createRequestFilter_def Let_def isBlocked_def)

lemma createDownloadProtection_legitimate:
  assumes "isLegitimateClient (header_or_empty req ''user-agent'')"
    and "blocklistEnabled (securityConfig mw) \<longrightarrow> \<not> isBlocked mw (getClientIP req)"
  shows "createDownloadProtection req now mw = (None, mw)"
  using assms by (simp add: createDownloadProtection_def detectExplicitAttack_def Let_def)

lemma handleFileDownload_range:
  assumes "files (param_filename req) = Some fileSize" and "header_truthy req ''range''"
  shows "fst (handleFileDownload files req now rnd an) =
           handleRangeRequest fileSize (header_or_empty req ''range'')"
  using assms by (simp add: handleFileDownload_def Let_def)

lemma download_route_legitimate:
  assumes mw: "securityMiddleware srv = Some mw"
    and legit: "isLegitimateClient (header_or_empty req ''user-agent'')"
    and nb: "blocklistEnabled (securityConfig mw) \<longrightarrow> \<not> isBlocked mw (getClientIP req)"
    and fl: "files (param_filename req) = Some fileSize"
    and rng: "header_truthy req ''range''"
  shows "fst (download_route files req now rnd srv) =
           handleRangeRequest fileSize (header_or_empty req ''range'')"
proof -
  let ?mw1 = "performPeriodicCleanup now mw"
  have nb1: "blocklistEnabled (securityConfig ?mw1) \<longrightarrow> \<not> isBlocked ?mw1 (getClientIP req)"
    using nb by (simp add: isBlocked_def)
  have f1: "createRequestFilter req now mw = (None, ?mw1)"
    by (rule createRequestFilter_legitimate [OF legit nb])
  have f2: "createDownloadProtection req now ?mw1 = (None, ?mw1)"
    by (rule createDownloadProtection_legitimate [OF legit nb1])
  show ?thesis
    using fl rng
    by (simp add: download_route_def mw f1 f2 split_def handleFileDownload_def Let_def)
qed

lemma download_route_unprotected:
  assumes "securityMiddleware srv = None"
    and fl: "files (param_filename req) = Some fileSize"
    and rng: "header_truthy req ''range''"
  shows "fst (download_route files req now rnd srv) =
           handleRangeRequest fileSize (header_or_empty req ''range'')"
  using assms
  by (simp add: download_route_def split_def handleFileDownload_def Let_def)

lemma demo_range_request_route:
  assumes "rangeHdr \<noteq> []"
  shows "fst (download_route demo_files (demo_range_request rangeHdr) now rnd
                (new_StreamingServer enableDefense 0))
         = handleRangeRequest 1000 rangeHdr"
proof -
  let ?req = "demo_range_request rangeHdr"
  let ?mw = "new_SecurityMiddleware medium_SecurityConfig 0"
  have fl: "demo_files (param_filename ?req) = Some 1000"
    by (simp add: demo_files_def demo_range_request_def)
  have hdr: "header_or_empty ?req ''range'' = rangeHdr"
    "header_or_empty ?req ''user-agent'' = ''Mozilla/5.0 (X11; Linux x86_64)''"
    by (simp_all add: header_or_empty_def demo_range_request_def)
  have rng: "header_truthy ?req ''range''" using assms by (simp add: header_truthy_def hdr)
  have legit: "isLegitimateClient (header_or_empty ?req ''user-agent'')"
    unfolding hdr by (rule Mozilla_legitimate) (simp add: startsWith_def)
  have nb: "blocklistEnabled (securityConfig ?mw) \<longrightarrow> \<not> isBlocked ?mw (getClientIP ?req)"
    by (simp add: isBlocked_def new_SecurityMiddleware_def)
  show ?thesis
  proof (cases enableDefense)
    case True
    then have mw: "securityMiddleware (new_StreamingServer enableDefense 0) = Some ?mw"
      by (simp add: new_StreamingServer_def)
    have "fst (download_route demo_files ?req now rnd (new_StreamingServer enableDefense 0))
        = handleRangeRequest 1000 (header_or_empty ?req ''range'')"
      using mw legit nb fl rng by (rule download_route_legitimate [where files = demo_files])
    then show ?thesis unfolding hdr .
  next
    case False
    then have mw: "securityMiddleware (new_StreamingServer enableDefense 0) = None"
      by (simp add: new_StreamingServer_def)
    have "fst (download_route demo_files ?req now rnd (new_StreamingServer enableDefense 0))
        = handleRangeRequest 1000 (header_or_empty ?req ''range'')"
      using mw fl rng by (rule download_route_unprotected [where files = demo_files])
    then show ?thesis unfolding hdr .
  qed
qed

text \<open>
  C10 (as stated, refuted): a browser's request for an existing file of 1000 bytes with
  \<open>Range: bytes=500-100\<close>, on a server with defense enabled, gets no 206 response: the
  handler prepares the head with Content-Range \<open>bytes 500-100/1000\<close> and Content-Length
  -399, then \<open>createReadStream\<close> rejects a start beyond the end and throws, and the client
  gets nothing. The same happens to \<open>Range: bytes=abc-199\<close>, whose start parses to \<open>NaN\<close>,
  on a server without defense.
\<close>

theorem C10_reversed_range_no_response:
  "fst (download_route demo_files (demo_range_request ''bytes=500-100'') 0 ''k3j9x2a1b''
          (new_StreamingServer True 0)) = HandlerThrew
   \<and> fst (download_route demo_files (demo_range_request ''bytes=abc-199'') 0 ''k3j9x2a1b''
            (new_StreamingServer False 0)) = HandlerThrew"
proof -
  have sh: "show_nat 500 = ''500''" "show_nat 100 = ''100''" "show_nat 199 = ''199''"
    by (simp_all add: show_nat.simps digit_char_def)
  have "handleRangeRequest 1000 (range_header (int 500) (int 100)) = HandlerThrew"
    by (rule handleRangeRequest_reversed) simp
  then have r: "handleRangeRequest 1000 ''bytes=500-100'' = HandlerThrew"
    unfolding range_header_nat sh by simp
  have nan: "parseInt ''abc'' = NaN" by (simp add: parseInt_def is_ws_def is_digit_def)
  have "handleRangeRequest 1000 (''bytes='' @ ''abc'' @ ''-'' @ show_nat 199) = HandlerThrew"
    by (rule handleRangeRequest_NaN [OF nan]) simp
  then have n: "handleRangeRequest 1000 ''bytes=abc-199'' = HandlerThrew"
    unfolding sh by simp
  have a: "fst (download_route demo_files (demo_range_request ''bytes=500-100'') 0 ''k3j9x2a1b''
          (new_StreamingServer True 0)) = HandlerThrew"
    unfolding r [symmetric] by (rule demo_range_request_route) simp
  have b: "fst (download_route demo_files (demo_range_request ''bytes=abc-199'') 0 ''k3j9x2a1b''
            (new_StreamingServer False 0)) = HandlerThrew"
    unfolding n [symmetric] by (rule demo_range_request_route) simp
  show ?thesis using a b by (rule conjI)
qed

text \<open>
  C10 (amended): a download request with a Range header on an existing file gets the
  outcome of \<open>handleRangeRequest\<close> on the raw header, both on an unprotected server and,
  with defense enabled, whenever the user agent is whitelisted and the address is not on
  the blocklist: the abnormal-range test of the middleware is never reached. The handler
  checks nothing itself. For a header \<open>bytes=a-b\<close> with \<open>a \<le> b \<le> 2^53 - 1\<close> the response is
  206 with Content-Range \<open>bytes a-b/size\<close> and Content-Length \<open>b - a + 1\<close>, whatever the
  file size is, so also when the end or the start lies beyond the file. When the end is
  below the start, when the start or the end exceeds \<open>2^53 - 1\<close> (the end staying below
  2^1023), or when the start does not parse, the handler throws after preparing the head
  and the client gets no response.
\<close>

theorem C10_range_unvalidated:
  "(files (param_filename req) = Some fileSize \<and> header_truthy req ''range''
      \<and> (securityMiddleware srv = None
          \<or> (\<exists>mw. securityMiddleware srv = Some mw
                \<and> isLegitimateClient (header_or_empty req ''user-agent'')
                \<and> (blocklistEnabled (securityConfig mw) \<longrightarrow> \<not> isBlocked mw (getClientIP req))))
    \<longrightarrow> fst (download_route files req now rnd srv) =
          handleRangeRequest fileSize (header_or_empty req ''range''))
   \<and> (a \<le> b \<and> int b \<le> max_safe_integer \<longrightarrow>
       handleRangeRequest fileSize (range_header (int a) (int b)) =
         PartialContent (''bytes '' @ show_nat a @ ''-'' @ show_nat b @ ''/'' @ show_int fileSize)
           (Num (int b - int a + 1)) (Num (int a)) (Num (int b)))
   \<and> (b < a \<or> max_safe_integer < int a \<or> (max_safe_integer < int b \<and> b < 2 ^ 1023) \<longrightarrow>
       handleRangeRequest fileSize (range_header (int a) (int b)) = HandlerThrew)
   \<and> (parseInt x = NaN \<and> CHR ''-'' \<notin> set x \<longrightarrow>
       handleRangeRequest fileSize (''bytes='' @ x @ ''-'' @ show_nat b) = HandlerThrew)"
proof (intro conjI impI)
  assume a: "files (param_filename req) = Some fileSize \<and> header_truthy req ''range''
      \<and> (securityMiddleware srv = None
          \<or> (\<exists>mw. securityMiddleware srv = Some mw
                \<and> isLegitimateClient (header_or_empty req ''user-agent'')
                \<and> (blocklistEnabled (securityConfig mw) \<longrightarrow> \<not> isBlocked mw (getClientIP req))))"
  from a have fl: "files (param_filename req) = Some fileSize" by (rule conjunct1)
  from a have rng: "header_truthy req ''range''" by (elim conjE)
  from a have "securityMiddleware srv = None
          \<or> (\<exists>mw. securityMiddleware srv = Some mw
                \<and> isLegitimateClient (header_or_empty req ''user-agent'')
                \<and> (blocklistEnabled (securityConfig mw) \<longrightarrow> \<not> isBlocked mw (getClientIP req)))"
    by (elim conjE)
  then show "fst (download_route files req now rnd srv) =
          handleRangeRequest fileSize (header_or_empty req ''range'')"
  proof (elim disjE exE conjE)
    assume "securityMiddleware srv = None"
    then show ?thesis using fl rng by (simp add: download_route_unprotected)
  next
    fix mw
    assume "securityMiddleware srv = Some mw"
      "isLegitimateClient (header_or_empty req ''user-agent'')"
      "blocklistEnabled (securityConfig mw) \<longrightarrow> \<not> isBlocked mw (getClientIP req)"
    then show ?thesis using fl rng by (simp add: download_route_legitimate)
  qed
next
  assume "a \<le> b \<and> int b \<le> max_safe_integer"
  then show "handleRangeRequest fileSize (range_header (int a) (int b)) =
         PartialContent (''bytes '' @ show_nat a @ ''-'' @ show_nat b @ ''/'' @ show_int fileSize)
           (Num (int b - int a + 1)) (Num (int a)) (Num (int b))"
    using handleRangeRequest_safe by blast
next
  assume "b < a \<or> max_safe_integer < int a \<or> (max_safe_integer < int b \<and> b < 2 ^ 1023)"
  then show "handleRangeRequest fileSize (range_header (int a) (int b)) = HandlerThrew"
    using handleRangeRequest_reversed handleRangeRequest_unsafe_start
      handleRangeRequest_unsafe_end by blast
next
  assume "parseInt x = NaN \<and> CHR ''-'' \<notin> set x"
  then show "handleRangeRequest fileSize (''bytes='' @ x @ ''-'' @ show_nat b) = HandlerThrew"
    using handleRangeRequest_NaN by blast
qed

theorem C10_range_unvalidated_witness:
  "fst (download_route [''xl.dat'' \<mapsto> 1000] (demo_request ''Mozilla/5.0 (X11; Linux x86_64)'') 0
          ''k3j9x2a1b'' (new_StreamingServer True 0))
     = PartialContent ''bytes 0-999999999999/1000'' (Num 1000000000000) (Num 0) (Num 999999999999)
   \<and> handleRangeRequest 1000 ''bytes=100-5000''
     = PartialContent ''bytes 100-5000/1000'' (Num 4901) (Num 100) (Num 5000)
   \<and> handleRangeRequest 1000 ''bytes=5000-100'' = HandlerThrew
   \<and> handleRangeRequest 1000 ''bytes=0-9007199254740993'' = HandlerThrew
   \<and> handleRangeRequest 1000 ''bytes=xyz-100'' = HandlerThrew"
proof -
  let ?req = "demo_request ''Mozilla/5.0 (X11; Linux x86_64)''"
  let ?srv = "new_StreamingServer True 0"
  let ?mw = "new_SecurityMiddleware medium_SecurityConfig 0"
  let ?files = "[''xl.dat'' \<mapsto> (1000::int)]"
  have sh: "show_nat 0 = ''0''" "show_nat 999999999999 = ''999999999999''" "show_int 1000 = ''1000''"
    "show_nat 5000 = ''5000''" "show_nat 100 = ''100''"
    "show_nat 9007199254740993 = ''9007199254740993''"
    by (simp_all add: show_int_def show_nat.simps digit_char_def)
  have rh: "range_header (int 0) (int 999999999999) = ''bytes=0-999999999999''"
    "range_header (int 100) (int 5000) = ''bytes=100-5000''"
    "range_header (int 5000) (int 100) = ''bytes=5000-100''"
    "range_header (int 0) (int 9007199254740993) = ''bytes=0-9007199254740993''"
    by (simp_all add: range_header_def show_int_def sh)
  have fl: "?files (param_filename ?req) = Some 1000" by (simp add: demo_request_def)
  have hdr: "header_or_empty ?req ''range'' = ''bytes=0-999999999999''"
    "header_or_empty ?req ''user-agent'' = ''Mozilla/5.0 (X11; Linux x86_64)''"
    by (simp_all add: header_or_empty_def demo_request_def demo_attack_headers_def)
  have rng: "header_truthy ?req ''range''" by (simp add: header_truthy_def hdr)
  have legit: "isLegitimateClient (header_or_empty ?req ''user-agent'')"
    unfolding hdr by (rule Mozilla_legitimate) (simp add: startsWith_def)
  have mw: "securityMiddleware ?srv = Some ?mw" by (simp add: new_StreamingServer_def)
  have nb: "blocklistEnabled (securityConfig ?mw) \<longrightarrow> \<not> isBlocked ?mw (getClientIP ?req)"
    by (simp add: isBlocked_def new_SecurityMiddleware_def)
  have nan: "parseInt ''xyz'' = NaN \<and> CHR ''-'' \<notin> set ''xyz''"
    by (simp add: parseInt_def is_ws_def is_digit_def)
  have hyp: "?files (param_filename ?req) = Some 1000 \<and> header_truthy ?req ''range''
      \<and> (securityMiddleware ?srv = None
          \<or> (\<exists>mw. securityMiddleware ?srv = Some mw
                \<and> isLegitimateClient (header_or_empty ?req ''user-agent'')
                \<and> (blocklistEnabled (securityConfig mw) \<longrightarrow> \<not> isBlocked mw (getClientIP ?req))))"
    using fl rng mw legit nb by (intro conjI disjI2 exI [of _ ?mw])
  have safe1: "(0::nat) \<le> 999999999999 \<and> int 999999999999 \<le> max_safe_integer"
    by (simp add: max_safe_integer_def)
  have safe2: "(100::nat) \<le> 5000 \<and> int 5000 \<le> max_safe_integer"
    by (simp add: max_safe_integer_def)
  have rev: "(100::nat) < 5000 \<or> max_safe_integer < int 5000
      \<or> (max_safe_integer < int 100 \<and> (100::nat) < 2 ^ 1023)"
    by simp
  have "(9007199254740993::nat) < 2 ^ 54" by simp
  also have "\<dots> < 2 ^ 1023" by (rule power_strict_increasing) simp_all
  finally have big: "(9007199254740993::nat) < 2 ^ 1023" .
  have uns: "(9007199254740993::nat) < 0 \<or> max_safe_integer < int 0
      \<or> (max_safe_integer < int 9007199254740993 \<and> (9007199254740993::nat) < 2 ^ 1023)"
    using big by (simp add: max_safe_integer_def)
  note t1 = C10_range_unvalidated [where files = ?files and req = ?req and fileSize = 1000
      and srv = ?srv and now = 0 and rnd = "''k3j9x2a1b''" and a = 0 and b = 999999999999
      and x = "''xyz''"]
  note t2 = C10_range_unvalidated [where files = ?files and req = ?req and fileSize = 1000
      and srv = ?srv and now = 0 and rnd = "''k3j9x2a1b''" and a = 100 and b = 5000
      and x = "''xyz''"]
  note t3 = C10_range_unvalidated [where files = ?files and req = ?req and fileSize = 1000
      and srv = ?srv and now = 0 and rnd = "''k3j9x2a1b''" and a = 5000 and b = 100
      and x = "''xyz''"]
  note t4 = C10_range_unvalidated [where files = ?files and req = ?req and fileSize = 1000
      and srv = ?srv and now = 0 and rnd = "''k3j9x2a1b''" and a = 0 and b = 9007199254740993
      and x = "''xyz''"]
  have A0: "fst (download_route ?files ?req 0 ''k3j9x2a1b'' ?srv)
     = handleRangeRequest 1000 (header_or_empty ?req ''range'')"
    by (rule t1 [THEN conjunct1, THEN mp, OF hyp])
  have A1: "handleRangeRequest 1000 (range_header (int 0) (int 999999999999)) =
      PartialContent (''bytes '' @ show_nat 0 @ ''-'' @ show_nat 999999999999 @ ''/'' @ show_int 1000)
        (Num (int 999999999999 - int 0 + 1)) (Num (int 0)) (Num (int 999999999999))"
    by (rule t1 [THEN conjunct2, THEN conjunct1, THEN mp, OF safe1])
  have A: "fst (download_route ?files ?req 0 ''k3j9x2a1b'' ?srv)
     = PartialContent ''bytes 0-999999999999/1000'' (Num 1000000000000) (Num 0) (Num 999999999999)"
    using A0 A1 unfolding hdr rh sh by simp
  have B1: "handleRangeRequest 1000 (range_header (int 100) (int 5000)) =
      PartialContent (''bytes '' @ show_nat 100 @ ''-'' @ show_nat 5000 @ ''/'' @ show_int 1000)
        (Num (int 5000 - int 100 + 1)) (Num (int 100)) (Num (int 5000))"
    by (rule t2 [THEN conjunct2, THEN conjunct1, THEN mp, OF safe2])
  have B: "handleRangeRequest 1000 ''bytes=100-5000''
     = PartialContent ''bytes 100-5000/1000'' (Num 4901) (Num 100) (Num 5000)"
    using B1 unfolding rh sh by simp
  have C: "handleRangeRequest 1000 ''bytes=5000-100'' = HandlerThrew"
    using t3 [THEN conjunct2, THEN conjunct2, THEN conjunct1, THEN mp, OF rev] unfolding rh .
  have D: "handleRangeRequest 1000 ''bytes=0-9007199254740993'' = HandlerThrew"
    using t4 [THEN conjunct2, THEN conjunct2, THEN conjunct1, THEN mp, OF uns] unfolding rh .
  have E0: "handleRangeRequest 1000 (''bytes='' @ ''xyz'' @ ''-'' @ show_nat 100) = HandlerThrew"
    by (rule t3 [THEN conjunct2, THEN conjunct2, THEN conjunct2, THEN mp, OF nan])
  have E: "handleRangeRequest 1000 ''bytes=xyz-100'' = HandlerThrew"
    using E0 unfolding sh by simp
  show ?thesis using A B C D E by (intro conjI)
qed

text \<open>
  Serving downloads never puts an address on the blocklist: the only actions the download
  path makes the defense system emit are alerts, which the listener ignores. A server
  starts with an empty blocklist.
\<close>

lemma markConnectionSuspicious_emitted:
  "\<exists>a. emitted (markConnectionSuspicious i p rsn now ds) = emitted ds @ [a, a]
       \<and> actionType a = Alert"
  by (simp add: markConnectionSuspicious_def Let_def split_def createDefenseAction_def
      getOrCreateConnectionState_def put_state_def)

lemma with_defense_mark_blocklist:
  "blocklist (with_defense (markConnectionSuspicious i p rsn now) mw) = blocklist mw"
proof -
  obtain a where e: "emitted (markConnectionSuspicious i p rsn now (defenseSystem mw))
      = emitted (defenseSystem mw) @ [a, a]" and a: "actionType a = Alert"
    using markConnectionSuspicious_emitted by blast
  show ?thesis
    unfolding with_defense_def Let_def e by (simp add: on_defenseAction_def a)
qed

lemma detectExplicitAttack_blocklist:
  "blocklist (snd (detectExplicitAttack req now mw)) = blocklist mw"
  by (simp add: detectExplicitAttack_def Let_def with_defense_mark_blocklist
      split: option.splits)

lemma createRequestFilter_blocklist:
  "blocklist (snd (createRequestFilter req now mw)) = blocklist mw"
  by (simp add: createRequestFilter_def Let_def checkConnectionLimit_def
      split: prod.splits bool.splits)

lemma createDownloadProtection_blocklist:
  "blocklist (snd (createDownloadProtection req now mw)) = blocklist mw"
proof (cases "blocklistEnabled (securityConfig mw) \<and> isBlocked mw (getClientIP req)")
  case True
  then show ?thesis by (simp add: createDownloadProtection_def)
next
  case False
  obtain r mw' where d: "detectExplicitAttack req now mw = (r, mw')"
    by (cases "detectExplicitAttack req now mw")
  have b: "blocklist mw' = blocklist mw" using detectExplicitAttack_blocklist [of req now mw] d by simp
  show ?thesis using False b by (cases r) (simp_all add: createDownloadProtection_def d)
qed

lemma download_route_blocklist:
  assumes "securityMiddleware srv = Some mw"
  shows "\<exists>mw'. securityMiddleware (snd (download_route files req now rnd srv)) = Some mw'
           \<and> blocklist mw' = blocklist mw"
proof -
  obtain r1 mw1 where f1: "createRequestFilter req now mw = (r1, mw1)" by (cases "createRequestFilter req now mw")
  obtain r2 mw2 where f2: "createDownloadProtection req now mw1 = (r2, mw2)"
    by (cases "createDownloadProtection req now mw1")
  have b1: "blocklist mw1 = blocklist mw" using createRequestFilter_blocklist [of req now mw] f1 by simp
  have b2: "blocklist mw2 = blocklist mw" using createDownloadProtection_blocklist [of req now mw1] f2 b1 by simp
  show ?thesis
    using assms b1 b2 by (simp add: download_route_def f1 f2 split_def split: option.splits)
qed

lemma new_StreamingServer_blocklist:
  "securityMiddleware (new_StreamingServer True now) = Some mw \<Longrightarrow> blocklist mw = {}"
  by (auto simp add: new_StreamingServer_def new_SecurityMiddleware_def)

end
